(* ===== verification/MP_Prelude.thy ===== *)
theory MP_Prelude
  imports Main
begin

text \<open>
  Shared ground of the development: the names of the model's basic types, the
  exceptions a call can end with, the outcome of a call (a returned value or a
  raised exception, each with the state the call left behind), sequencing of
  calls, and the generic facts on maps, association lists and options that the
  component theories rely on.  The fact collections declared here are filled
  by the component theories and carry most of their proofs.
\<close>

section \<open>Fact collections\<close>

named_theorems py_defs
  "defining equations of the modelled operations, unfolded as a group"
named_theorems frame_simps
  "what an operation leaves unchanged"

section \<open>Names and exceptions\<close>

type_synonym name = string

text \<open>
  The exceptions the modelled code can end with.  \<open>ValueError\<close> carries the
  message the source formats; \<open>AttributeError\<close> and \<open>TypeError\<close> carry the name
  of the attribute whose resolution or call failed, \<open>NameError\<close> the name of the
  variable that is not bound.  \<open>RecursionError\<close> is what the host raises when
  calls are nested deeper than it allows.
\<close>

datatype error =
  ValueError string | AttributeError name | TypeError name | NameError name | RecursionError

section \<open>Outcomes of calls\<close>

text \<open>
  A call either returns a value or raises; in both cases the mutations done
  before the end of the call persist, so both constructors carry the state.
\<close>

datatype ('a, 's) outcome = Return 'a 's | Raise error 's

primrec state_of :: "('a, 's) outcome \<Rightarrow> 's" where
  "state_of (Return a s) = s"
| "state_of (Raise e s) = s"

primrec value_of :: "('a, 's) outcome \<Rightarrow> 'a option" where
  "value_of (Return a s) = Some a"
| "value_of (Raise e s) = None"

primrec raised :: "('a, 's) outcome \<Rightarrow> error option" where
  "raised (Return a s) = None"
| "raised (Raise e s) = Some e"

text \<open>Statement sequencing: the second call runs only if the first returned.\<close>

definition and_then ::
  "('a, 's) outcome \<Rightarrow> ('a \<Rightarrow> 's \<Rightarrow> ('b, 's) outcome) \<Rightarrow> ('b, 's) outcome" where
  "and_then r k = (case r of Return a s \<Rightarrow> k a s | Raise e s \<Rightarrow> Raise e s)"

lemma and_then_Return [simp]: "and_then (Return a s) k = k a s"
  by (simp add: and_then_def)

lemma and_then_Raise [simp]: "and_then (Raise e s) k = Raise e s"
  by (simp add: and_then_def)

lemma and_then_right_unit [simp]: "and_then r Return = r"
  by (cases r) simp_all

lemma state_of_and_then_unit: "state_of (and_then r (\<lambda>a. Return b)) = state_of r"
  by (cases r) simp_all

lemma and_then_assoc:
  "and_then (and_then r k) h = and_then r (\<lambda>a s. and_then (k a s) h)"
  by (cases r) simp_all

lemma and_then_eq_Return_iff:
  "and_then r k = Return b t \<longleftrightarrow> (\<exists>a s. r = Return a s \<and> k a s = Return b t)"
  by (cases r) simp_all

lemma and_then_eq_Raise_iff:
  "and_then r k = Raise e t \<longleftrightarrow>
     r = Raise e t \<or> (\<exists>a s. r = Return a s \<and> k a s = Raise e t)"
  by (cases r) auto

lemma raised_None_iff: "raised r = None \<longleftrightarrow> (\<exists>a s. r = Return a s)"
  by (cases r) simp_all

lemma value_of_None_iff: "value_of r = None \<longleftrightarrow> (\<exists>e s. r = Raise e s)"
  by (cases r) simp_all

lemma outcome_eqI:
  "state_of r = state_of r' \<Longrightarrow> value_of r = value_of r' \<Longrightarrow> raised r = raised r' \<Longrightarrow> r = r'"
  by (cases r; cases r') simp_all

section \<open>Lists updated at one position\<close>

lemma in_set_update_cases: "u \<in> set (xs[i := y]) \<Longrightarrow> u = y \<or> u \<in> set xs"
  using set_update_subset_insert [of xs i y] by auto

lemma in_set_update_keep:
  assumes "u \<in> set xs"
  shows "u = xs ! i \<or> u \<in> set (xs[i := y])"
proof -
  from assms obtain j where j: "j < length xs" "xs ! j = u" by (auto simp: in_set_conv_nth)
  show ?thesis
  proof (cases "j = i")
    case True
    with j show ?thesis by simp
  next
    case False
    with j have "xs[i := y] ! j = u" "j < length (xs[i := y])" by simp_all
    then show ?thesis by (metis nth_mem)
  qed
qed

lemma list_update_keeps_witness:
  assumes "u \<in> set xs" and "P u" and "i < length xs" and "P (xs ! i) \<Longrightarrow> P y"
  shows "\<exists>u \<in> set (xs[i := y]). P u"
proof -
  from assms(1) have "u = xs ! i \<or> u \<in> set (xs[i := y])" by (rule in_set_update_keep)
  with assms(2,4) set_update_memI [OF assms(3), of y] show ?thesis by auto
qed

section \<open>Maps built by a loop of updates\<close>

text \<open>
  A loop that stores the entries of an association list one after the other
  builds the map of the reversed list on top of the starting map: later
  entries win.
\<close>

lemma fold_upd_map_of:
  "fold (\<lambda>(k, v) m. m(k \<mapsto> v)) xs m = m ++ map_of (rev xs)"
  by (induction xs arbitrary: m) (auto simp: fun_eq_iff map_add_def split: option.splits)

lemma map_of_rev_distinct:
  "distinct (map fst xs) \<Longrightarrow> map_of (rev xs) = map_of xs"
  by (rule map_of_inject_set [THEN iffD2]) (simp_all add: distinct_rev rev_map [symmetric])

lemma map_of_filter_key:
  "map_of (filter (\<lambda>(k, v). P k) xs) k = (if P k then map_of xs k else None)"
  by (induction xs) auto

lemma map_of_eq_Some_distinct:
  "distinct (map fst xs) \<Longrightarrow> (k, v) \<in> set xs \<Longrightarrow> map_of xs k = Some v"
  by simp

section \<open>Association lists keyed by prefixed names\<close>

text \<open>Prefixing every key with one character is injective on keys.\<close>

lemma map_of_prefix_keys [simp]:
  "map_of (map (\<lambda>(k, v). (c # k, v)) xs) (c # k) = map_of xs k"
  by (induction xs) auto

lemma map_of_prefix_keys_Nil [simp]:
  "map_of (map (\<lambda>(k, v). (c # k, v)) xs) [] = None"
  by (induction xs) auto

lemma map_of_prefix_keys_Cons:
  "map_of (map (\<lambda>(k, v). (c # k, v)) xs) (d # k) = (if d = c then map_of xs k else None)"
  by (induction xs) auto

lemma distinct_prefix_keys:
  "distinct (map (fst \<circ> (\<lambda>(k, v). (c # k, v))) xs) = distinct (map fst xs)"
  by (induction xs) (auto simp: image_iff)

lemma distinct_fst_filter:
  "distinct (map fst xs) \<Longrightarrow> distinct (map fst (filter P xs))"
  by (induction xs) (auto simp: image_iff)

end
