(* ===== verification/Py_Values.thy ===== *)
theory Py_Values
  imports MP_Prelude Complex_Main
begin

text \<open>
  The values that the modelled code stores in attributes and compares:
  \<open>None\<close>, booleans, integers, floats, strings, tuples, references to other
  objects with identity equality, and the bound methods of the instance, known
  by their names.  A float is a rational number, an infinity or a NaN; the code
  compares and stores floats and never computes with them, so their rounding
  plays no part.  A NaN carries the identity of its object, because the
  comparison of tuples asks for it.  \<open>py_eq\<close> is the comparison \<open>==\<close> of the
  host language on these values (a boolean equals the integer 0 or 1 it stands
  for, an integer equals the float of the same value, a NaN equals nothing),
  \<open>py_ne\<close> the comparison \<open>!=\<close> that the generated setters use to detect a
  change, and \<open>truthy\<close> the truth value that \<open>if\<close> gives a value.  \<open>canon\<close> is
  the reference definition of the comparison: two values are equal exactly
  when their canonical forms are identical and the first is not a NaN.
\<close>

section \<open>Values\<close>

datatype pyfloat = Fin rat | PInf | NInf | NaN nat

datatype val =
    VNone
  | VBool bool
  | VInt int
  | VFloat pyfloat
  | VStr string
  | VTuple "val list"
  | VRef nat
  | VBound name

section \<open>Comparison and truth value\<close>

fun float_eq :: "pyfloat \<Rightarrow> pyfloat \<Rightarrow> bool" where
  "float_eq (Fin p) (Fin q) = (p = q)"
| "float_eq PInf PInf = True"
| "float_eq NInf NInf = True"
| "float_eq x y = False"

text \<open>
  The items of two tuples are compared by \<^verbatim>\<open>x is y or x == y\<close>; identical terms
  stand for the same object or for equal objects, except that a NaN is unequal
  to itself.
\<close>

fun py_eq :: "val \<Rightarrow> val \<Rightarrow> bool" where
  "py_eq VNone w = (w = VNone)"
| "py_eq (VBool a) w =
     (case w of VBool b \<Rightarrow> a = b | VInt j \<Rightarrow> of_bool a = j
      | VFloat y \<Rightarrow> float_eq (Fin (of_bool a)) y | _ \<Rightarrow> False)"
| "py_eq (VInt i) w =
     (case w of VBool b \<Rightarrow> i = of_bool b | VInt j \<Rightarrow> i = j
      | VFloat y \<Rightarrow> float_eq (Fin (of_int i)) y | _ \<Rightarrow> False)"
| "py_eq (VFloat x) w =
     (case w of VBool b \<Rightarrow> float_eq x (Fin (of_bool b)) | VInt j \<Rightarrow> float_eq x (Fin (of_int j))
      | VFloat y \<Rightarrow> float_eq x y | _ \<Rightarrow> False)"
| "py_eq (VStr s) w = (case w of VStr t \<Rightarrow> s = t | _ \<Rightarrow> False)"
| "py_eq (VTuple xs) w =
     (case w of VTuple ys \<Rightarrow> list_all2 (\<lambda>x y. x = y \<or> py_eq x y) xs ys | _ \<Rightarrow> False)"
| "py_eq (VRef a) w = (case w of VRef b \<Rightarrow> a = b | _ \<Rightarrow> False)"
| "py_eq (VBound m) w = (case w of VBound n \<Rightarrow> m = n | _ \<Rightarrow> False)"

definition py_ne :: "val \<Rightarrow> val \<Rightarrow> bool" where
  "py_ne v w \<longleftrightarrow> \<not> py_eq v w"

definition item_eq :: "val \<Rightarrow> val \<Rightarrow> bool" where
  "item_eq x y \<longleftrightarrow> x = y \<or> py_eq x y"

fun truthy :: "val \<Rightarrow> bool" where
  "truthy VNone = False"
| "truthy (VBool b) = b"
| "truthy (VInt i) = (i \<noteq> 0)"
| "truthy (VFloat x) = (x \<noteq> Fin 0)"
| "truthy (VStr s) = (s \<noteq> [])"
| "truthy (VTuple vs) = (vs \<noteq> [])"
| "truthy (VRef a) = True"
| "truthy (VBound m) = True"

fun is_str :: "val \<Rightarrow> bool" where
  "is_str (VStr s) = True"
| "is_str _ = False"

fun is_nan :: "val \<Rightarrow> bool" where
  "is_nan (VFloat (NaN k)) = True"
| "is_nan _ = False"

fun callable :: "val \<Rightarrow> bool" where
  "callable (VBound m) = True"
| "callable _ = False"

fun the_str :: "val \<Rightarrow> string" where
  "the_str (VStr s) = s"
| "the_str _ = []"

section \<open>Canonical forms\<close>

fun canon :: "val \<Rightarrow> val" where
  "canon (VBool b) = VInt (of_bool b)"
| "canon (VFloat x) =
     (case x of Fin q \<Rightarrow> if q \<in> \<int> then VInt \<lfloor>q\<rfloor> else VFloat x | _ \<Rightarrow> VFloat x)"
| "canon (VTuple vs) = VTuple (map canon vs)"
| "canon v = v"

declare canon.simps(2) [simp del]

text \<open>The values with no boolean and no float inside.\<close>

fun plain :: "val \<Rightarrow> bool" where
  "plain (VBool b) = False"
| "plain (VFloat x) = False"
| "plain (VTuple vs) = list_all plain vs"
| "plain v = True"

section \<open>Laws of the comparison\<close>

lemma map_eq_map_iff_list_all2:
  "map f xs = map g ys \<longleftrightarrow> list_all2 (\<lambda>x y. f x = g y) xs ys"
proof (induction xs arbitrary: ys)
  case Nil
  then show ?case by auto
next
  case (Cons x xs)
  then show ?case by (cases ys) auto
qed

lemma list_all2_cong_set:
  "(\<And>x y. x \<in> set xs \<Longrightarrow> P x y = Q x y) \<Longrightarrow> list_all2 P xs ys = list_all2 Q xs ys"
  by (auto simp: list_all2_conv_all_nth)

lemma float_eq_Fin [simp]:
  "float_eq (Fin p) y \<longleftrightarrow> y = Fin p"
  "float_eq x (Fin q) \<longleftrightarrow> x = Fin q"
  by (cases y; auto) (cases x; auto)

lemma float_eq_iff: "float_eq x y \<longleftrightarrow> x = y \<and> (\<forall>k. x \<noteq> NaN k)"
  by (cases x; cases y) auto

lemma float_eq_NaN [simp]: "\<not> float_eq (NaN k) y" "\<not> float_eq x (NaN k)"
  by (simp_all add: float_eq_iff)

lemma is_nan_iff: "is_nan v \<longleftrightarrow> (\<exists>k. v = VFloat (NaN k))"
  by (cases v rule: is_nan.cases) simp_all

lemma of_int_eq_rat_iff: "(of_int i :: rat) = q \<longleftrightarrow> q \<in> \<int> \<and> \<lfloor>q\<rfloor> = i"
  by (auto simp: Ints_def)

lemma canon_VFloat_simps [simp]:
  "canon (VFloat (Fin q)) = (if q \<in> \<int> then VInt \<lfloor>q\<rfloor> else VFloat (Fin q))"
  "canon (VFloat PInf) = VFloat PInf"
  "canon (VFloat NInf) = VFloat NInf"
  "canon (VFloat (NaN k)) = VFloat (NaN k)"
  by (simp_all add: canon.simps(2))

lemma canon_VFloat_cases [simp]:
  "canon (VFloat x) = VInt i \<longleftrightarrow> x = Fin (of_int i)"
  "VInt i = canon (VFloat x) \<longleftrightarrow> x = Fin (of_int i)"
  "canon (VFloat x) = VFloat y \<longleftrightarrow> x = y \<and> (\<forall>i. x \<noteq> Fin (of_int i))"
  "VFloat y = canon (VFloat x) \<longleftrightarrow> x = y \<and> (\<forall>i. x \<noteq> Fin (of_int i))"
  by (cases x; auto simp: of_int_eq_rat_iff Ints_def)+

lemma canon_VFloat_other [simp]:
  "canon (VFloat x) \<noteq> VNone" "canon (VFloat x) \<noteq> VBool b" "canon (VFloat x) \<noteq> VStr s"
  "canon (VFloat x) \<noteq> VTuple vs" "canon (VFloat x) \<noteq> VRef a" "canon (VFloat x) \<noteq> VBound m"
  "VNone \<noteq> canon (VFloat x)" "VStr s \<noteq> canon (VFloat x)"
  "VTuple vs \<noteq> canon (VFloat x)" "VRef a \<noteq> canon (VFloat x)" "VBound m \<noteq> canon (VFloat x)"
  by (cases x; simp)+

lemma canon_eq_NaN [simp]:
  "canon v = VFloat (NaN k) \<longleftrightarrow> v = VFloat (NaN k)"
  "VFloat (NaN k) = canon v \<longleftrightarrow> v = VFloat (NaN k)"
  by (cases v; auto)+

text \<open>The comparison of items is identity of canonical forms.\<close>

lemma float_eq_canon:
  "float_eq x y \<longleftrightarrow> (\<forall>k. x \<noteq> NaN k) \<and> canon (VFloat x) = canon (VFloat y)"
proof (cases "\<exists>i. x = Fin (of_int i)")
  case True
  then show ?thesis by auto
next
  case False
  then have cx: "canon (VFloat x) = VFloat x" by simp
  have "VFloat x = canon (VFloat y) \<longleftrightarrow> x = y"
    by (metis False canon_VFloat_cases(4))
  then have "canon (VFloat x) = canon (VFloat y) \<longleftrightarrow> x = y"
    by (simp only: cx)
  then show ?thesis by (auto simp: float_eq_iff)
qed

lemma py_eq_iff_canon: "py_eq v w \<longleftrightarrow> \<not> is_nan v \<and> canon v = canon w"
proof (induction v arbitrary: w)
  case (VTuple xs)
  have "(x = y \<or> py_eq x y) = (canon x = canon y)" if "x \<in> set xs" for x y
    using VTuple.IH [OF that, of y] by (auto simp: is_nan_iff)
  then have "list_all2 (\<lambda>x y. x = y \<or> py_eq x y) xs ys =
      list_all2 (\<lambda>x y. canon x = canon y) xs ys" for ys
    by (rule list_all2_cong_set)
  then show ?case
    by (cases w) (simp_all add: map_eq_map_iff_list_all2)
next
  case VNone
  then show ?case by (cases w) auto
next
  case (VBool b)
  then show ?case by (cases w) auto
next
  case (VInt i)
  then show ?case by (cases w) auto
next
  case (VFloat x)
  then show ?case by (cases w) (auto simp: is_nan_iff float_eq_canon)
next
  case (VStr s)
  then show ?case by (cases w) auto
next
  case (VRef a)
  then show ?case by (cases w) auto
next
  case (VBound m)
  then show ?case by (cases w) auto
qed

lemma item_eq_iff_canon: "item_eq x y \<longleftrightarrow> canon x = canon y"
  by (auto simp: item_eq_def py_eq_iff_canon is_nan_iff)

lemma py_eq_refl [simp, intro]: "\<not> is_nan v \<Longrightarrow> py_eq v v"
  by (simp add: py_eq_iff_canon)

lemma py_eq_refl_iff: "py_eq v v \<longleftrightarrow> \<not> is_nan v"
  by (simp add: py_eq_iff_canon)

lemma py_eq_nan [simp]: "is_nan v \<Longrightarrow> \<not> py_eq v w" "is_nan w \<Longrightarrow> \<not> py_eq v w"
  by (auto simp: py_eq_iff_canon is_nan_iff)

lemma py_eq_sym: "py_eq v w \<Longrightarrow> py_eq w v"
  by (auto simp: py_eq_iff_canon is_nan_iff)

lemma py_eq_commute: "py_eq v w = py_eq w v"
  by (auto simp: py_eq_iff_canon is_nan_iff)

lemma py_eq_trans: "py_eq u v \<Longrightarrow> py_eq v w \<Longrightarrow> py_eq u w"
  by (simp add: py_eq_iff_canon)

lemma py_eq_None_right [simp]: "py_eq v VNone \<longleftrightarrow> v = VNone"
  by (cases v) simp_all

lemma py_ne_irrefl [simp]: "\<not> is_nan v \<Longrightarrow> \<not> py_ne v v"
  by (simp add: py_ne_def)

lemma py_ne_nan [simp]: "is_nan v \<Longrightarrow> py_ne v w" "is_nan w \<Longrightarrow> py_ne v w"
  by (simp_all add: py_ne_def)

lemma py_ne_None_left [simp]: "py_ne VNone w \<longleftrightarrow> w \<noteq> VNone"
  by (simp add: py_ne_def)

lemma py_ne_commute: "py_ne v w = py_ne w v"
  by (simp add: py_ne_def py_eq_commute)

lemma py_ne_imp_neq: "\<not> is_nan v \<Longrightarrow> py_ne v w \<Longrightarrow> v \<noteq> w"
  by (auto simp: py_ne_def)

text \<open>Plain values compare by identity of terms.\<close>

lemma canon_plain: "plain v \<Longrightarrow> canon v = v"
  by (induction v) (auto simp: list_all_iff map_idI)

lemma plain_not_nan: "plain v \<Longrightarrow> \<not> is_nan v"
  by (cases v) simp_all

lemma py_eq_plain: "plain v \<Longrightarrow> plain w \<Longrightarrow> py_eq v w \<longleftrightarrow> v = w"
  by (simp add: py_eq_iff_canon canon_plain plain_not_nan)

lemma canon_idem [simp]: "canon (canon v) = canon v"
proof (induction v)
  case (VFloat x)
  then show ?case by (cases x) simp_all
qed simp_all

lemma truthy_canon [simp]: "truthy (canon v) = truthy v"
proof (cases v)
  case (VFloat x)
  then show ?thesis by (cases x) (auto simp: Ints_def)
qed simp_all

lemma py_eq_truthy: "py_eq v w \<Longrightarrow> truthy v = truthy w"
  using truthy_canon [of v] truthy_canon [of w] by (simp only: py_eq_iff_canon)

text \<open>A tuple never equals one of its own elements.\<close>

lemma size_less_VTuple: "v \<in> set vs \<Longrightarrow> size v < size (VTuple vs)"
  by (induction vs) auto

lemma VTuple_neq_elem: "v \<in> set vs \<Longrightarrow> VTuple vs \<noteq> v"
  using size_less_VTuple [of v vs] by auto

section \<open>The comparison is a partial equivalence\<close>

text \<open>
  The comparison that decides whether a write changes a value is symmetric
  and transitive, and it is reflexive exactly on the values that are not a
  NaN: it is an equivalence relation on those, and a NaN differs from every
  value, itself included.
\<close>

lemma py_eq_partial_equivalence:
  "part_equivp py_eq \<and> (\<forall>v. py_eq v v \<longleftrightarrow> \<not> is_nan v)"
proof
  show "part_equivp py_eq"
  proof (rule part_equivpI)
    have "py_eq VNone VNone" by simp
    then show "\<exists>x. py_eq x x" ..
    show "symp py_eq" by (auto simp: symp_def py_eq_sym)
    show "transp py_eq" by (auto simp: transp_def intro: py_eq_trans)
  qed
  show "\<forall>v. py_eq v v \<longleftrightarrow> \<not> is_nan v" by (simp add: py_eq_refl_iff)
qed

text \<open>
  The comparison is coarser than identity: the boolean \<^verbatim>\<open>True\<close>, the integer 1
  and the float 1.0 are different values that compare equal, also inside
  tuples; and it is not reflexive: a NaN is unequal to itself, while a tuple
  that holds a NaN equals itself, because items are compared by identity
  first.
\<close>

lemma py_eq_not_identity:
  "py_eq (VTuple [VBool True, VStr s]) (VTuple [VInt 1, VStr s])
   \<and> VTuple [VBool True, VStr s] \<noteq> VTuple [VInt 1, VStr s]
   \<and> py_eq (VInt 1) (VFloat (Fin 1))"
  by simp

lemma py_eq_nan_examples:
  "py_ne (VFloat (NaN k)) (VFloat (NaN k))"
  "py_eq (VTuple [VFloat (NaN k)]) (VTuple [VFloat (NaN k)])"
  "k \<noteq> l \<Longrightarrow> py_ne (VTuple [VFloat (NaN k)]) (VTuple [VFloat (NaN l)])"
  by (simp_all add: py_ne_def)

end
