(* ===== verification/Py_Object.thy ===== *)
theory Py_Object
  imports Py_Values
begin

text \<open>
  The instance the modelled code works on: an object whose attributes live in
  its own dictionary.  \<open>getattr_default\<close>, \<open>setattr\<close> and \<open>delattr\<close> are the
  built-ins \<^verbatim>\<open>getattr(o, n, d)\<close>, \<^verbatim>\<open>setattr(o, n, v)\<close> and \<^verbatim>\<open>delattr(o, n)\<close> on such
  an instance, for names that the class does not define itself.  The methods of
  the instance's class are a table of state transformers; \<open>call_method\<close> is
  \<^verbatim>\<open>getattr(o, n)(field, old, new)\<close>: the name is resolved when the call is
  made, and an entry of the instance dictionary shadows the method of the
  class; such an entry can be called if it is a bound method and is a plain
  value that cannot be called otherwise.
  The record is extensible, so an instance can carry further state of its
  environment that the operations here leave alone.
\<close>

section \<open>Instances\<close>

record inst =
  dict :: "name \<rightharpoonup> val"

type_synonym 'a pymethod =
  "name \<Rightarrow> val \<Rightarrow> val \<Rightarrow> 'a inst_scheme \<Rightarrow> (val, 'a inst_scheme) outcome"

type_synonym 'a methods = "name \<rightharpoonup> 'a pymethod"

section \<open>Attribute access\<close>

definition getattr_default :: "'a inst_scheme \<Rightarrow> name \<Rightarrow> val \<Rightarrow> val" where
  "getattr_default s n d = (case dict s n of Some v \<Rightarrow> v | None \<Rightarrow> d)"

definition setattr :: "'a inst_scheme \<Rightarrow> name \<Rightarrow> val \<Rightarrow> 'a inst_scheme" where
  "setattr s n v = s\<lparr>dict := (dict s)(n \<mapsto> v)\<rparr>"

text \<open>\<^verbatim>\<open>del o.n\<close> on the instance dictionary, for a name that the instance holds.\<close>

definition delattr :: "'a inst_scheme \<Rightarrow> name \<Rightarrow> 'a inst_scheme" where
  "delattr s n = s\<lparr>dict := (dict s)(n := None)\<rparr>"

text \<open>The name of the field behind an attribute: \<^verbatim>\<open>'_' + name\<close>.\<close>

definition backing :: "name \<Rightarrow> name" where
  "backing k = CHR ''_'' # k"

definition call_method ::
  "'a methods \<Rightarrow> 'a inst_scheme \<Rightarrow> name \<Rightarrow> name \<Rightarrow> val \<Rightarrow> val \<Rightarrow> (val, 'a inst_scheme) outcome" where
  "call_method mt s n field old new =
     (case dict s n of
        Some (VBound n') \<Rightarrow>
          (case mt n' of
             None \<Rightarrow> Raise (AttributeError n') s
           | Some m \<Rightarrow> m field old new s)
      | Some v \<Rightarrow> Raise (TypeError n) s
      | None \<Rightarrow>
          (case mt n of
             None \<Rightarrow> Raise (AttributeError n) s
           | Some m \<Rightarrow> m field old new s))"

lemmas attr_defs [py_defs] = getattr_default_def setattr_def

section \<open>Laws of attribute access\<close>

lemma dict_setattr [simp]: "dict (setattr s n v) = (dict s)(n \<mapsto> v)"
  by (simp add: setattr_def)

lemma more_setattr [simp, frame_simps]: "inst.more (setattr s n v) = inst.more s"
  by (simp add: setattr_def)

lemma getattr_default_setattr_same [simp]:
  "getattr_default (setattr s n v) n d = v"
  by (simp add: getattr_default_def)

lemma getattr_default_setattr_other [simp, frame_simps]:
  "m \<noteq> n \<Longrightarrow> getattr_default (setattr s n v) m d = getattr_default s m d"
  by (simp add: getattr_default_def)

lemma getattr_default_Some [simp]:
  "dict s n = Some v \<Longrightarrow> getattr_default s n d = v"
  by (simp add: getattr_default_def)

lemma getattr_default_None [simp]:
  "dict s n = None \<Longrightarrow> getattr_default s n d = d"
  by (simp add: getattr_default_def)

lemma setattr_twice [simp]: "setattr (setattr s n v) n w = setattr s n w"
  by (simp add: setattr_def)

lemma setattr_commute:
  "m \<noteq> n \<Longrightarrow> setattr (setattr s m v) n w = setattr (setattr s n w) m v"
  by (simp add: setattr_def fun_upd_twist)

lemma setattr_same:
  "dict s n = Some v \<Longrightarrow> setattr s n v = s"
  by (simp add: setattr_def fun_upd_idem)

lemma dict_delattr [simp]: "dict (delattr s n) = (dict s)(n := None)"
  by (simp add: delattr_def)

lemma more_delattr [simp, frame_simps]: "inst.more (delattr s n) = inst.more s"
  by (simp add: delattr_def)

lemma getattr_default_delattr [simp]:
  "getattr_default (delattr s n) n d = d"
  "m \<noteq> n \<Longrightarrow> getattr_default (delattr s n) m d = getattr_default s m d"
  by (simp_all add: getattr_default_def)

lemma delattr_setattr: "dict s n = None \<Longrightarrow> delattr (setattr s n v) n = s"
  by (simp add: delattr_def setattr_def fun_upd_idem)

lemma inst_eqI: "dict s = dict t \<Longrightarrow> inst.more s = inst.more t \<Longrightarrow> s = t"
  by simp

lemma backing_inject [simp]: "backing k = backing k' \<longleftrightarrow> k = k'"
  by (simp add: backing_def)

lemma backing_literal [simp]: "backing k = c # n \<longleftrightarrow> c = CHR ''_'' \<and> k = n"
  by (auto simp: backing_def)

lemma literal_eq_backing [simp]: "c # n = backing k \<longleftrightarrow> c = CHR ''_'' \<and> n = k"
  by (auto simp: backing_def)

lemma backing_not_Nil [simp]: "backing k \<noteq> []"
  by (simp add: backing_def)

section \<open>Laws of method calls\<close>

lemma call_method_shadowed:
  "dict s n = Some v \<Longrightarrow> \<not> callable v \<Longrightarrow>
   call_method mt s n field old new = Raise (TypeError n) s"
  by (cases v) (simp_all add: call_method_def)

lemma call_method_rebound:
  "dict s n = Some (VBound n') \<Longrightarrow> mt n' = Some m \<Longrightarrow>
   call_method mt s n field old new = m field old new s"
  by (simp add: call_method_def)

lemma call_method_missing:
  "dict s n = None \<Longrightarrow> mt n = None \<Longrightarrow>
   call_method mt s n field old new = Raise (AttributeError n) s"
  by (simp add: call_method_def)

lemma call_method_found:
  "dict s n = None \<Longrightarrow> mt n = Some m \<Longrightarrow>
   call_method mt s n field old new = m field old new s"
  by (simp add: call_method_def)

text \<open>A call looks at no entry of the method table but the one it names.\<close>

lemma call_method_cong_table:
  "dict s n = None \<Longrightarrow> mt n = mt' n \<Longrightarrow>
   call_method mt s n field old new = call_method mt' s n field old new"
  by (simp add: call_method_def split: option.splits)

lemmas call_method_simps =
  call_method_shadowed call_method_rebound call_method_missing call_method_found

end
