(* ===== verification/Self_Properties.thy ===== *)
theory Self_Properties
  imports Py_Object
begin

text \<open>
  The bulk attribute initialiser \<^verbatim>\<open>self_properties\<close>.  The mapping \<open>scope\<close> is an
  association list in iteration order.  The two loops of the source are the
  two recursive functions \<open>copy_items_args\<close> (which also collects the copied
  values) and \<open>copy_items\<close>; \<open>self_properties\<close> chooses between them as the
  source does.  \<open>self_properties_spec\<close> states the contract on the attribute
  dictionary alone; the lemmas show that the loops implement it, what they
  leave unchanged, and how the two branches relate.
\<close>

section \<open>The operation\<close>

type_synonym items = "(name \<times> val) list"

fun copy_items_args ::
  "'a inst_scheme \<Rightarrow> items \<Rightarrow> name list \<Rightarrow> val list \<Rightarrow> 'a inst_scheme \<times> val list" where
  "copy_items_args self [] exclude args = (self, args)"
| "copy_items_args self ((k, v) # scope) exclude args =
     (if k \<noteq> ''self'' \<and> k \<notin> set exclude
      then copy_items_args (setattr self (backing k) v) scope exclude (args @ [v])
      else copy_items_args self scope exclude args)"

fun copy_items :: "'a inst_scheme \<Rightarrow> items \<Rightarrow> name list \<Rightarrow> 'a inst_scheme" where
  "copy_items self [] exclude = self"
| "copy_items self ((k, v) # scope) exclude =
     (if k \<noteq> ''self'' \<and> k \<notin> set exclude
      then copy_items (setattr self (backing k) v) scope exclude
      else copy_items self scope exclude)"

definition self_properties ::
  "'a inst_scheme \<Rightarrow> items \<Rightarrow> name list \<Rightarrow> bool \<Rightarrow> 'a inst_scheme" where
  "self_properties self scope exclude save_args =
     (if save_args
      then (case copy_items_args self scope exclude [] of
              (s, args) \<Rightarrow> setattr s ''_args'' (VTuple args))
      else copy_items self scope exclude)"

section \<open>The contract\<close>

text \<open>The entries that are copied, and the same entries under their field names.\<close>

definition kept :: "items \<Rightarrow> name list \<Rightarrow> items" where
  "kept scope exclude = filter (\<lambda>(k, v). k \<noteq> ''self'' \<and> k \<notin> set exclude) scope"

definition prefixed :: "items \<Rightarrow> items" where
  "prefixed kvs = map (\<lambda>(k, v). (backing k, v)) kvs"

definition self_properties_spec ::
  "(name \<rightharpoonup> val) \<Rightarrow> items \<Rightarrow> name list \<Rightarrow> bool \<Rightarrow> (name \<rightharpoonup> val)" where
  "self_properties_spec d scope exclude save_args =
     (let d' = d ++ map_of (rev (prefixed (kept scope exclude)))
      in if save_args then d'(''_args'' \<mapsto> VTuple (map snd (kept scope exclude))) else d')"

section \<open>The loops\<close>

lemma kept_Nil [simp]: "kept [] exclude = []"
  by (simp add: kept_def)

lemma kept_Cons:
  "kept ((k, v) # scope) exclude =
     (if k \<noteq> ''self'' \<and> k \<notin> set exclude then (k, v) # kept scope exclude
      else kept scope exclude)"
  by (simp add: kept_def)

lemma set_kept:
  "(k, v) \<in> set (kept scope exclude) \<longleftrightarrow> (k, v) \<in> set scope \<and> k \<noteq> ''self'' \<and> k \<notin> set exclude"
  by (auto simp: kept_def)

lemma distinct_kept: "distinct (map fst scope) \<Longrightarrow> distinct (map fst (kept scope exclude))"
  by (simp add: kept_def distinct_fst_filter)

lemma map_of_kept:
  "map_of (kept scope exclude) k =
     (if k \<noteq> ''self'' \<and> k \<notin> set exclude then map_of scope k else None)"
  unfolding kept_def by (rule map_of_filter_key)

lemma map_of_prefixed_backing [simp]: "map_of (prefixed kvs) (backing k) = map_of kvs k"
  by (simp add: prefixed_def backing_def)

lemma map_of_prefixed_Cons:
  "map_of (prefixed kvs) (c # n) = (if c = CHR ''_'' then map_of kvs n else None)"
  by (simp add: prefixed_def backing_def map_of_prefix_keys_Cons)

lemma map_of_prefixed_Nil [simp]: "map_of (prefixed kvs) [] = None"
  by (simp add: prefixed_def backing_def)

lemma distinct_prefixed [simp]: "distinct (map fst (prefixed kvs)) = distinct (map fst kvs)"
  by (simp add: prefixed_def backing_def distinct_prefix_keys)

text \<open>The loop that collects arguments does the same writes as the plain loop.\<close>

lemma copy_items_args_eq:
  "copy_items_args self scope exclude args =
     (copy_items self scope exclude, args @ map snd (kept scope exclude))"
  by (induction scope arbitrary: self args) (auto simp: kept_Cons)

lemma copy_items_append:
  "copy_items self (xs @ ys) exclude = copy_items (copy_items self xs exclude) ys exclude"
  by (induction xs arbitrary: self) auto

lemma more_copy_items [simp, frame_simps]:
  "inst.more (copy_items self scope exclude) = inst.more self"
  by (induction scope arbitrary: self) auto

lemma dict_copy_items_fold:
  "dict (copy_items self scope exclude) =
     fold (\<lambda>(k, v) m. m(k \<mapsto> v)) (prefixed (kept scope exclude)) (dict self)"
  by (induction scope arbitrary: self) (auto simp: kept_Cons prefixed_def)

lemma dict_copy_items:
  "dict (copy_items self scope exclude) =
     dict self ++ map_of (rev (prefixed (kept scope exclude)))"
  by (simp add: dict_copy_items_fold fold_upd_map_of)

lemma self_properties_False [simp]:
  "self_properties self scope exclude False = copy_items self scope exclude"
  by (simp add: self_properties_def)

lemma self_properties_True:
  "self_properties self scope exclude True =
     setattr (copy_items self scope exclude) ''_args'' (VTuple (map snd (kept scope exclude)))"
  by (simp add: self_properties_def copy_items_args_eq)

lemma more_self_properties [simp, frame_simps]:
  "inst.more (self_properties self scope exclude save_args) = inst.more self"
  by (cases save_args) (simp_all add: self_properties_True)

section \<open>What the loops write and what they leave\<close>

lemma fst_set_prefixed: "fst ` set (prefixed kvs) = backing ` fst ` set kvs"
  by (force simp: prefixed_def image_iff)

lemma map_of_rev_prefixed_None:
  "n \<notin> backing ` fst ` set kvs \<Longrightarrow> map_of (rev (prefixed kvs)) n = None"
  by (simp add: map_of_eq_None_iff fst_set_prefixed)

lemma map_of_rev_prefixed_backing:
  "distinct (map fst kvs) \<Longrightarrow> map_of (rev (prefixed kvs)) (backing k) = map_of kvs k"
  by (simp add: map_of_rev_distinct)

lemma dict_copy_items_other:
  "n \<notin> backing ` fst ` set (kept scope exclude) \<Longrightarrow>
   dict (copy_items self scope exclude) n = dict self n"
  by (simp add: dict_copy_items map_add_def map_of_rev_prefixed_None)

lemma dict_copy_items_backing:
  "distinct (map fst scope) \<Longrightarrow>
   dict (copy_items self scope exclude) (backing k) =
     (if k \<noteq> ''self'' \<and> k \<notin> set exclude
      then (case map_of scope k of Some v \<Rightarrow> Some v | None \<Rightarrow> dict self (backing k))
      else dict self (backing k))"
  by (simp add: dict_copy_items map_add_def map_of_rev_prefixed_backing distinct_kept
      map_of_kept split: option.splits)

lemma dict_self_properties_backing:
  assumes "distinct (map fst scope)" and "\<not> (save_args \<and> k = ''args'')"
  shows "dict (self_properties self scope exclude save_args) (backing k) =
     (if k \<noteq> ''self'' \<and> k \<notin> set exclude
      then (case map_of scope k of Some v \<Rightarrow> Some v | None \<Rightarrow> dict self (backing k))
      else dict self (backing k))"
  using assms
  by (cases save_args) (auto simp: self_properties_True dict_copy_items_backing)

section \<open>Properties of the initialiser\<close>

text \<open>
  Claim C4.  \<^verbatim>\<open>self_properties\<close> implements its contract: the attribute
  dictionary it leaves is the old dictionary overridden by the copied entries
  under their field names, later entries winning, with the tuple of the copied
  values stored as \<^verbatim>\<open>_args\<close> last when \<^verbatim>\<open>save_args\<close> is set.
\<close>

theorem self_properties_refines:
  "dict (self_properties self scope exclude save_args) =
     self_properties_spec (dict self) scope exclude save_args"
  by (simp add: self_properties_def self_properties_spec_def copy_items_args_eq dict_copy_items)

text \<open>
  Claim C10.  Every entry of a mapping with distinct keys whose key is not
  \<^verbatim>\<open>self\<close> and not excluded ends up on the instance under its prefixed name
  with its value (unless \<^verbatim>\<open>save_args\<close> is set and the key is \<^verbatim>\<open>args\<close>, whose field
  the tuple overwrites).
\<close>

theorem self_properties_copies:
  assumes "distinct (map fst scope)" and "(k, v) \<in> set scope"
    and "k \<noteq> ''self''" and "k \<notin> set exclude" and "\<not> (save_args \<and> k = ''args'')"
  shows "dict (self_properties self scope exclude save_args) (backing k) = Some v"
  using assms
  by (cases save_args) (auto simp: self_properties_def copy_items_args_eq dict_copy_items_backing)

theorem self_properties_copies_witness:
  "dict (self_properties \<lparr>dict = Map.empty\<rparr>
      [(''self'', VRef 0), (''a'', VInt 1), (''b'', VInt 2)] [] False) ''_a'' = Some (VInt 1)"
  using self_properties_copies [of "[(''self'', VRef 0), (''a'', VInt 1), (''b'', VInt 2)]"
      "''a''" "VInt 1" "[]" False "\<lparr>dict = Map.empty\<rparr>"]
  by (simp add: backing_def)

text \<open>
  An attribute that is not the field of a copied entry, and not
  \<^verbatim>\<open>_args\<close> when \<^verbatim>\<open>save_args\<close> is set, keeps its value: excluded keys never
  overwrite anything.
\<close>

lemma self_properties_frame:
  assumes "n \<notin> backing ` fst ` set (kept scope exclude)"
    and "\<not> (save_args \<and> n = ''_args'')"
  shows "dict (self_properties self scope exclude save_args) n = dict self n"
  using assms by (cases save_args) (auto simp: self_properties_True dict_copy_items_other)

lemma self_properties_frame_witness:
  "dict (self_properties \<lparr>dict = [''_z'' \<mapsto> VInt 7]\<rparr>
      [(''self'', VRef 0), (''a'', VInt 1), (''z'', VInt 2)] [''z''] True) ''_z'' = Some (VInt 7)"
  using self_properties_frame [of "''_z''" "[(''self'', VRef 0), (''a'', VInt 1), (''z'', VInt 2)]"
      "[''z'']" True "\<lparr>dict = [''_z'' \<mapsto> VInt 7]\<rparr>"]
  by (simp add: kept_def backing_def)

text \<open>
  Claim C11.  With \<^verbatim>\<open>save_args\<close> the instance's \<^verbatim>\<open>_args\<close> is the tuple of the
  copied values in the iteration order of the mapping.
\<close>

theorem self_properties_args:
  "dict (self_properties self scope exclude True) ''_args'' =
     Some (VTuple (map snd (kept scope exclude)))"
  by (simp add: self_properties_def copy_items_args_eq)

text \<open>
  The example of the specification: the mapping \<^verbatim>\<open>{"self": obj, "x": 10, "y": 20}\<close>
  leaves \<^verbatim>\<open>_args == (10, 20)\<close>.
\<close>

theorem self_properties_args_example:
  "dict (self_properties \<lparr>dict = Map.empty\<rparr>
      [(''self'', VRef 0), (''x'', VInt 10), (''y'', VInt 20)] [] True) ''_args''
   = Some (VTuple [VInt 10, VInt 20])"
  by (simp add: self_properties_args kept_def)

text \<open>
  The two loops of the source agree: the branch for \<^verbatim>\<open>save_args\<close>
  does what the other branch does and then stores the tuple.
\<close>

lemma self_properties_save_args_eq:
  "self_properties self scope exclude True =
     setattr (self_properties self scope exclude False) ''_args''
       (VTuple (map snd (kept scope exclude)))"
  by (simp add: self_properties_True)

text \<open>
  The instance reference is never copied: no call writes the
  attribute \<^verbatim>\<open>_self\<close>.
\<close>

lemma self_properties_skips_self:
  "dict (self_properties self scope exclude save_args) ''_self'' = dict self ''_self''"
proof -
  have "''_self'' \<notin> backing ` fst ` set (kept scope exclude)"
    by (auto simp: set_kept backing_def)
  then show ?thesis
    by (cases save_args) (simp_all add: self_properties_True dict_copy_items_other)
qed

text \<open>
  Claim C38.  A constructor parameter named \<^verbatim>\<open>args\<close> collides with the
  reserved attribute when \<^verbatim>\<open>save_args\<close> is set: its field \<^verbatim>\<open>_args\<close> holds the tuple
  of all copied values and never the parameter's own value.
\<close>

theorem self_properties_args_collision:
  assumes "(''args'', v) \<in> set scope" and "''args'' \<notin> set exclude"
  shows "dict (self_properties self scope exclude True) ''_args'' \<noteq> Some v"
proof -
  from assms have "(''args'', v) \<in> set (kept scope exclude)"
    by (simp add: set_kept)
  then have "snd (''args'', v) \<in> snd ` set (kept scope exclude)"
    by (rule imageI)
  then have "v \<in> set (map snd (kept scope exclude))"
    by simp
  then have "VTuple (map snd (kept scope exclude)) \<noteq> v"
    by (rule VTuple_neq_elem)
  then show ?thesis by (simp add: self_properties_True)
qed

theorem self_properties_args_collision_witness:
  "dict (self_properties \<lparr>dict = Map.empty\<rparr> [(''self'', VRef 0), (''args'', VInt 3)] [] True)
     ''_args'' \<noteq> Some (VInt 3)"
  using self_properties_args_collision [of "VInt 3" "[(''self'', VRef 0), (''args'', VInt 3)]" "[]"
      "\<lparr>dict = Map.empty\<rparr>"]
  by simp

text \<open>
  Copying the same mapping twice is the same as copying it once.
\<close>

lemma self_properties_idem:
  "self_properties (self_properties self scope exclude save_args) scope exclude save_args =
   self_properties self scope exclude save_args"
proof (rule inst_eqI)
  let ?M = "map_of (rev (prefixed (kept scope exclude)))"
  have "(d ++ ?M) ++ ?M = d ++ ?M" for d :: "name \<rightharpoonup> val"
    by (auto simp: fun_eq_iff map_add_def split: option.splits)
  moreover have "((d ++ ?M)(a \<mapsto> t) ++ ?M)(a \<mapsto> t) = (d ++ ?M)(a \<mapsto> t)" for d :: "name \<rightharpoonup> val" and a t
    by (auto simp: fun_eq_iff map_add_def split: option.splits)
  ultimately show "dict (self_properties (self_properties self scope exclude save_args) scope exclude save_args)
      = dict (self_properties self scope exclude save_args)"
    by (cases save_args) (simp_all add: self_properties_True dict_copy_items)
qed simp

end
