(* ===== verification/Properties.thy ===== *)
theory Properties
  imports Py_Object
begin

text \<open>
  The property builder: the class \<^verbatim>\<open>properties\<close> with its constructor, its entry
  and exit as a scoped resource, and its method \<^verbatim>\<open>prop\<close>.  \<open>properties_prop\<close> returns the
  decorator; \<open>decorator\<close> applied to the decorated function \<open>f\<close> either raises
  the configuration error or returns the property descriptor, a record of the
  getter, the optional setter, the (absent) deleter and the documentation.
  The closures of the source are the functions \<open>getter\<close>, \<open>setter_listener\<close>
  and \<open>setter_plain\<close> applied to the variables they capture.  A setter takes
  the method table of the instance's class, in which the listener is looked up
  when the write happens.  \<open>descr_get\<close>, \<open>descr_set\<close> and \<open>descr_del\<close> are what
  reading, assigning and deleting the attribute of an instance do with the
  descriptor.
\<close>

section \<open>The builder\<close>

record 'sc properties =
  p_scope :: "'sc option"
  p_var :: "name option"
  p_auto_dirty :: bool

definition properties_init :: "'sc \<Rightarrow> name \<Rightarrow> bool \<Rightarrow> 'sc properties" where
  "properties_init scope var_name auto_dirty =
     \<lparr>p_scope = Some scope, p_var = Some var_name, p_auto_dirty = auto_dirty\<rparr>"

definition properties_enter :: "'sc properties \<Rightarrow> 'sc properties" where
  "properties_enter self = self"

definition properties_exit :: "'sc properties \<Rightarrow> 'sc properties" where
  "properties_exit self = self\<lparr>p_scope := None, p_var := None\<rparr>"

section \<open>Decorated functions and property descriptors\<close>

record 'a pyfun =
  fn_name :: name
  fn_doc :: "string option"
  fn_body :: "'a inst_scheme \<Rightarrow> (val, 'a inst_scheme) outcome"

record 'a property =
  fget :: "'a inst_scheme \<Rightarrow> (val, 'a inst_scheme) outcome"
  fset :: "('a methods \<Rightarrow> 'a inst_scheme \<Rightarrow> val \<Rightarrow> (val, 'a inst_scheme) outcome) option"
  fdel :: "('a inst_scheme \<Rightarrow> (val, 'a inst_scheme) outcome) option"
  doc :: "string option"

section \<open>The generated accessors\<close>

text \<open>\<^verbatim>\<open>if auto_dirty: inst._is_dirty = True\<close>, the statement both setters share.\<close>

definition mark_dirty :: "bool \<Rightarrow> 'a inst_scheme \<Rightarrow> 'a inst_scheme" where
  "mark_dirty auto_dirty inst =
     (if auto_dirty then setattr inst ''_is_dirty'' (VBool True) else inst)"

definition setter_listener ::
  "name \<Rightarrow> name \<Rightarrow> bool \<Rightarrow> 'a methods \<Rightarrow> 'a inst_scheme \<Rightarrow> val \<Rightarrow> (val, 'a inst_scheme) outcome" where
  "setter_listener field listener_name auto_dirty mt inst new =
     (let old = getattr_default inst field VNone in
      if py_ne old new
      then and_then
             (call_method mt (mark_dirty auto_dirty (setattr inst field new))
                listener_name field old new)
             (\<lambda>r. Return VNone)
      else Return VNone inst)"

definition setter_plain ::
  "name \<Rightarrow> bool \<Rightarrow> 'a inst_scheme \<Rightarrow> val \<Rightarrow> (val, 'a inst_scheme) outcome" where
  "setter_plain field auto_dirty inst new =
     (if py_ne (getattr_default inst field VNone) new
      then Return VNone (mark_dirty auto_dirty (setattr inst field new))
      else Return VNone inst)"

definition getter ::
  "name \<Rightarrow> ('a inst_scheme \<Rightarrow> (val, 'a inst_scheme) outcome) \<Rightarrow> 'a inst_scheme
     \<Rightarrow> (val, 'a inst_scheme) outcome" where
  "getter field f inst =
     and_then (f inst) (\<lambda>d inst'. Return (getattr_default inst' field d) inst')"

section \<open>The decorator and the method \<^verbatim>\<open>prop\<close>\<close>

definition config_error :: "name \<Rightarrow> error" where
  "config_error field =
     ValueError (''property '' @ field @ '' cannot be read_only and observable at the same time.'')"

text \<open>\<^verbatim>\<open>listener if isinstance(listener, str) else '_changed'\<close>.\<close>

definition listener_name_of :: "val \<Rightarrow> name" where
  "listener_name_of listener = (if is_str listener then the_str listener else ''_changed'')"

definition decorator :: "bool \<Rightarrow> val \<Rightarrow> bool \<Rightarrow> 'a pyfun \<Rightarrow> error + 'a property" where
  "decorator read_only listener auto_dirty f =
     (let field = backing (fn_name f) in
      if read_only \<and> truthy listener then Inl (config_error field)
      else
        let setter =
          (if read_only then None
           else if truthy listener
           then (let listener_name = listener_name_of listener
                 in Some (setter_listener field listener_name auto_dirty))
           else Some (\<lambda>mt. setter_plain field auto_dirty))
        in Inr \<lparr>fget = getter field (fn_body f), fset = setter, fdel = None, doc = fn_doc f\<rparr>)"

definition properties_prop ::
  "'sc properties \<Rightarrow> bool \<Rightarrow> val \<Rightarrow> bool \<Rightarrow> 'a pyfun \<Rightarrow> error + 'a property" where
  "properties_prop self read_only listener auto_dirty =
     decorator read_only listener (p_auto_dirty self \<or> auto_dirty)"

section \<open>Using a descriptor\<close>

definition descr_get :: "'a property \<Rightarrow> 'a inst_scheme \<Rightarrow> (val, 'a inst_scheme) outcome" where
  "descr_get p inst = fget p inst"

definition descr_set ::
  "name \<Rightarrow> 'a property \<Rightarrow> 'a methods \<Rightarrow> 'a inst_scheme \<Rightarrow> val \<Rightarrow> (val, 'a inst_scheme) outcome" where
  "descr_set attr p mt inst new =
     (case fset p of
        None \<Rightarrow> Raise (AttributeError attr) inst
      | Some setter \<Rightarrow> setter mt inst new)"

text \<open>\<^verbatim>\<open>del inst.attr\<close> with the descriptor: the deleter, which no declaration has.\<close>

definition descr_del :: "name \<Rightarrow> 'a property \<Rightarrow> 'a inst_scheme \<Rightarrow> (val, 'a inst_scheme) outcome" where
  "descr_del attr p inst =
     (case fdel p of
        None \<Rightarrow> Raise (AttributeError attr) inst
      | Some deleter \<Rightarrow> deleter inst)"

section \<open>A listener that records its call\<close>

text \<open>
  The listener of the scenarios: it appends the triple it is called with to the
  tuple stored as \<^verbatim>\<open>_log\<close>.
\<close>

definition log_listener :: "'a pymethod" where
  "log_listener field old new inst =
     Return VNone
       (setattr inst ''_log''
          (VTuple ((case dict inst ''_log'' of Some (VTuple l) \<Rightarrow> l | _ \<Rightarrow> []) @
                   [VTuple [VStr field, old, new]])))"

section \<open>The declarations of the usage example\<close>

text \<open>
  The builder and the decorated functions of the class \<^verbatim>\<open>Car\<close> in the usage
  example of the source: \<^verbatim>\<open>brand\<close> and \<^verbatim>\<open>max_speed\<close> have an empty body, which
  returns \<^verbatim>\<open>None\<close>; \<^verbatim>\<open>speed\<close> returns 0 and \<^verbatim>\<open>on\<close> returns \<^verbatim>\<open>False\<close>.
\<close>

definition meta :: "unit properties" where
  "meta = properties_init () ''meta'' False"

definition brand_fn :: "'a pyfun" where
  "brand_fn = \<lparr>fn_name = ''brand'', fn_doc = Some ''Brand'', fn_body = Return VNone\<rparr>"

definition max_speed_fn :: "'a pyfun" where
  "max_speed_fn =
     \<lparr>fn_name = ''max_speed'', fn_doc = Some ''Maximum car speed'', fn_body = Return VNone\<rparr>"

definition speed_fn :: "'a pyfun" where
  "speed_fn =
     \<lparr>fn_name = ''speed'', fn_doc = Some ''Speed of the car'', fn_body = Return (VInt 0)\<rparr>"

definition on_fn :: "'a pyfun" where
  "on_fn = \<lparr>fn_name = ''on'', fn_doc = Some ''Engine state'', fn_body = Return (VBool False)\<rparr>"

lemmas example_defs = meta_def properties_init_def brand_fn_def max_speed_fn_def speed_fn_def on_fn_def

section \<open>Laws of the accessors\<close>

lemma mark_dirty_simps [simp]:
  "mark_dirty False inst = inst"
  "mark_dirty True inst = setattr inst ''_is_dirty'' (VBool True)"
  by (simp_all add: mark_dirty_def)

lemma dict_mark_dirty:
  "dict (mark_dirty ad inst) = (if ad then (dict inst)(''_is_dirty'' \<mapsto> VBool True) else dict inst)"
  by (simp add: mark_dirty_def)

lemma more_mark_dirty [simp, frame_simps]: "inst.more (mark_dirty ad inst) = inst.more inst"
  by (simp add: mark_dirty_def)

lemma dict_mark_dirty_other [simp, frame_simps]:
  "n \<noteq> ''_is_dirty'' \<Longrightarrow> dict (mark_dirty ad inst) n = dict inst n"
  by (simp add: mark_dirty_def)

lemma dict_mark_dirty_flag:
  "dict (mark_dirty ad inst) ''_is_dirty'' = (if ad then Some (VBool True) else dict inst ''_is_dirty'')"
  by (simp add: mark_dirty_def)

lemma mark_dirty_idem [simp]: "mark_dirty ad (mark_dirty ad inst) = mark_dirty ad inst"
  by (simp add: mark_dirty_def)

text \<open>Each setter, by the two cases of its comparison.\<close>

lemma setter_plain_equal:
  "py_eq (getattr_default inst field VNone) new \<Longrightarrow>
   setter_plain field ad inst new = Return VNone inst"
  by (simp add: setter_plain_def py_ne_def)

lemma setter_plain_changed:
  "py_ne (getattr_default inst field VNone) new \<Longrightarrow>
   setter_plain field ad inst new = Return VNone (mark_dirty ad (setattr inst field new))"
  by (simp add: setter_plain_def)

lemma setter_listener_equal:
  "py_eq (getattr_default inst field VNone) new \<Longrightarrow>
   setter_listener field lname ad mt inst new = Return VNone inst"
  by (simp add: setter_listener_def py_ne_def)

lemma setter_listener_changed:
  "py_ne (getattr_default inst field VNone) new \<Longrightarrow>
   setter_listener field lname ad mt inst new =
     and_then
       (call_method mt (mark_dirty ad (setattr inst field new)) lname field
          (getattr_default inst field VNone) new)
       (\<lambda>r. Return VNone)"
  by (simp add: setter_listener_def)

lemmas setter_cases =
  setter_plain_equal setter_plain_changed setter_listener_equal setter_listener_changed

text \<open>The state a plain setter leaves.\<close>

lemma state_of_setter_plain:
  "state_of (setter_plain field ad inst new) =
     (if py_ne (getattr_default inst field VNone) new
      then mark_dirty ad (setattr inst field new) else inst)"
  by (simp add: setter_plain_def)

lemma raised_setter_plain [simp]: "raised (setter_plain field ad inst new) = None"
  by (simp add: setter_plain_def)

lemma value_of_setter_plain [simp]: "value_of (setter_plain field ad inst new) = Some VNone"
  by (simp add: setter_plain_def)

text \<open>The result of the decorator, by the cases of its configuration.\<close>

lemma decorator_conflict:
  "truthy listener \<Longrightarrow>
   decorator True listener ad f = Inl (config_error (backing (fn_name f)))"
  by (simp add: decorator_def Let_def)

lemma decorator_read_only:
  "\<not> truthy listener \<Longrightarrow>
   decorator True listener ad f =
     Inr \<lparr>fget = getter (backing (fn_name f)) (fn_body f), fset = None, fdel = None,
          doc = fn_doc f\<rparr>"
  by (simp add: decorator_def Let_def)

lemma decorator_plain:
  "\<not> truthy listener \<Longrightarrow>
   decorator False listener ad f =
     Inr \<lparr>fget = getter (backing (fn_name f)) (fn_body f),
          fset = Some (\<lambda>mt. setter_plain (backing (fn_name f)) ad), fdel = None,
          doc = fn_doc f\<rparr>"
  by (simp add: decorator_def Let_def)

lemma decorator_listener:
  "truthy listener \<Longrightarrow>
   decorator False listener ad f =
     Inr \<lparr>fget = getter (backing (fn_name f)) (fn_body f),
          fset = Some (setter_listener (backing (fn_name f)) (listener_name_of listener) ad),
          fdel = None, doc = fn_doc f\<rparr>"
  by (simp add: decorator_def Let_def)

lemmas decorator_cases =
  decorator_conflict decorator_read_only decorator_plain decorator_listener

lemma listener_name_of_simps [simp]:
  "listener_name_of (VStr n) = n"
  "listener_name_of (VBool b) = ''_changed''"
  "listener_name_of (VInt i) = ''_changed''"
  "listener_name_of (VTuple vs) = ''_changed''"
  "listener_name_of (VRef a) = ''_changed''"
  by (simp_all add: listener_name_of_def)

lemma getter_Return:
  "f inst = Return d inst' \<Longrightarrow> getter field f inst = Return (getattr_default inst' field d) inst'"
  by (simp add: getter_def)

lemma getter_Raise: "f inst = Raise e inst' \<Longrightarrow> getter field f inst = Raise e inst'"
  by (simp add: getter_def)

section \<open>Laws of declarations and of their use\<close>

lemma properties_prop_cases:
  "truthy listener \<Longrightarrow>
   properties_prop self True listener ad f = Inl (config_error (backing (fn_name f)))"
  "\<not> truthy listener \<Longrightarrow>
   properties_prop self True listener ad f =
     Inr \<lparr>fget = getter (backing (fn_name f)) (fn_body f), fset = None, fdel = None,
          doc = fn_doc f\<rparr>"
  "\<not> truthy listener \<Longrightarrow>
   properties_prop self False listener ad f =
     Inr \<lparr>fget = getter (backing (fn_name f)) (fn_body f),
          fset = Some (\<lambda>mt. setter_plain (backing (fn_name f)) (p_auto_dirty self \<or> ad)),
          fdel = None, doc = fn_doc f\<rparr>"
  "truthy listener \<Longrightarrow>
   properties_prop self False listener ad f =
     Inr \<lparr>fget = getter (backing (fn_name f)) (fn_body f),
          fset = Some (setter_listener (backing (fn_name f)) (listener_name_of listener)
                   (p_auto_dirty self \<or> ad)),
          fdel = None, doc = fn_doc f\<rparr>"
  by (simp_all add: properties_prop_def decorator_cases)

text \<open>What a successful declaration returns, in one equation.\<close>

lemma properties_prop_Inr_iff:
  "properties_prop self read_only listener ad f = Inr p \<longleftrightarrow>
     \<not> (read_only \<and> truthy listener) \<and>
     p = \<lparr>fget = getter (backing (fn_name f)) (fn_body f),
          fset = (if read_only then None
                  else if truthy listener
                  then Some (setter_listener (backing (fn_name f)) (listener_name_of listener)
                         (p_auto_dirty self \<or> ad))
                  else Some (\<lambda>mt. setter_plain (backing (fn_name f)) (p_auto_dirty self \<or> ad))),
          fdel = None, doc = fn_doc f\<rparr>"
  by (cases read_only; cases "truthy listener") (auto simp: properties_prop_cases)

lemma descr_set_prop:
  assumes "properties_prop self False listener ad f = Inr p"
  shows "descr_set attr p mt inst new =
     (if truthy listener
      then setter_listener (backing (fn_name f)) (listener_name_of listener)
             (p_auto_dirty self \<or> ad) mt inst new
      else setter_plain (backing (fn_name f)) (p_auto_dirty self \<or> ad) inst new)"
  using assms by (auto simp: properties_prop_Inr_iff descr_set_def)

lemma descr_get_prop:
  assumes "properties_prop self read_only listener ad f = Inr p"
  shows "descr_get p inst = getter (backing (fn_name f)) (fn_body f) inst"
  using assms by (auto simp: properties_prop_Inr_iff descr_get_def)

lemma descr_del_prop:
  assumes "properties_prop self read_only listener ad f = Inr p"
  shows "descr_del attr p inst = Raise (AttributeError attr) inst"
  using assms by (auto simp: properties_prop_Inr_iff descr_del_def)

lemma doc_prop:
  assumes "properties_prop self read_only listener ad f = Inr p"
  shows "doc p = fn_doc f"
  using assms by (auto simp: properties_prop_Inr_iff)

lemma dict_written_other:
  "n \<noteq> field \<Longrightarrow> n \<noteq> ''_is_dirty'' \<Longrightarrow>
   dict (mark_dirty ad (setattr inst field new)) n = dict inst n"
  by simp

lemma dict_written_field:
  "field \<noteq> ''_is_dirty'' \<Longrightarrow> dict (mark_dirty ad (setattr inst field new)) field = Some new"
  by simp

lemma call_method_written:
  assumes "dict inst lname = None" and "lname \<noteq> field" and "lname \<noteq> ''_is_dirty''"
  shows "call_method mt (mark_dirty ad (setattr inst field new)) lname fld old new' =
     (case mt lname of
        None \<Rightarrow> Raise (AttributeError lname) (mark_dirty ad (setattr inst field new))
      | Some m \<Rightarrow> m fld old new' (mark_dirty ad (setattr inst field new)))"
  using assms by (simp add: call_method_def)

text \<open>The definitions that a declaration and its use unfold to.\<close>

lemmas declared_defs = properties_prop_def decorator_def Let_def descr_set_def descr_get_def

section \<open>Properties of declared properties\<close>

text \<open>
  Claim C3.  Declaring a property fails exactly when it is asked to be read
  only and to have a listener; the failure is the configuration error naming
  the backing field, and it happens at declaration time, whatever the
  instance.
\<close>

theorem prop_error_iff:
  "properties_prop self read_only listener ad f = Inl e \<longleftrightarrow>
     read_only \<and> truthy listener \<and> e = config_error (backing (fn_name f))"
  by (auto simp: declared_defs)

text \<open>
  Claim C5.  A property declared read only has no setter, and assigning to it
  on an instance fails without changing the instance.
\<close>

theorem read_only_rejects_assignment:
  assumes "properties_prop self True listener ad f = Inr p"
  shows "fset p = None \<and> descr_set attr p mt inst new = Raise (AttributeError attr) inst"
  using assms by (auto simp: declared_defs split: if_splits)

theorem read_only_rejects_assignment_witness:
  "descr_set ''brand'' (projr (properties_prop meta True VNone False brand_fn)) Map.empty
     \<lparr>dict = [''_brand'' \<mapsto> VStr ''Ford'']\<rparr> (VStr ''Fiat'')
   = Raise (AttributeError ''brand'') \<lparr>dict = [''_brand'' \<mapsto> VStr ''Ford'']\<rparr>"
  using read_only_rejects_assignment [of meta VNone False brand_fn
      "projr (properties_prop meta True VNone False brand_fn)" "''brand''" Map.empty
      "\<lparr>dict = [''_brand'' \<mapsto> VStr ''Ford'']\<rparr>" "VStr ''Fiat''"]
  by (simp add: properties_prop_cases)

text \<open>
  Claim C2.  Writing a value equal to the current one (with the missing field
  read as \<^verbatim>\<open>None\<close>) does nothing: no write, no dirty flag, no notification.
\<close>

theorem write_equal_is_noop:
  assumes "properties_prop self False listener ad f = Inr p"
    and "py_eq (getattr_default inst (backing (fn_name f)) VNone) new"
  shows "descr_set attr p mt inst new = Return VNone inst"
  using assms
  by (auto simp: declared_defs setter_listener_def setter_plain_def py_ne_def split: if_splits)

theorem write_equal_is_noop_witness:
  "descr_set ''speed'' (projr (properties_prop meta False (VStr ''_on_change'') True speed_fn))
     [''_on_change'' \<mapsto> log_listener] \<lparr>dict = [''_speed'' \<mapsto> VInt 50]\<rparr> (VInt 50)
   = Return VNone \<lparr>dict = [''_speed'' \<mapsto> VInt 50]\<rparr>"
  using write_equal_is_noop [of meta "VStr ''_on_change''" True speed_fn
      "projr (properties_prop meta False (VStr ''_on_change'') True speed_fn)"
      "\<lparr>dict = [''_speed'' \<mapsto> VInt 50]\<rparr>" "VInt 50" "''speed''"
      "[''_on_change'' \<mapsto> log_listener]"]
  by (simp add: properties_prop_cases speed_fn_def)

text \<open>
  Claim C1.  A value-changing write through a property with a listener writes
  the backing field, then sets the dirty flag if configured, then calls the
  method the listener names, resolved at write time, with the field name, the
  old value and the new value; the listener runs in the state that already has
  the write and the flag.
\<close>

theorem write_changed_notifies:
  assumes "properties_prop self False listener ad f = Inr p"
    and "truthy listener"
    and "py_ne (getattr_default inst (backing (fn_name f)) VNone) new"
    and "dict inst (listener_name_of listener) = None"
    and "listener_name_of listener \<noteq> backing (fn_name f)"
    and "listener_name_of listener \<noteq> ''_is_dirty''"
    and "mt (listener_name_of listener) = Some m"
  shows "descr_set attr p mt inst new =
     and_then
       (m (backing (fn_name f)) (getattr_default inst (backing (fn_name f)) VNone) new
          (mark_dirty (p_auto_dirty self \<or> ad) (setattr inst (backing (fn_name f)) new)))
       (\<lambda>r. Return VNone)"
  using assms by (auto simp: declared_defs setter_listener_def call_method_def)

theorem write_changed_notifies_witness:
  "dict (state_of
     (descr_set ''speed'' (projr (properties_prop meta False (VStr ''_on_change'') False speed_fn))
        [''_on_change'' \<mapsto> log_listener] \<lparr>dict = Map.empty\<rparr> (VInt 50))) ''_log''
   = Some (VTuple [VTuple [VStr ''_speed'', VNone, VInt 50]])"
  using write_changed_notifies [of meta "VStr ''_on_change''" False speed_fn
      "projr (properties_prop meta False (VStr ''_on_change'') False speed_fn)"
      "\<lparr>dict = Map.empty\<rparr>" "VInt 50" "[''_on_change'' \<mapsto> log_listener]" log_listener "''speed''"]
  by (simp add: properties_prop_cases speed_fn_def meta_def properties_init_def py_ne_def
      log_listener_def backing_def)

text \<open>
  Claim C6.  When the listener method does not exist the write fails with an
  attribute error, and the instance keeps the new value and the dirty flag: the
  mutation is not rolled back.
\<close>

theorem write_missing_listener:
  assumes "properties_prop self False listener ad f = Inr p"
    and "truthy listener"
    and "py_ne (getattr_default inst (backing (fn_name f)) VNone) new"
    and "dict inst (listener_name_of listener) = None"
    and "listener_name_of listener \<noteq> backing (fn_name f)"
    and "listener_name_of listener \<noteq> ''_is_dirty''"
    and "mt (listener_name_of listener) = None"
  shows "descr_set attr p mt inst new =
     Raise (AttributeError (listener_name_of listener))
       (mark_dirty (p_auto_dirty self \<or> ad) (setattr inst (backing (fn_name f)) new))"
  using assms by (auto simp: declared_defs setter_listener_def call_method_def)

theorem write_missing_listener_witness:
  "descr_set ''speed'' (projr (properties_prop meta False (VBool True) True speed_fn))
     Map.empty \<lparr>dict = Map.empty\<rparr> (VInt 50)
   = Raise (AttributeError ''_changed'')
       \<lparr>dict = [''_speed'' \<mapsto> VInt 50, ''_is_dirty'' \<mapsto> VBool True]\<rparr>"
  using write_missing_listener [of meta "VBool True" True speed_fn
      "projr (properties_prop meta False (VBool True) True speed_fn)"
      "\<lparr>dict = Map.empty\<rparr>" "VInt 50" Map.empty "''speed''"]
  by (simp add: properties_prop_cases speed_fn_def py_ne_def backing_def setattr_def)

text \<open>
  Claim C7.  Writing the same value twice in a row notifies at most once,
  unless the value is a NaN: if the listener leaves the backing field alone,
  the second write returns without calling it and without changing the
  instance.
\<close>

theorem second_write_is_silent:
  assumes "mt lname = Some m"
    and frame: "\<And>fld old v s. dict (state_of (m fld old v s)) field = dict s field"
    and "field \<noteq> ''_is_dirty''" and "lname \<noteq> field" and "lname \<noteq> ''_is_dirty''"
    and "dict inst lname = None"
    and first: "setter_listener field lname ad mt inst new = Return r s1"
    and "\<not> is_nan new"
  shows "setter_listener field lname ad mt s1 new = Return VNone s1"
proof (cases "py_ne (getattr_default inst field VNone) new")
  case False
  with first show ?thesis by (simp add: setter_listener_def)
next
  case True
  let ?w = "mark_dirty ad (setattr inst field new)"
  from True first assms(1,4,5,6)
  have "and_then (m field (getattr_default inst field VNone) new ?w) (\<lambda>r. Return VNone) = Return r s1"
    by (simp add: setter_listener_def call_method_def)
  then have "s1 = state_of (m field (getattr_default inst field VNone) new ?w)"
    by (auto simp: and_then_eq_Return_iff)
  then have "dict s1 field = Some new"
    using assms(3) by (simp add: frame)
  with \<open>\<not> is_nan new\<close> show ?thesis by (simp add: setter_listener_def py_ne_def)
qed

theorem second_write_is_silent_witness:
  "setter_listener ''_speed'' ''_on_change'' False [''_on_change'' \<mapsto> log_listener]
     \<lparr>dict = [''_speed'' \<mapsto> VInt 50,
              ''_log'' \<mapsto> VTuple [VTuple [VStr ''_speed'', VNone, VInt 50]]]\<rparr> (VInt 50)
   = Return VNone
       \<lparr>dict = [''_speed'' \<mapsto> VInt 50,
                ''_log'' \<mapsto> VTuple [VTuple [VStr ''_speed'', VNone, VInt 50]]]\<rparr>"
  using second_write_is_silent [of "[''_on_change'' \<mapsto> log_listener]" "''_on_change''"
      log_listener "''_speed''" "\<lparr>dict = Map.empty\<rparr>" False "VInt 50" VNone
      "\<lparr>dict = [''_speed'' \<mapsto> VInt 50,
              ''_log'' \<mapsto> VTuple [VTuple [VStr ''_speed'', VNone, VInt 50]]]\<rparr>"]
  by (simp add: log_listener_def setter_listener_def call_method_def py_ne_def setattr_def)

text \<open>
  Claim C8.  A write of a NaN is always a change: a NaN differs from every
  value, itself included, so both setters store it, set the dirty flag and
  notify on every write, also when the field already holds this very NaN.
\<close>

theorem nan_write_is_never_silent:
  assumes "is_nan new"
  shows "setter_plain field ad inst new = Return VNone (mark_dirty ad (setattr inst field new)) \<and>
         setter_listener field lname ad mt inst new =
           and_then
             (call_method mt (mark_dirty ad (setattr inst field new)) lname field
                (getattr_default inst field VNone) new)
             (\<lambda>r. Return VNone)"
  using assms by (simp add: setter_plain_def setter_listener_def)

theorem nan_write_is_never_silent_witness:
  "setter_listener ''_speed'' ''_on_change'' False [''_on_change'' \<mapsto> log_listener]
     \<lparr>dict = [''_speed'' \<mapsto> VFloat (NaN 0),
              ''_log'' \<mapsto> VTuple [VTuple [VStr ''_speed'', VNone, VFloat (NaN 0)]]]\<rparr>
     (VFloat (NaN 0))
   = Return VNone
       \<lparr>dict = [''_speed'' \<mapsto> VFloat (NaN 0),
                ''_log'' \<mapsto> VTuple [VTuple [VStr ''_speed'', VNone, VFloat (NaN 0)],
                                  VTuple [VStr ''_speed'', VFloat (NaN 0), VFloat (NaN 0)]]]\<rparr>"
  using nan_write_is_never_silent [of "VFloat (NaN 0)" "''_speed''" False
      "\<lparr>dict = [''_speed'' \<mapsto> VFloat (NaN 0),
              ''_log'' \<mapsto> VTuple [VTuple [VStr ''_speed'', VNone, VFloat (NaN 0)]]]\<rparr>"
      "''_on_change''" "[''_on_change'' \<mapsto> log_listener]"]
  by (simp add: log_listener_def call_method_def setattr_def)

text \<open>
  Without a listener, writing the same value twice is the same as
  writing it once, for a value that is not a NaN.
\<close>

lemma plain_write_twice:
  assumes "\<not> is_nan new"
  shows "and_then (setter_plain field ad inst new) (\<lambda>r s. setter_plain field ad s new) =
   setter_plain field ad inst new"
proof (cases "py_ne (getattr_default inst field VNone) new")
  case False
  then show ?thesis by (simp add: setter_plain_equal py_ne_def)
next
  case True
  show ?thesis
  proof (cases "field = ''_is_dirty'' \<and> ad")
    case False
    then have "dict (mark_dirty ad (setattr inst field new)) field = Some new" by auto
    with True assms show ?thesis by (simp add: setter_plain_changed setter_plain_equal)
  next
    case dirty: True
    then show ?thesis using True
      by (cases "py_ne (VBool True) new") (simp_all add: setter_plain_changed setter_plain_equal py_ne_def)
  qed
qed

text \<open>
  Claim C9.  With auto-dirty enabled, on the declaration or as the builder's
  default, a value-changing write leaves \<^verbatim>\<open>_is_dirty\<close> set to \<^verbatim>\<open>True\<close>, with or
  without a listener, provided that the call of the listener leaves the flag
  as it finds it.  The setter sets the flag before it calls the listener, so
  a listener that clears the flag is the one way for a changing write to end
  with the flag not set; a listener that is missing or raises does not undo
  it.
\<close>

theorem changing_write_sets_dirty:
  assumes "properties_prop self False listener ad f = Inr p"
    and "p_auto_dirty self \<or> ad"
    and "py_ne (getattr_default inst (backing (fn_name f)) VNone) new"
    and keeps: "\<And>old s. truthy listener \<Longrightarrow>
       dict (state_of (call_method mt s (listener_name_of listener) (backing (fn_name f)) old new))
         ''_is_dirty'' = dict s ''_is_dirty''"
  shows "dict (state_of (descr_set attr p mt inst new)) ''_is_dirty'' = Some (VBool True)"
proof -
  have flag: "dict (mark_dirty (p_auto_dirty self \<or> ad) s) ''_is_dirty'' = Some (VBool True)"
    for s :: "'a inst_scheme"
    unfolding mark_dirty_def using assms(2) by simp
  show ?thesis
  proof (cases "truthy listener")
    case False
    with assms(1,3) show ?thesis
      by (simp add: descr_set_prop state_of_setter_plain flag)
  next
    case True
    with assms(1,3) show ?thesis
      by (simp add: descr_set_prop setter_listener_changed state_of_and_then_unit keeps flag)
  qed
qed

theorem changing_write_sets_dirty_witness:
  "dict (state_of
     (descr_set ''speed'' (projr (properties_prop meta False (VStr ''_on_change'') True speed_fn))
        [''_on_change'' \<mapsto> log_listener] \<lparr>dict = Map.empty\<rparr> (VInt 50))) ''_is_dirty''
   = Some (VBool True)"
proof -
  have "dict (state_of (call_method [''_on_change'' \<mapsto> log_listener] s ''_on_change'' fld old new))
      ''_is_dirty'' = dict s ''_is_dirty''" for fld old new and s :: inst
    by (simp add: call_method_def log_listener_def split: option.splits val.splits)
  then show ?thesis
    using changing_write_sets_dirty [of meta "VStr ''_on_change''" True speed_fn
        "projr (properties_prop meta False (VStr ''_on_change'') True speed_fn)"
        "\<lparr>dict = Map.empty\<rparr>" "VInt 50" "[''_on_change'' \<mapsto> log_listener]" "''speed''"]
    by (simp add: properties_prop_cases speed_fn_def py_ne_def)
qed

text \<open>
  Claim C37.  No write through a property without listener clears the dirty
  flag (for a property that is not itself named \<^verbatim>\<open>is_dirty\<close>).
\<close>

theorem dirty_flag_never_cleared:
  assumes "properties_prop self False listener ad f = Inr p"
    and "\<not> truthy listener"
    and "fn_name f \<noteq> ''is_dirty''"
    and "dict inst ''_is_dirty'' = Some (VBool True)"
  shows "dict (state_of (descr_set attr p mt inst new)) ''_is_dirty'' = Some (VBool True)"
  using assms by (simp add: descr_set_prop state_of_setter_plain dict_mark_dirty)

theorem dirty_flag_never_cleared_witness:
  "dict (state_of
     (descr_set ''speed'' (projr (properties_prop meta False VNone False speed_fn)) Map.empty
        \<lparr>dict = [''_is_dirty'' \<mapsto> VBool True]\<rparr> (VInt 50))) ''_is_dirty'' = Some (VBool True)"
  using dirty_flag_never_cleared [of meta VNone False speed_fn
      "projr (properties_prop meta False VNone False speed_fn)"
      "\<lparr>dict = [''_is_dirty'' \<mapsto> VBool True]\<rparr>" "''speed''" Map.empty "VInt 50"]
  by (simp add: properties_prop_cases speed_fn_def)

text \<open>
  Claim C13.  The getter evaluates the decorated function before it looks at
  the backing field: if the function raises, reading the property raises, also
  when the field holds a value.
\<close>

theorem getter_evaluates_default_first:
  assumes "properties_prop self read_only listener ad f = Inr p"
    and "fn_body f inst = Raise e inst'"
  shows "descr_get p inst = Raise e inst'"
  using assms by (auto simp: declared_defs getter_def split: if_splits)

theorem getter_evaluates_default_first_witness:
  "descr_get
     (projr (properties_prop meta True VNone False
        \<lparr>fn_name = ''x'', fn_doc = None, fn_body = Raise (ValueError ''no default'')\<rparr>))
     \<lparr>dict = [''_x'' \<mapsto> VInt 1]\<rparr>
   = Raise (ValueError ''no default'') \<lparr>dict = [''_x'' \<mapsto> VInt 1]\<rparr>"
  using getter_evaluates_default_first [of meta True VNone False
      "\<lparr>fn_name = ''x'', fn_doc = None, fn_body = Raise (ValueError ''no default'')\<rparr>"
      "projr (properties_prop meta True VNone False
        \<lparr>fn_name = ''x'', fn_doc = None, fn_body = Raise (ValueError ''no default'')\<rparr>)"
      "\<lparr>dict = [''_x'' \<mapsto> VInt 1]\<rparr>" "ValueError ''no default''"
      "\<lparr>dict = [''_x'' \<mapsto> VInt 1]\<rparr>"]
  by (simp add: properties_prop_cases)

text \<open>
  Claim C12.  When the decorated function returns without changing the
  instance, reading the property gives the backing field's value if the field
  exists and the function's result otherwise.
\<close>

theorem getter_reads_field_or_default:
  assumes "properties_prop self read_only listener ad f = Inr p"
    and "fn_body f inst = Return d inst"
  shows "descr_get p inst =
     Return (case dict inst (backing (fn_name f)) of Some v \<Rightarrow> v | None \<Rightarrow> d) inst"
  using assms by (auto simp: declared_defs getter_def getattr_default_def split: if_splits)

theorem getter_reads_field_or_default_witness:
  "descr_get (projr (properties_prop meta False VNone False speed_fn)) \<lparr>dict = Map.empty\<rparr>
     = Return (VInt 0) \<lparr>dict = Map.empty\<rparr>
   \<and> descr_get (projr (properties_prop meta False VNone False speed_fn))
       \<lparr>dict = [''_speed'' \<mapsto> VInt 50]\<rparr>
     = Return (VInt 50) \<lparr>dict = [''_speed'' \<mapsto> VInt 50]\<rparr>"
  using getter_reads_field_or_default [of meta False VNone False speed_fn
      "projr (properties_prop meta False VNone False speed_fn)" "\<lparr>dict = Map.empty\<rparr>" "VInt 0"]
    getter_reads_field_or_default [of meta False VNone False speed_fn
      "projr (properties_prop meta False VNone False speed_fn)"
      "\<lparr>dict = [''_speed'' \<mapsto> VInt 50]\<rparr>" "VInt 0"]
  by (simp add: properties_prop_cases speed_fn_def backing_def)

text \<open>
  Claim C36.  After a write through a property without listener, reading the
  property gives a value equal to the one written, provided the field existed
  or the value written is not \<^verbatim>\<open>None\<close>, the value is not a NaN, and the
  property is not named \<^verbatim>\<open>is_dirty\<close>.
\<close>

theorem write_then_read:
  assumes "properties_prop self False listener ad f = Inr p"
    and "\<not> truthy listener"
    and "fn_name f \<noteq> ''is_dirty''"
    and pure: "\<And>s. fn_body f s = Return (g s) s"
    and "dict inst (backing (fn_name f)) \<noteq> None \<or> new \<noteq> VNone"
    and "\<not> is_nan new"
  shows "\<exists>v s. and_then (descr_set attr p mt inst new) (\<lambda>r. descr_get p) = Return v s \<and> py_eq v new"
proof (cases "py_ne (getattr_default inst (backing (fn_name f)) VNone) new")
  case True
  with assms(1,2,3,6) show ?thesis
    by (simp add: descr_set_prop descr_get_prop setter_plain_changed getter_Return [OF pure])
next
  case False
  then have eq: "py_eq (getattr_default inst (backing (fn_name f)) VNone) new"
    by (simp add: py_ne_def)
  with assms(5) obtain v where v: "dict inst (backing (fn_name f)) = Some v"
    by (cases "dict inst (backing (fn_name f))") auto
  with eq assms(1,2) show ?thesis
    by (simp add: descr_set_prop descr_get_prop setter_plain_equal getter_Return [OF pure])
qed

theorem write_then_read_witness:
  "\<exists>v s. and_then
       (descr_set ''speed'' (projr (properties_prop meta False VNone False speed_fn)) Map.empty
          \<lparr>dict = Map.empty\<rparr> (VInt 50))
       (\<lambda>r. descr_get (projr (properties_prop meta False VNone False speed_fn)))
     = Return v s \<and> py_eq v (VInt 50)"
  using write_then_read [of meta VNone False speed_fn
      "projr (properties_prop meta False VNone False speed_fn)" "\<lambda>s. VInt 0"
      "\<lparr>dict = Map.empty\<rparr>" "VInt 50" "''speed''" Map.empty]
  by (simp add: properties_prop_cases speed_fn_def)

text \<open>
  Assigning \<^verbatim>\<open>None\<close> to a property whose field was never written is
  dropped: the instance is unchanged, no listener is called, and the next read
  still gives the default of the decorated function.
\<close>

lemma write_None_to_unset_is_dropped:
  assumes "properties_prop self False listener ad f = Inr p"
    and "dict inst (backing (fn_name f)) = None"
    and "fn_body f inst = Return d inst"
  shows "and_then (descr_set attr p mt inst VNone) (\<lambda>r. descr_get p) = Return d inst"
  using assms by (simp add: descr_set_prop descr_get_prop setter_cases getter_Return)

lemma write_None_to_unset_is_dropped_witness:
  "and_then
     (descr_set ''speed'' (projr (properties_prop meta False VNone False speed_fn)) Map.empty
        \<lparr>dict = Map.empty\<rparr> VNone)
     (\<lambda>r. descr_get (projr (properties_prop meta False VNone False speed_fn)))
   = Return (VInt 0) \<lparr>dict = Map.empty\<rparr>"
  using write_None_to_unset_is_dropped [of meta VNone False speed_fn
      "projr (properties_prop meta False VNone False speed_fn)" "\<lparr>dict = Map.empty\<rparr>" "VInt 0"
      "''speed''" Map.empty]
  by (simp add: properties_prop_cases speed_fn_def)

text \<open>
  Assigning the integer 0 or 1 to a property that holds the
  corresponding boolean is dropped: the comparison of the host language makes
  them equal, so the field keeps the boolean.
\<close>

lemma write_int_over_bool_is_dropped:
  assumes "properties_prop self False listener ad f = Inr p"
    and "dict inst (backing (fn_name f)) = Some (VBool b)"
  shows "descr_set attr p mt inst (VInt (of_bool b)) = Return VNone inst"
  using assms by (simp add: descr_set_prop setter_cases)

lemma write_int_over_bool_is_dropped_witness:
  "descr_set ''on'' (projr (properties_prop meta False VNone False on_fn)) Map.empty
     \<lparr>dict = [''_on'' \<mapsto> VBool True]\<rparr> (VInt 1)
   = Return VNone \<lparr>dict = [''_on'' \<mapsto> VBool True]\<rparr>"
  using write_int_over_bool_is_dropped [of meta VNone False on_fn
      "projr (properties_prop meta False VNone False on_fn)"
      "\<lparr>dict = [''_on'' \<mapsto> VBool True]\<rparr>" True "''on''" Map.empty]
  by (simp add: properties_prop_cases on_fn_def backing_def)

text \<open>
  A listener argument that the host language takes for false (the
  empty string, \<^verbatim>\<open>False\<close>, 0, the empty tuple) is no listener at all: the
  declaration is the one made with \<^verbatim>\<open>None\<close>, and it may be read only.
\<close>

lemma falsy_listener_is_absent:
  assumes "\<not> truthy listener"
  shows "properties_prop self read_only listener ad f = properties_prop self read_only VNone ad f"
  using assms by (cases read_only) (simp_all add: properties_prop_cases)

lemma falsy_listener_is_absent_witness:
  "properties_prop meta True (VStr []) False brand_fn = properties_prop meta True VNone False brand_fn"
  using falsy_listener_is_absent [of "VStr []" meta True False brand_fn]
  by simp

text \<open>
  Claim C40.  Leaving the \<^verbatim>\<open>with\<close> block does not disable the builder: \<^verbatim>\<open>prop\<close>
  behaves after \<^verbatim>\<open>__exit__\<close> as before, for every declaration, the failing
  ones included, since it reads only the auto-dirty default, which the exit
  keeps.
\<close>

theorem prop_usable_after_exit:
  "properties_prop (properties_exit self) read_only listener ad f =
   properties_prop self read_only listener ad f"
  by (simp add: properties_prop_def properties_exit_def)

text \<open>
  A setter with a listener that does nothing behaves as the setter
  without listener.
\<close>

lemma silent_listener_eq_plain:
  assumes "mt lname = Some (\<lambda>fld old v. Return VNone)"
    and "dict inst lname = None" and "lname \<noteq> field" and "lname \<noteq> ''_is_dirty''"
  shows "setter_listener field lname ad mt inst new = setter_plain field ad inst new"
  using assms
  by (cases "py_ne (getattr_default inst field VNone) new")
     (simp_all add: setter_cases call_method_written py_ne_def)

lemma silent_listener_eq_plain_witness:
  "setter_listener ''_speed'' ''_changed'' True [''_changed'' \<mapsto> (\<lambda>fld old v. Return VNone)]
     \<lparr>dict = Map.empty\<rparr> (VInt 50)
   = setter_plain ''_speed'' True \<lparr>dict = Map.empty\<rparr> (VInt 50)"
  using silent_listener_eq_plain [of "[''_changed'' \<mapsto> (\<lambda>fld old v. Return VNone)]"
      "''_changed''" "\<lparr>dict = Map.empty\<rparr>" "''_speed''" True "VInt 50"]
  by simp

text \<open>
  A write through a property without listener touches nothing but
  the backing field and the dirty flag.
\<close>

lemma plain_write_frame:
  assumes "n \<noteq> field" and "n \<noteq> ''_is_dirty''"
  shows "dict (state_of (setter_plain field ad inst new)) n = dict inst n
       \<and> inst.more (state_of (setter_plain field ad inst new)) = inst.more inst"
  using assms by (simp add: state_of_setter_plain)

lemma plain_write_frame_witness:
  "dict (state_of (setter_plain ''_speed'' True \<lparr>dict = [''_brand'' \<mapsto> VStr ''Ford'']\<rparr> (VInt 50)))
     ''_brand'' = Some (VStr ''Ford'')"
  using plain_write_frame [of "''_brand''" "''_speed''" True
      "\<lparr>dict = [''_brand'' \<mapsto> VStr ''Ford'']\<rparr>" "VInt 50"]
  by simp

end
