(* ===== verification/Class_Body.thy ===== *)
theory Class_Body
  imports Properties
begin

text \<open>
  The body of a class that declares its properties in a \<^verbatim>\<open>with\<close> block, as the
  usage example does.  A class body is a list of statements: opening the block
  creates the builder and enters it, a decorated function definition asks the
  builder for a descriptor and binds it to the function's name, closing the
  block exits the builder, and a plain function definition binds a method.
  \<open>body_step\<close> executes one statement on the state of the class body (the
  builder bound by the block, if any, and the namespace filled so far);
  \<open>exec_body\<close> executes a list and stops at the first exception, after which
  the block has been exited as the host language guarantees.  \<open>reachable\<close>
  are the states a class body can be in.  \<open>class_getattr\<close>, \<open>class_setattr\<close>
  and \<open>class_delattr\<close> are attribute read, assignment and deletion on an
  instance of the finished class: descriptors of the class come first, then
  the instance dictionary.  \<open>derived\<close> is the namespace that instances of an
  extending class are looked up in: the names the extension defines, and the
  names of the extended class otherwise.
\<close>

section \<open>Class members and statements\<close>

datatype 'a member = Descriptor "'a property" | Function "'a pymethod"

type_synonym 'a namespace = "name \<rightharpoonup> 'a member"

datatype 'a stmt =
    Open name bool
  | Declare bool val bool "'a pyfun"
  | Close
  | Def name "'a pymethod"

record 'a body =
  builder :: "unit properties option"
  namespace :: "'a namespace"

definition empty_body :: "'a body" where
  "empty_body = \<lparr>builder = None, namespace = Map.empty\<rparr>"

section \<open>Executing a class body\<close>

fun body_step :: "'a body \<Rightarrow> 'a stmt \<Rightarrow> (unit, 'a body) outcome" where
  "body_step s (Open var auto_dirty) =
     Return () (s\<lparr>builder := Some (properties_enter (properties_init () var auto_dirty))\<rparr>)"
| "body_step s (Declare read_only listener auto_dirty f) =
     (case builder s of
        None \<Rightarrow> Raise (NameError ''meta'') s
      | Some b \<Rightarrow>
          (case properties_prop b read_only listener auto_dirty f of
             Inl e \<Rightarrow> Raise e (s\<lparr>builder := Some (properties_exit b)\<rparr>)
           | Inr p \<Rightarrow> Return () (s\<lparr>namespace := (namespace s)(fn_name f \<mapsto> Descriptor p)\<rparr>)))"
| "body_step s Close =
     (case builder s of
        None \<Rightarrow> Raise (NameError ''meta'') s
      | Some b \<Rightarrow> Return () (s\<lparr>builder := Some (properties_exit b)\<rparr>))"
| "body_step s (Def n m) = Return () (s\<lparr>namespace := (namespace s)(n \<mapsto> Function m)\<rparr>)"

fun exec_body :: "'a body \<Rightarrow> 'a stmt list \<Rightarrow> (unit, 'a body) outcome" where
  "exec_body s [] = Return () s"
| "exec_body s (st # sts) = and_then (body_step s st) (\<lambda>u s'. exec_body s' sts)"

inductive reachable :: "'a body \<Rightarrow> bool" where
  start: "reachable empty_body"
| step: "reachable s \<Longrightarrow> body_step s st = Return () s' \<Longrightarrow> reachable s'"

section \<open>Phases of the builder\<close>

datatype phase = Fresh | Opened | Released

definition phase_of :: "'a body \<Rightarrow> phase" where
  "phase_of s =
     (case builder s of
        None \<Rightarrow> Fresh
      | Some b \<Rightarrow> (if p_scope b = None \<and> p_var b = None then Released else Opened))"

section \<open>Well-formed namespaces\<close>

text \<open>
  A statement is in conflict when it asks for a read-only property with a
  listener.  A descriptor fits a name when its accessors work on the backing
  field of that name and it has no deleter.
\<close>

fun conflicting :: "'a stmt \<Rightarrow> bool" where
  "conflicting (Declare read_only listener auto_dirty f) = (read_only \<and> truthy listener)"
| "conflicting st = False"

definition fits :: "name \<Rightarrow> 'a property \<Rightarrow> bool" where
  "fits n p \<longleftrightarrow>
     fdel p = None \<and>
     (\<exists>g. fget p = getter (backing n) g) \<and>
     (case fset p of
        None \<Rightarrow> True
      | Some st \<Rightarrow>
          (\<exists>ad. st = (\<lambda>mt. setter_plain (backing n) ad)) \<or>
          (\<exists>lname ad. st = setter_listener (backing n) lname ad))"

definition wf_namespace :: "'a namespace \<Rightarrow> bool" where
  "wf_namespace ns \<longleftrightarrow> (\<forall>n p. ns n = Some (Descriptor p) \<longrightarrow> fits n p)"

text \<open>
  The accessors reach the backing field with \<^verbatim>\<open>getattr\<close> and \<^verbatim>\<open>setattr\<close>, which the
  host resolves through the class.  A namespace is unshadowed when it binds
  nothing to the backing field name of a property it declares; the accessors
  then reach the instance dictionary, as their model does.
\<close>

definition unshadowed :: "'a namespace \<Rightarrow> bool" where
  "unshadowed ns \<longleftrightarrow> (\<forall>n p. ns n = Some (Descriptor p) \<longrightarrow> ns (backing n) = None)"

section \<open>Attribute access on instances of the class\<close>

definition methods_of :: "'a namespace \<Rightarrow> 'a methods" where
  "methods_of ns n = (case ns n of Some (Function m) \<Rightarrow> Some m | _ \<Rightarrow> None)"

definition class_getattr ::
  "'a namespace \<Rightarrow> 'a inst_scheme \<Rightarrow> name \<Rightarrow> (val, 'a inst_scheme) outcome" where
  "class_getattr ns inst n =
     (case ns n of
        Some (Descriptor p) \<Rightarrow> descr_get p inst
      | other \<Rightarrow>
          (case dict inst n of
             Some v \<Rightarrow> Return v inst
           | None \<Rightarrow>
               (case other of
                  Some (Function m) \<Rightarrow> Return (VBound n) inst
                | _ \<Rightarrow> Raise (AttributeError n) inst)))"

text \<open>\<^verbatim>\<open>getattr(inst, n, d)\<close>: an attribute error of the lookup gives the default.\<close>

definition class_getattr_default ::
  "'a namespace \<Rightarrow> 'a inst_scheme \<Rightarrow> name \<Rightarrow> val \<Rightarrow> (val, 'a inst_scheme) outcome" where
  "class_getattr_default ns inst n d =
     (case class_getattr ns inst n of
        Raise (AttributeError a) s \<Rightarrow> Return d s
      | r \<Rightarrow> r)"

definition class_setattr ::
  "'a namespace \<Rightarrow> 'a inst_scheme \<Rightarrow> name \<Rightarrow> val \<Rightarrow> (val, 'a inst_scheme) outcome" where
  "class_setattr ns inst n v =
     (case ns n of
        Some (Descriptor p) \<Rightarrow> descr_set n p (methods_of ns) inst v
      | _ \<Rightarrow> Return VNone (setattr inst n v))"

text \<open>
  \<^verbatim>\<open>del inst.n\<close>: a descriptor of the class decides; otherwise the attribute is
  removed from the instance, which must hold it.
\<close>

definition class_delattr ::
  "'a namespace \<Rightarrow> 'a inst_scheme \<Rightarrow> name \<Rightarrow> (val, 'a inst_scheme) outcome" where
  "class_delattr ns inst n =
     (case ns n of
        Some (Descriptor p) \<Rightarrow> descr_del n p inst
      | _ \<Rightarrow>
          (case dict inst n of
             None \<Rightarrow> Raise (AttributeError n) inst
           | Some v \<Rightarrow> Return VNone (delattr inst n)))"

text \<open>
  A class that extends another: attribute lookup finds what the class binds
  itself before what it inherits.
\<close>

definition derived :: "(name \<rightharpoonup> 'm) \<Rightarrow> (name \<rightharpoonup> 'm) \<Rightarrow> (name \<rightharpoonup> 'm)" where
  "derived base own = base ++ own"

definition class_call ::
  "'a namespace \<Rightarrow> 'a inst_scheme \<Rightarrow> name \<Rightarrow> name \<Rightarrow> val \<Rightarrow> val
     \<Rightarrow> (val, 'a inst_scheme) outcome" where
  "class_call ns inst n field old new =
     and_then (class_getattr ns inst n)
       (\<lambda>v s. case v of
                 VBound m \<Rightarrow>
                   (case methods_of ns m of
                      None \<Rightarrow> Raise (AttributeError m) s
                    | Some f \<Rightarrow> f field old new s)
               | _ \<Rightarrow> Raise (TypeError n) s)"

section \<open>Laws of the steps\<close>

lemma body_step_Declare [simp]:
  "builder s = Some b \<Longrightarrow>
   body_step s (Declare read_only listener ad f) =
     (if read_only \<and> truthy listener
      then Raise (config_error (backing (fn_name f))) (s\<lparr>builder := Some (properties_exit b)\<rparr>)
      else Return ()
        (s\<lparr>namespace := (namespace s)(fn_name f \<mapsto>
              Descriptor (projr (properties_prop b read_only listener ad f)))\<rparr>))"
  by (cases read_only; cases "truthy listener") (simp_all add: properties_prop_cases)

lemma body_step_Close [simp]:
  "builder s = Some b \<Longrightarrow>
   body_step s Close = Return () (s\<lparr>builder := Some (properties_exit b)\<rparr>)"
  by simp

lemma body_step_unbound [simp]:
  "builder s = None \<Longrightarrow>
   body_step s (Declare read_only listener ad f) = Raise (NameError ''meta'') s"
  "builder s = None \<Longrightarrow> body_step s Close = Raise (NameError ''meta'') s"
  by simp_all

declare body_step.simps(2,3) [simp del]

lemma builder_body_step:
  "builder s \<noteq> None \<Longrightarrow> builder (state_of (body_step s st)) \<noteq> None"
  by (cases st) auto

lemma raised_body_step:
  "builder s \<noteq> None \<Longrightarrow> raised (body_step s st) = None \<longleftrightarrow> \<not> conflicting st"
  by (cases st) auto

lemma exec_body_append:
  "exec_body s (xs @ ys) = and_then (exec_body s xs) (\<lambda>u s'. exec_body s' ys)"
proof (induction xs arbitrary: s)
  case Nil
  show ?case by simp
next
  case (Cons x xs)
  then show ?case by (cases "body_step s x") simp_all
qed

lemma fits_prop:
  "properties_prop b read_only listener ad f = Inr p \<Longrightarrow> fits (fn_name f) p"
  by (auto simp: properties_prop_Inr_iff fits_def)

lemma fits_projr:
  "\<not> (read_only \<and> truthy listener) \<Longrightarrow>
   fits (fn_name f) (projr (properties_prop b read_only listener ad f))"
  by (cases read_only; cases "truthy listener") (auto simp: properties_prop_cases fits_def)

lemma wf_namespace_empty [simp]: "wf_namespace Map.empty"
  by (simp add: wf_namespace_def)

lemma wf_namespace_Function:
  "wf_namespace ns \<Longrightarrow> wf_namespace (ns(n \<mapsto> Function m))"
  by (simp add: wf_namespace_def)

lemma wf_namespace_Descriptor:
  "wf_namespace ns \<Longrightarrow> fits n p \<Longrightarrow> wf_namespace (ns(n \<mapsto> Descriptor p))"
  by (simp add: wf_namespace_def)

lemma wf_body_step:
  assumes "wf_namespace (namespace s)" and "body_step s st = Return () s'"
  shows "wf_namespace (namespace s')"
proof (cases "builder s")
  case None
  with assms show ?thesis
    by (cases st) (auto simp: wf_namespace_Function)
next
  case (Some b)
  with assms show ?thesis
    by (cases st) (auto simp: wf_namespace_Function wf_namespace_Descriptor fits_projr split: if_splits)
qed

lemma phase_of_step:
  assumes "body_step s st = Return () s'"
  shows "phase_of s' =
     (case st of Open v ad \<Rightarrow> Opened | Close \<Rightarrow> Released | _ \<Rightarrow> phase_of s)"
proof (cases "builder s")
  case None
  with assms show ?thesis
    by (cases st)
       (auto simp: phase_of_def properties_init_def properties_enter_def properties_exit_def)
next
  case (Some b)
  with assms show ?thesis
    by (cases st)
       (auto simp: phase_of_def properties_init_def properties_enter_def properties_exit_def
          split: if_splits)
qed

lemma reachable_exec_body:
  "reachable s \<Longrightarrow> exec_body s sts = Return () s' \<Longrightarrow> reachable s'"
proof (induction sts arbitrary: s)
  case Nil
  then show ?case by simp
next
  case (Cons st sts)
  from Cons.prems(2) obtain s1 where s1: "body_step s st = Return () s1"
    and rest: "exec_body s1 sts = Return () s'"
    by (auto simp: and_then_eq_Return_iff)
  from Cons.prems(1) s1 have "reachable s1" by (rule reachable.step)
  then show ?case using rest by (rule Cons.IH)
qed

section \<open>Laws of attribute access\<close>

lemma derived_simps [simp]:
  "own n = None \<Longrightarrow> derived base own n = base n"
  "own n = Some x \<Longrightarrow> derived base own n = Some x"
  by (simp_all add: derived_def map_add_def)

lemma methods_of_derived:
  "methods_of (derived base own) n =
     (case own n of None \<Rightarrow> methods_of base n | Some (Function m) \<Rightarrow> Some m | _ \<Rightarrow> None)"
  by (simp add: methods_of_def derived_def map_add_def split: option.splits member.splits)

lemma class_setattr_Descriptor:
  "ns n = Some (Descriptor p) \<Longrightarrow> class_setattr ns inst n v = descr_set n p (methods_of ns) inst v"
  by (simp add: class_setattr_def)

text \<open>A declared property cannot be deleted, and the attempt changes nothing.\<close>

lemma class_delattr_prop:
  assumes "ns n = Some (Descriptor p)"
    and "properties_prop self read_only listener ad f = Inr p"
  shows "class_delattr ns inst n = Raise (AttributeError n) inst"
  using assms by (simp add: class_delattr_def descr_del_prop)

text \<open>
  Deleting the backing field is possible, and the property then reads its
  default again.
\<close>

lemma class_delattr_backing:
  assumes "ns (backing n) = None" and "dict inst (backing n) = Some v"
  shows "class_delattr ns inst (backing n) = Return VNone (delattr inst (backing n))"
  using assms by (simp add: class_delattr_def)

lemma read_after_delete_backing:
  assumes "properties_prop self read_only listener ad f = Inr p"
    and "fn_body f (delattr inst (backing (fn_name f))) = Return d (delattr inst (backing (fn_name f)))"
  shows "descr_get p (delattr inst (backing (fn_name f))) =
           Return d (delattr inst (backing (fn_name f)))"
  using assms by (simp add: descr_get_prop getter_def)

section \<open>Properties of class bodies\<close>

text \<open>
  Claim C15.  In every state that a class body can reach, each descriptor in
  the namespace fits the name it is bound to: its getter and its setter work
  on the backing field of that name, and it has no deleter.
\<close>

theorem reachable_wf_namespace: "reachable s \<Longrightarrow> wf_namespace (namespace s)"
proof (induction rule: reachable.induct)
  case start
  show ?case by (simp add: empty_body_def)
next
  case (step s st s')
  then show ?case by (blast intro: wf_body_step)
qed

theorem reachable_wf_namespace_witness:
  "wf_namespace (namespace (state_of
     (exec_body empty_body [Open ''meta'' False, Declare True VNone False brand_fn, Close])))"
proof -
  have "exec_body (empty_body :: 'a body) [Open ''meta'' False, Declare True VNone False brand_fn, Close]
      = Return () (state_of (exec_body empty_body
          [Open ''meta'' False, Declare True VNone False brand_fn, Close]))"
    by (simp add: empty_body_def)
  with reachable.start have "reachable (state_of (exec_body (empty_body :: 'a body)
      [Open ''meta'' False, Declare True VNone False brand_fn, Close]))"
    by (rule reachable_exec_body)
  then show ?thesis by (rule reachable_wf_namespace)
qed

text \<open>
  Claim C14.  Once the block is open, a class body runs to its end exactly when
  none of its declarations asks for a read-only property with a listener.
\<close>

theorem exec_body_ok_iff:
  assumes "builder s \<noteq> None"
  shows "raised (exec_body s sts) = None \<longleftrightarrow> \<not> list_ex conflicting sts"
  using assms
proof (induction sts arbitrary: s)
  case Nil
  show ?case by simp
next
  case (Cons st sts)
  show ?case
  proof (cases "body_step s st")
    case (Return u s1)
    with Cons.prems have "\<not> conflicting st" and "builder s1 \<noteq> None"
      using raised_body_step [of s st] builder_body_step [of s st] by simp_all
    with Return Cons.IH [of s1] show ?thesis by simp
  next
    case (Raise e s1)
    with Cons.prems have "conflicting st"
      using raised_body_step [of s st] by simp
    with Raise show ?thesis by simp
  qed
qed

theorem exec_body_ok_iff_witness:
  "raised (exec_body \<lparr>builder = Some meta, namespace = Map.empty\<rparr>
     [Declare True VNone False brand_fn, Declare False (VStr ''_on_change'') False speed_fn, Close])
   = None"
  using exec_body_ok_iff [of "\<lparr>builder = Some meta, namespace = Map.empty\<rparr>"
      "[Declare True VNone False brand_fn, Declare False (VStr ''_on_change'') False speed_fn, Close]"]
  by simp

text \<open>
  Claim C16.  When a class body fails inside the open block, the failure is
  the configuration error of one of its read-only declarations with a
  listener, and the builder has been released: the block is exited on the
  error path too.
\<close>

theorem exec_body_error_releases:
  assumes "builder s \<noteq> None" and "exec_body s sts = Raise e s'"
  shows "phase_of s' = Released \<and>
     (\<exists>l ad f. Declare True l ad f \<in> set sts \<and> truthy l \<and> e = config_error (backing (fn_name f)))"
  using assms
proof (induction sts arbitrary: s)
  case Nil
  then show ?case by simp
next
  case (Cons st sts)
  from Cons.prems(1) obtain b where b: "builder s = Some b" by auto
  show ?case
  proof (cases "body_step s st")
    case (Return u s1)
    with Cons.prems have "builder s1 \<noteq> None" and "exec_body s1 sts = Raise e s'"
      using builder_body_step [of s st] by simp_all
    then show ?thesis using Cons.IH [of s1] by auto
  next
    case (Raise e1 s1)
    with Cons.prems(2) have "e1 = e" and "s1 = s'" by simp_all
    with Raise b show ?thesis
      by (cases st) (auto simp: phase_of_def properties_exit_def split: if_splits)
  qed
qed

theorem exec_body_error_releases_witness:
  "phase_of (state_of (exec_body (\<lparr>builder = Some meta, namespace = Map.empty\<rparr> :: unit body)
     [Declare True (VBool True) False brand_fn, Close])) = Released"
  using exec_body_error_releases [of "\<lparr>builder = Some meta, namespace = Map.empty\<rparr> :: unit body"
      "[Declare True (VBool True) False brand_fn, Close]"
      "config_error ''_brand''"
      "\<lparr>builder = Some (properties_exit meta), namespace = Map.empty\<rparr>"]
  by (simp add: brand_fn_def backing_def)

text \<open>
  For a name that the class does not bind to a descriptor, the
  attribute protocol of the class agrees with the plain operations that the
  generated accessors are modelled with: calling the attribute is
  \<open>call_method\<close>, assigning it is \<open>setattr\<close> on the instance dictionary, and, if
  the class does not bind the name at all, reading it with a default is
  \<open>getattr_default\<close>.
\<close>

lemma class_protocol_agrees:
  assumes "\<And>p. ns n \<noteq> Some (Descriptor p)"
  shows "class_call ns inst n field old new = call_method (methods_of ns) inst n field old new
       \<and> class_setattr ns inst n v = Return VNone (setattr inst n v)
       \<and> (ns n = None \<longrightarrow>
            class_getattr_default ns inst n d = Return (getattr_default inst n d) inst)"
  using assms
  by (auto simp: class_call_def class_getattr_def class_getattr_default_def class_setattr_def
      call_method_def methods_of_def getattr_default_def
      split: option.splits member.splits val.splits)

lemma class_protocol_agrees_witness:
  "class_call [''_changed'' \<mapsto> Function log_listener] \<lparr>dict = Map.empty\<rparr> ''_changed''
       ''_speed'' VNone (VInt 50)
     = call_method [''_changed'' \<mapsto> log_listener] \<lparr>dict = Map.empty\<rparr> ''_changed''
         ''_speed'' VNone (VInt 50)
   \<and> class_setattr [''_changed'' \<mapsto> Function log_listener] \<lparr>dict = Map.empty\<rparr> ''_speed''
       (VInt 50)
     = Return VNone \<lparr>dict = [''_speed'' \<mapsto> VInt 50]\<rparr>"
  using class_protocol_agrees [of "[''_changed'' \<mapsto> Function log_listener]" "''_changed''"
      "\<lparr>dict = Map.empty\<rparr>" "''_speed''" VNone "VInt 50" VNone VNone]
    class_protocol_agrees [of "[''_changed'' \<mapsto> Function log_listener]" "''_speed''"
      "\<lparr>dict = Map.empty\<rparr>" "''_speed''" VNone "VInt 50" "VInt 50" VNone]
  by (simp add: methods_of_def call_method_def setattr_def fun_eq_iff)


text \<open>
  In an unshadowed class the host's access to the backing field of a property
  is the access to the instance dictionary that the accessors are modelled
  with.
\<close>

lemma backing_access:
  assumes "unshadowed ns" and "ns n = Some (Descriptor p)"
  shows "class_getattr_default ns inst (backing n) d =
           Return (getattr_default inst (backing n) d) inst"
    and "class_setattr ns inst (backing n) v = Return VNone (setattr inst (backing n) v)"
proof -
  from assms have "ns (backing n) = None" by (simp add: unshadowed_def)
  then show "class_getattr_default ns inst (backing n) d =
           Return (getattr_default inst (backing n) d) inst"
    and "class_setattr ns inst (backing n) v = Return VNone (setattr inst (backing n) v)"
    using class_protocol_agrees [of ns "backing n" inst n VNone VNone v d] by simp_all
qed

lemma unshadowed_empty [simp]: "unshadowed Map.empty"
  by (simp add: unshadowed_def)

lemma unshadowed_Function:
  assumes "unshadowed ns" and "\<And>k p. ns k = Some (Descriptor p) \<Longrightarrow> n \<noteq> backing k"
  shows "unshadowed (ns(n \<mapsto> Function m))"
  using assms by (auto simp: unshadowed_def)

text \<open>
  Claim C17.  The listener is bound when the write happens, not when the
  property is declared: on an instance of a class that extends the declaring
  class and defines the listener anew, a changing write through the inherited
  property calls the method of the extending class, after the write and the
  dirty flag, whatever the declaring class binds to the name.
\<close>

theorem listener_is_late_bound:
  assumes "base n = Some (Descriptor p)" and "own n = None"
    and "properties_prop self False (VStr lname) ad f = Inr p" and "lname \<noteq> []"
    and "own lname = Some (Function m)"
    and "dict inst lname = None" and "lname \<noteq> backing (fn_name f)" and "lname \<noteq> ''_is_dirty''"
    and "py_ne (getattr_default inst (backing (fn_name f)) VNone) new"
  shows "class_setattr (derived base own) inst n new =
     and_then
       (m (backing (fn_name f)) (getattr_default inst (backing (fn_name f)) VNone) new
          (mark_dirty (p_auto_dirty self \<or> ad) (setattr inst (backing (fn_name f)) new)))
       (\<lambda>r. Return VNone)"
  using assms
  by (simp add: class_setattr_def descr_set_prop setter_listener_def call_method_def
      methods_of_derived)

theorem listener_is_late_bound_witness:
  "class_setattr
     (derived
        [''speed'' \<mapsto> Descriptor (projr (properties_prop meta False (VStr ''_on_change'') False speed_fn)),
         ''_on_change'' \<mapsto> Function (\<lambda>fld old new. Return VNone)]
        [''_on_change'' \<mapsto> Function log_listener])
     \<lparr>dict = Map.empty\<rparr> ''speed'' (VInt 50) =
   Return VNone
     \<lparr>dict = [''_speed'' \<mapsto> VInt 50,
              ''_log'' \<mapsto> VTuple [VTuple [VStr ''_speed'', VNone, VInt 50]]]\<rparr>"
  using listener_is_late_bound
      [of "[''speed'' \<mapsto> Descriptor (projr (properties_prop meta False (VStr ''_on_change'') False speed_fn)),
            ''_on_change'' \<mapsto> Function (\<lambda>fld old new. Return VNone)]"
          "''speed''" "projr (properties_prop meta False (VStr ''_on_change'') False speed_fn)"
          "[''_on_change'' \<mapsto> Function log_listener]" meta "''_on_change''" False speed_fn
          log_listener "\<lparr>dict = Map.empty\<rparr>" "VInt 50"]
  by (simp add: properties_prop_cases example_defs backing_def log_listener_def setattr_def)

end
