(* ===== verification/Open_Class.thy ===== *)
theory Open_Class
  imports Class_Body
begin

text \<open>
  Methods that use the instance they are called on.  A listener of the usage
  example reads and assigns attributes of \<^verbatim>\<open>self\<close>; what these do is decided by
  the class of the instance at the time of the call, the listener included.
  An open class binds each method name to a function of the class it will be
  looked up in; \<open>unroll k\<close> closes an open class for calls of listeners nested
  at most \<open>k\<close> deep, and a call nested deeper raises the host's
  \<^verbatim>\<open>RecursionError\<close> without changing the instance.  The lemmas give the
  members of the closed class, show that reading and deleting attributes do
  not depend on the depth, what a write does when the depth is used up, that
  a larger depth keeps the results of a smaller one, that a listener which
  normalises the value it observes settles, and that one which assigns a new
  value every time uses up every depth.
\<close>

section \<open>Open classes and their closure\<close>

datatype 'a omember = ODescriptor "'a property" | OFunction "'a namespace \<Rightarrow> 'a pymethod"

type_synonym 'a oclass = "name \<rightharpoonup> 'a omember"

definition too_deep :: "'a pymethod" where
  "too_deep field old new s = Raise RecursionError s"

fun bind_member :: "'a namespace \<Rightarrow> 'a omember \<Rightarrow> 'a member" where
  "bind_member cls (ODescriptor p) = Descriptor p"
| "bind_member cls (OFunction m) = Function (m cls)"

fun exhausted :: "'a omember \<Rightarrow> 'a member" where
  "exhausted (ODescriptor p) = Descriptor p"
| "exhausted (OFunction m) = Function too_deep"

fun unroll :: "nat \<Rightarrow> 'a oclass \<Rightarrow> 'a namespace" where
  "unroll 0 oc = (\<lambda>n. map_option exhausted (oc n))"
| "unroll (Suc k) oc = (\<lambda>n. map_option (bind_member (unroll k oc)) (oc n))"

text \<open>A finished class as an open one: its methods do not use the class.\<close>

fun open_member :: "'a member \<Rightarrow> 'a omember" where
  "open_member (Descriptor p) = ODescriptor p"
| "open_member (Function m) = OFunction (\<lambda>cls. m)"

definition opened :: "'a namespace \<Rightarrow> 'a oclass" where
  "opened ns = (\<lambda>n. map_option open_member (ns n))"

section \<open>Members of the closed class\<close>

lemma unroll_None [simp]: "oc n = None \<Longrightarrow> unroll k oc n = None"
  by (cases k) simp_all

lemma unroll_Descriptor [simp]:
  "oc n = Some (ODescriptor p) \<Longrightarrow> unroll k oc n = Some (Descriptor p)"
  by (cases k) simp_all

lemma unroll_Function [simp]:
  "oc n = Some (OFunction m) \<Longrightarrow> unroll 0 oc n = Some (Function too_deep)"
  "oc n = Some (OFunction m) \<Longrightarrow> unroll (Suc k) oc n = Some (Function (m (unroll k oc)))"
  by simp_all

lemma dom_unroll [simp]: "dom (unroll k oc) = dom oc"
  by (cases k) (auto simp: dom_def)

lemma unroll_eq_Descriptor_iff [simp]:
  "unroll k oc n = Some (Descriptor p) \<longleftrightarrow> oc n = Some (ODescriptor p)"
proof (cases "oc n")
  case None
  then show ?thesis by simp
next
  case (Some om)
  then show ?thesis by (cases om; cases k) simp_all
qed

lemma methods_of_unroll:
  "methods_of (unroll 0 oc) n =
     (case oc n of Some (OFunction m) \<Rightarrow> Some too_deep | _ \<Rightarrow> None)"
  "methods_of (unroll (Suc k) oc) n =
     (case oc n of Some (OFunction m) \<Rightarrow> Some (m (unroll k oc)) | _ \<Rightarrow> None)"
  by (simp_all add: methods_of_def split: option.splits omember.splits)

lemma unroll_opened [simp]: "unroll (Suc k) (opened ns) = ns"
proof (rule ext)
  fix n
  show "unroll (Suc k) (opened ns) n = ns n"
  proof (cases "ns n")
    case None
    then show ?thesis by (simp add: opened_def)
  next
    case (Some mem)
    then show ?thesis by (cases mem) (simp_all add: opened_def)
  qed
qed

lemma opened_eq_ODescriptor_iff [simp]:
  "opened ns n = Some (ODescriptor p) \<longleftrightarrow> ns n = Some (Descriptor p)"
proof (cases "ns n")
  case None
  then show ?thesis by (simp add: opened_def)
next
  case (Some mem)
  then show ?thesis by (cases mem) (simp_all add: opened_def)
qed

declare unroll.simps [simp del]

lemma wf_namespace_unroll:
  "wf_namespace (unroll k oc) \<longleftrightarrow> (\<forall>n p. oc n = Some (ODescriptor p) \<longrightarrow> fits n p)"
  by (simp add: wf_namespace_def)

section \<open>What does not depend on the depth\<close>

lemma class_getattr_unroll:
  "class_getattr (unroll k oc) s n = class_getattr (unroll j oc) s n"
proof (cases "oc n")
  case None
  then show ?thesis by (simp add: class_getattr_def)
next
  case (Some om)
  then show ?thesis
    by (cases om; cases k; cases j) (simp_all add: class_getattr_def split: option.splits)
qed

lemma class_delattr_unroll:
  "class_delattr (unroll k oc) s n = class_delattr (unroll j oc) s n"
proof (cases "oc n")
  case None
  then show ?thesis by (simp add: class_delattr_def)
next
  case (Some om)
  then show ?thesis by (cases om; cases k; cases j) (simp_all add: class_delattr_def)
qed

text \<open>A write that is no change, or to a name without listener, needs no depth.\<close>

lemma class_setattr_unroll_plain:
  assumes "\<forall>p. oc n \<noteq> Some (ODescriptor p)"
  shows "class_setattr (unroll k oc) s n v = Return VNone (setattr s n v)"
proof (cases "oc n")
  case None
  then show ?thesis by (simp add: class_setattr_def)
next
  case (Some om)
  with assms show ?thesis by (cases om; cases k) (simp_all add: class_setattr_def)
qed

section \<open>When the depth is used up\<close>

text \<open>
  With no depth left, a changing write through a property with a listener
  that the class defines has stored the value and set the flag when the call
  of the listener fails.
\<close>

lemma class_setattr_unroll_0:
  assumes "oc n = Some (ODescriptor p)"
    and "properties_prop self False (VStr lname) ad f = Inr p" and "lname \<noteq> []"
    and "oc lname = Some (OFunction m)" and "dict s lname = None"
    and "lname \<noteq> backing (fn_name f)" and "lname \<noteq> ''_is_dirty''"
    and "py_ne (getattr_default s (backing (fn_name f)) VNone) v"
  shows "class_setattr (unroll 0 oc) s n v =
     Raise RecursionError
       (mark_dirty (p_auto_dirty self \<or> ad) (setattr s (backing (fn_name f)) v))"
  using assms
  by (simp add: class_setattr_def descr_set_prop setter_listener_def call_method_def
      methods_of_unroll too_deep_def mark_dirty_def)

text \<open>With depth left, the listener runs in the class closed one level below.\<close>

lemma class_setattr_unroll_Suc:
  assumes "oc n = Some (ODescriptor p)"
    and "properties_prop self False (VStr lname) ad f = Inr p" and "lname \<noteq> []"
    and "oc lname = Some (OFunction m)" and "dict s lname = None"
    and "lname \<noteq> backing (fn_name f)" and "lname \<noteq> ''_is_dirty''"
    and "py_ne (getattr_default s (backing (fn_name f)) VNone) v"
  shows "class_setattr (unroll (Suc k) oc) s n v =
     and_then
       (m (unroll k oc) (backing (fn_name f)) (getattr_default s (backing (fn_name f)) VNone) v
          (mark_dirty (p_auto_dirty self \<or> ad) (setattr s (backing (fn_name f)) v)))
       (\<lambda>r. Return VNone)"
  using assms
  by (simp add: class_setattr_def descr_set_prop setter_listener_def call_method_def
      methods_of_unroll mark_dirty_def)

section \<open>A larger depth keeps every result\<close>

text \<open>
  Outcomes are ordered by how far a call got: an outcome is below another
  when it is the same or has run out of depth.  The relation is reflexive and
  transitive, and methods, being functions to outcomes, are compared
  pointwise.  A class is below another when both bind the same names, to the
  same descriptors and to methods that are below the other's.  A method of an
  open class is steady when it does not notice where a call it makes runs
  out of depth: on a class below another its outcomes are below those it has
  on the other.  The methods of the usage example are steady; a method that
  caught the recursion error would not be.
\<close>

definition below :: "('v, 's) outcome \<Rightarrow> ('v, 's) outcome \<Rightarrow> bool" where
  "below r r' \<longleftrightarrow> r = r' \<or> raised r = Some RecursionError"

definition method_below :: "'a pymethod \<Rightarrow> 'a pymethod \<Rightarrow> bool" where
  "method_below m m' \<longleftrightarrow> (\<forall>field old new s. below (m field old new s) (m' field old new s))"

fun member_below :: "'a member \<Rightarrow> 'a member \<Rightarrow> bool" where
  "member_below (Descriptor p) (Descriptor p') = (p = p')"
| "member_below (Function m) (Function m') = method_below m m'"
| "member_below (Descriptor p) (Function m') = False"
| "member_below (Function m) (Descriptor p') = False"

definition class_below :: "'a namespace \<Rightarrow> 'a namespace \<Rightarrow> bool" where
  "class_below cls cls' \<longleftrightarrow> (\<forall>n. rel_option member_below (cls n) (cls' n))"

definition steady :: "('a namespace \<Rightarrow> 'a pymethod) \<Rightarrow> bool" where
  "steady m \<longleftrightarrow>
     (\<forall>cls cls'. wf_namespace cls \<longrightarrow> class_below cls cls' \<longrightarrow>
        member_below (Function (m cls)) (Function (m cls')))"

definition steady_class :: "'a oclass \<Rightarrow> bool" where
  "steady_class oc \<longleftrightarrow>
     (\<forall>n p. oc n = Some (ODescriptor p) \<longrightarrow> fits n p) \<and>
     (\<forall>n m. oc n = Some (OFunction m) \<longrightarrow> steady m)"

lemma below_refl [simp, intro]: "below r r"
  by (simp add: below_def)

lemma below_too_deep [simp, intro]: "below (Raise RecursionError s) r"
  by (simp add: below_def)

lemma below_trans [trans]: "below r r' \<Longrightarrow> below r' r'' \<Longrightarrow> below r r''"
  by (auto simp: below_def)

lemma method_below_refl [simp]: "method_below m m"
  by (simp add: method_below_def)

lemma below_and_then:
  assumes "below r r'" and "\<And>a s. below (k a s) (k' a s)"
  shows "below (and_then r k) (and_then r' k')"
proof (cases "r = r'")
  case True
  with assms(2) show ?thesis by (cases r') simp_all
next
  case False
  with assms(1) have "raised r = Some RecursionError" by (simp add: below_def)
  then show ?thesis by (cases r) simp_all
qed

lemma below_eq: "below r r' \<Longrightarrow> raised r \<noteq> Some RecursionError \<Longrightarrow> r' = r"
  by (auto simp: below_def)

lemma member_below_refl [simp]: "member_below mem mem"
  by (cases mem) simp_all

lemma class_below_refl [simp]: "class_below cls cls"
  by (simp add: class_below_def option.rel_refl)

lemma class_below_Descriptor:
  assumes "class_below cls cls'"
  shows "cls n = Some (Descriptor p) \<longleftrightarrow> cls' n = Some (Descriptor p)"
proof -
  from assms have "rel_option member_below (cls n) (cls' n)" by (simp add: class_below_def)
  then show ?thesis
  proof cases
    case None
    then show ?thesis by simp
  next
    case (Some mem mem')
    then show ?thesis by (cases mem; cases mem') auto
  qed
qed

lemma class_below_methods:
  assumes "class_below cls cls'"
  shows "rel_option method_below (methods_of cls n) (methods_of cls' n)"
proof -
  from assms have "rel_option member_below (cls n) (cls' n)" by (simp add: class_below_def)
  then show ?thesis
  proof cases
    case None
    then show ?thesis by (simp add: methods_of_def)
  next
    case (Some mem mem')
    then show ?thesis by (cases mem; cases mem') (simp_all add: methods_of_def)
  qed
qed

lemma below_call_method:
  assumes "class_below cls cls'"
  shows "below (call_method (methods_of cls) s n field old new)
               (call_method (methods_of cls') s n field old new)"
proof -
  have "below (case methods_of cls a of None \<Rightarrow> Raise (AttributeError a) s
                 | Some m \<Rightarrow> m field old new s)
              (case methods_of cls' a of None \<Rightarrow> Raise (AttributeError a) s
                 | Some m \<Rightarrow> m field old new s)" for a
    using class_below_methods [OF assms, of a] by cases (simp_all add: method_below_def)
  then show ?thesis
    by (simp add: call_method_def split: option.splits val.splits)
qed

lemma below_descr_set:
  assumes "class_below cls cls'" and "fits n p"
  shows "below (descr_set n p (methods_of cls) s v) (descr_set n p (methods_of cls') s v)"
proof (cases "fset p")
  case None
  then show ?thesis by (simp add: descr_set_def)
next
  case (Some st)
  with assms(2) consider ad where "st = (\<lambda>mt. setter_plain (backing n) ad)"
    | lname ad where "st = setter_listener (backing n) lname ad"
    by (auto simp: fits_def)
  then show ?thesis
  proof cases
    case 1
    with Some show ?thesis by (simp add: descr_set_def)
  next
    case 2
    with Some show ?thesis
      by (auto simp: descr_set_def setter_listener_def Let_def
          intro!: below_and_then below_call_method [OF assms(1)])
  qed
qed

lemma below_class_setattr:
  assumes "wf_namespace cls" and "class_below cls cls'"
  shows "below (class_setattr cls s n v) (class_setattr cls' s n v)"
proof (cases "\<exists>p. cls n = Some (Descriptor p)")
  case True
  then obtain p where p: "cls n = Some (Descriptor p)" ..
  with assms(2) have "cls' n = Some (Descriptor p)" by (simp add: class_below_Descriptor)
  moreover from assms(1) p have "fits n p" by (simp add: wf_namespace_def)
  ultimately show ?thesis
    using p by (simp add: class_setattr_def below_descr_set [OF assms(2)])
next
  case False
  with assms(2) have "\<not> (\<exists>p. cls' n = Some (Descriptor p))"
    by (simp add: class_below_Descriptor)
  with False have "class_setattr cls s n v = Return VNone (setattr s n v)"
    and "class_setattr cls' s n v = Return VNone (setattr s n v)"
    by (auto simp: class_setattr_def split: option.splits member.splits)
  then show ?thesis by simp
qed

lemma class_getattr_below:
  assumes "class_below cls cls'"
  shows "class_getattr cls s n = class_getattr cls' s n"
proof -
  from assms have "rel_option member_below (cls n) (cls' n)" by (simp add: class_below_def)
  then show ?thesis
  proof cases
    case None
    then show ?thesis by (simp add: class_getattr_def)
  next
    case (Some mem mem')
    then show ?thesis
      by (cases mem; cases mem') (simp_all add: class_getattr_def split: option.splits)
  qed
qed

lemma unroll_below:
  assumes "steady_class oc"
  shows "class_below (unroll k oc) (unroll (Suc k) oc)"
proof (induction k)
  case 0
  have "rel_option member_below (unroll 0 oc n) (unroll (Suc 0) oc n)" for n
  proof (cases "oc n")
    case None
    then show ?thesis by simp
  next
    case (Some om)
    then show ?thesis by (cases om) (simp_all add: too_deep_def method_below_def)
  qed
  then show ?case by (simp add: class_below_def)
next
  case (Suc k)
  from assms have wf: "wf_namespace (unroll k oc)"
    by (simp add: wf_namespace_unroll steady_class_def)
  have "rel_option member_below (unroll (Suc k) oc n) (unroll (Suc (Suc k)) oc n)" for n
  proof (cases "oc n")
    case None
    then show ?thesis by simp
  next
    case (Some om)
    show ?thesis
    proof (cases om)
      case (ODescriptor p)
      with Some show ?thesis by simp
    next
      case (OFunction m)
      with Some assms have "steady m" by (simp add: steady_class_def)
      with wf Suc have "member_below (Function (m (unroll k oc))) (Function (m (unroll (Suc k) oc)))"
        by (simp only: steady_def)
      with Some OFunction show ?thesis by simp
    qed
  qed
  then show ?case by (simp add: class_below_def)
qed

text \<open>
  So the outcome of an assignment can only grow with the depth, and one that
  has not run out of depth stays as it is.
\<close>

lemma class_setattr_le_Suc:
  assumes "steady_class oc"
  shows "below (class_setattr (unroll k oc) s n v) (class_setattr (unroll (Suc k) oc) s n v)"
proof -
  from assms have "wf_namespace (unroll k oc)"
    by (simp add: wf_namespace_unroll steady_class_def)
  then show ?thesis using unroll_below [OF assms] by (rule below_class_setattr)
qed

lemma class_setattr_le_add:
  assumes "steady_class oc"
  shows "below (class_setattr (unroll k oc) s n v) (class_setattr (unroll (k + j) oc) s n v)"
proof (induction j)
  case 0
  show ?case by simp
next
  case (Suc j)
  also have "below (class_setattr (unroll (k + j) oc) s n v)
      (class_setattr (unroll (k + Suc j) oc) s n v)"
    using class_setattr_le_Suc [OF assms, of "k + j"] by simp
  finally show ?case .
qed

text \<open>Methods that do not use the class, and methods that only assign, are steady.\<close>

lemma steady_const [simp]: "steady (\<lambda>cls. m)"
  by (simp add: steady_def)

lemma steadyI:
  assumes "\<And>cls cls' field old new s. wf_namespace cls \<Longrightarrow> class_below cls cls' \<Longrightarrow>
             below (m cls field old new s) (m cls' field old new s)"
  shows "steady m"
  using assms by (simp add: steady_def method_below_def)

lemma steady_class_derived:
  assumes "steady_class base" and "steady_class own"
  shows "steady_class (derived base own)"
  using assms by (auto simp: steady_class_def derived_def map_add_def split: option.splits)

section \<open>A listener that assigns the property it observes\<close>

text \<open>
  The listener \<^verbatim>\<open>def lname(self, field, old, new): self.attr = g(new)\<close>, for a
  function \<open>g\<close> on values, and the class of one property with this listener.
  The assignment in the listener enters the setter again, which has stored
  the new value before it notified.
\<close>

definition reassigning :: "name \<Rightarrow> (val \<Rightarrow> val) \<Rightarrow> 'a namespace \<Rightarrow> 'a pymethod" where
  "reassigning attr g cls field old new s = class_setattr cls s attr (g new)"

definition observes :: "'a oclass \<Rightarrow> name \<Rightarrow> name \<Rightarrow> name \<Rightarrow> bool \<Rightarrow> (val \<Rightarrow> val) \<Rightarrow> bool" where
  "observes oc attr field lname ad g \<longleftrightarrow>
     (\<exists>p. oc attr = Some (ODescriptor p) \<and> fset p = Some (setter_listener field lname ad)) \<and>
     oc lname = Some (OFunction (reassigning attr g)) \<and>
     lname \<noteq> field \<and> lname \<noteq> ''_is_dirty'' \<and> field \<noteq> ''_is_dirty''"

lemma observes_write_0:
  assumes "observes oc attr field lname ad g" and "dict s lname = None"
    and "py_ne (getattr_default s field VNone) v"
  shows "class_setattr (unroll 0 oc) s attr v =
     Raise RecursionError (mark_dirty ad (setattr s field v))"
  using assms
  by (auto simp: observes_def class_setattr_def descr_set_def setter_listener_def call_method_def
      methods_of_unroll too_deep_def mark_dirty_def)

lemma observes_write_Suc:
  assumes "observes oc attr field lname ad g" and "dict s lname = None"
    and "py_ne (getattr_default s field VNone) v"
  shows "class_setattr (unroll (Suc k) oc) s attr v =
     class_setattr (unroll k oc) (mark_dirty ad (setattr s field v)) attr (g v)"
proof -
  from assms(1) have "and_then
      (class_setattr (unroll k oc) (mark_dirty ad (setattr s field v)) attr (g v))
      (\<lambda>r. Return VNone) =
    class_setattr (unroll k oc) (mark_dirty ad (setattr s field v)) attr (g v)"
    by (auto simp: observes_def class_setattr_def descr_set_def setter_listener_def Let_def
        and_then_assoc)
  with assms show ?thesis
    by (auto simp: observes_def class_setattr_def descr_set_def setter_listener_def
        call_method_def methods_of_unroll reassigning_def mark_dirty_def)
qed

lemma observes_write_equal:
  assumes "observes oc attr field lname ad g" and "py_eq (getattr_default s field VNone) v"
  shows "class_setattr (unroll k oc) s attr v = Return VNone s"
  using assms
  by (auto simp: observes_def class_setattr_def descr_set_def setter_listener_equal)

lemma unshadowed_written:
  assumes "dict s lname = None" and "lname \<noteq> field" and "lname \<noteq> ''_is_dirty''"
  shows "dict (mark_dirty ad (setattr s field v)) lname = None"
  using assms by (simp add: mark_dirty_def)

lemma field_written:
  "field \<noteq> ''_is_dirty'' \<Longrightarrow> getattr_default (mark_dirty ad (setattr s field v)) field d = v"
  by (simp add: mark_dirty_def getattr_default_def)

lemma observes_written:
  assumes "observes oc attr field lname ad g" and "dict s lname = None"
  shows "dict (mark_dirty ad (setattr s field v)) lname = None"
    and "getattr_default (mark_dirty ad (setattr s field v)) field d = v"
  using assms by (simp_all add: observes_def unshadowed_written field_written)

lemma steady_reassigning [simp]: "steady (reassigning attr g)"
  by (rule steadyI) (simp add: reassigning_def below_class_setattr)

section \<open>Properties of listeners that assign\<close>

text \<open>
  Claim C18.  A listener that normalises the value it is told of settles,
  because the setter stores before it notifies: when the listener assigns
  \<open>g new\<close> to the property and \<open>g\<close> maps its results to themselves, an assignment
  returns at a depth of two, the field holds the normalised value, and the
  nested assignment of a value already normal is dropped.
\<close>

theorem normalising_listener_settles:
  assumes "observes oc attr field lname ad g" and "dict s lname = None"
    and "py_ne (getattr_default s field VNone) v" and "py_eq (g v) (g (g v))"
  shows "class_setattr (unroll (Suc (Suc k)) oc) s attr v =
     Return VNone
       (if py_ne v (g v) then mark_dirty ad (setattr (mark_dirty ad (setattr s field v)) field (g v))
        else mark_dirty ad (setattr s field v))"
proof -
  let ?s = "mark_dirty ad (setattr s field v)"
  note written = observes_written [OF assms(1,2), of v]
  have first: "class_setattr (unroll (Suc (Suc k)) oc) s attr v =
      class_setattr (unroll (Suc k) oc) ?s attr (g v)"
    using assms(1-3) by (rule observes_write_Suc)
  show ?thesis
  proof (cases "py_ne v (g v)")
    case True
    then have "class_setattr (unroll (Suc k) oc) ?s attr (g v) =
        class_setattr (unroll k oc) (mark_dirty ad (setattr ?s field (g v))) attr (g (g v))"
      using written by (intro observes_write_Suc [OF assms(1)]) simp_all
    also have "\<dots> = Return VNone (mark_dirty ad (setattr ?s field (g v)))"
      using assms(4) observes_written(2) [OF assms(1) written(1), of "g v"]
      by (intro observes_write_equal [OF assms(1)]) simp
    finally show ?thesis using True first by simp
  next
    case False
    then have "class_setattr (unroll (Suc k) oc) ?s attr (g v) = Return VNone ?s"
      using written by (intro observes_write_equal [OF assms(1)]) (simp add: py_ne_def)
    with False first show ?thesis by simp
  qed
qed

theorem normalising_listener_settles_witness:
  "class_setattr
     (unroll (Suc (Suc 0))
        [''speed'' \<mapsto> ODescriptor (projr (properties_prop meta False (VStr ''_limit'') False speed_fn)),
         ''_limit'' \<mapsto>
           OFunction (reassigning ''speed'' (\<lambda>v. case v of VInt i \<Rightarrow> VInt (min i 100) | _ \<Rightarrow> v))])
     \<lparr>dict = Map.empty\<rparr> ''speed'' (VInt 250) =
   Return VNone \<lparr>dict = [''_speed'' \<mapsto> VInt 100]\<rparr>"
  using normalising_listener_settles
      [of "[''speed'' \<mapsto> ODescriptor (projr (properties_prop meta False (VStr ''_limit'') False speed_fn)),
            ''_limit'' \<mapsto>
              OFunction (reassigning ''speed'' (\<lambda>v. case v of VInt i \<Rightarrow> VInt (min i 100) | _ \<Rightarrow> v))]"
          "''speed''" "''_speed''" "''_limit''" False
          "\<lambda>v. case v of VInt i \<Rightarrow> VInt (min i 100) | _ \<Rightarrow> v"
          "\<lparr>dict = Map.empty\<rparr>" "VInt 250" 0]
  by (simp add: observes_def properties_prop_cases example_defs backing_def py_ne_def
      mark_dirty_def setattr_def getattr_default_def)

text \<open>
  Claim C19.  A listener that never settles uses up every depth: when each
  value that the listener assigns differs from the one before, the
  assignment fails with the host's recursion error at every depth \<open>k\<close>, and
  the field then holds the value of the \<open>k\<close>-th nested assignment.
\<close>

theorem runaway_listener_exhausts_depth:
  assumes "observes oc attr field lname ad g" and "dict s lname = None"
    and "py_ne (getattr_default s field VNone) v"
    and "\<forall>j. py_ne ((g ^^ j) v) ((g ^^ Suc j) v)"
  shows "raised (class_setattr (unroll k oc) s attr v) = Some RecursionError \<and>
     getattr_default (state_of (class_setattr (unroll k oc) s attr v)) field VNone = (g ^^ k) v"
  using assms(2-)
proof (induction k arbitrary: s v)
  case 0
  with assms(1) show ?case by (simp add: observes_write_0 observes_written)
next
  case (Suc k)
  let ?s = "mark_dirty ad (setattr s field v)"
  from Suc.prems(3) have "py_ne ((g ^^ 0) v) ((g ^^ Suc 0) v)" by blast
  then have "py_ne (getattr_default ?s field VNone) (g v)"
    by (simp add: observes_written [OF assms(1) Suc.prems(1)])
  moreover have "\<forall>j. py_ne ((g ^^ j) (g v)) ((g ^^ Suc j) (g v))"
  proof
    fix j
    from Suc.prems(3) have "py_ne ((g ^^ Suc j) v) ((g ^^ Suc (Suc j)) v)" by blast
    then show "py_ne ((g ^^ j) (g v)) ((g ^^ Suc j) (g v))"
      by (simp only: funpow_Suc_right comp_apply)
  qed
  ultimately have "raised (class_setattr (unroll k oc) ?s attr (g v)) = Some RecursionError \<and>
      getattr_default (state_of (class_setattr (unroll k oc) ?s attr (g v))) field VNone =
        (g ^^ k) (g v)"
    using Suc.IH [of ?s "g v"] observes_written(1) [OF assms(1) Suc.prems(1), of v] by simp
  with Suc.prems(1,2) show ?case
    by (simp add: observes_write_Suc [OF assms(1)] funpow_swap1)
qed

lemma funpow_increment:
  "((\<lambda>v. case v of VInt i \<Rightarrow> VInt (i + 1) | _ \<Rightarrow> v) ^^ j) (VInt i) = VInt (i + int j)"
  by (induction j arbitrary: i) (simp_all add: funpow_swap1)

theorem runaway_listener_exhausts_depth_witness:
  "raised (class_setattr
     (unroll 3
        [''speed'' \<mapsto> ODescriptor (projr (properties_prop meta False (VStr ''_next'') False speed_fn)),
         ''_next'' \<mapsto>
           OFunction (reassigning ''speed'' (\<lambda>v. case v of VInt i \<Rightarrow> VInt (i + 1) | _ \<Rightarrow> v))])
     \<lparr>dict = Map.empty\<rparr> ''speed'' (VInt 0)) = Some RecursionError \<and>
   getattr_default (state_of (class_setattr
     (unroll 3
        [''speed'' \<mapsto> ODescriptor (projr (properties_prop meta False (VStr ''_next'') False speed_fn)),
         ''_next'' \<mapsto>
           OFunction (reassigning ''speed'' (\<lambda>v. case v of VInt i \<Rightarrow> VInt (i + 1) | _ \<Rightarrow> v))])
     \<lparr>dict = Map.empty\<rparr> ''speed'' (VInt 0))) ''_speed'' VNone = VInt 3"
  using runaway_listener_exhausts_depth
      [of "[''speed'' \<mapsto> ODescriptor (projr (properties_prop meta False (VStr ''_next'') False speed_fn)),
            ''_next'' \<mapsto>
              OFunction (reassigning ''speed'' (\<lambda>v. case v of VInt i \<Rightarrow> VInt (i + 1) | _ \<Rightarrow> v))]"
          "''speed''" "''_speed''" "''_next''" False
          "\<lambda>v. case v of VInt i \<Rightarrow> VInt (i + 1) | _ \<Rightarrow> v"
          "\<lparr>dict = Map.empty\<rparr>" "VInt 0" 3]
  by (simp add: observes_def properties_prop_cases example_defs backing_def py_ne_def
      getattr_default_def funpow_increment)

text \<open>
  Claim C20.  A larger depth keeps every result: in a class whose descriptors
  come from declarations and whose methods are steady, an assignment that
  does not end with the recursion error at depth \<open>k\<close> has the same outcome at
  every depth above \<open>k\<close>.
\<close>

theorem deeper_keeps_result:
  assumes "steady_class oc"
    and "raised (class_setattr (unroll k oc) s n v) \<noteq> Some RecursionError"
  shows "class_setattr (unroll (k + j) oc) s n v = class_setattr (unroll k oc) s n v"
  using class_setattr_le_add [OF assms(1), of k s n v j] assms(2)
  by (simp add: below_def)

theorem deeper_keeps_result_witness:
  "class_setattr
     (unroll (Suc (Suc 0) + 998)
        [''speed'' \<mapsto> ODescriptor (projr (properties_prop meta False (VStr ''_limit'') False speed_fn)),
         ''_limit'' \<mapsto>
           OFunction (reassigning ''speed'' (\<lambda>v. case v of VInt i \<Rightarrow> VInt (min i 100) | _ \<Rightarrow> v))])
     \<lparr>dict = Map.empty\<rparr> ''speed'' (VInt 250) =
   class_setattr
     (unroll (Suc (Suc 0))
        [''speed'' \<mapsto> ODescriptor (projr (properties_prop meta False (VStr ''_limit'') False speed_fn)),
         ''_limit'' \<mapsto>
           OFunction (reassigning ''speed'' (\<lambda>v. case v of VInt i \<Rightarrow> VInt (min i 100) | _ \<Rightarrow> v))])
     \<lparr>dict = Map.empty\<rparr> ''speed'' (VInt 250)"
proof -
  let ?g = "\<lambda>v. case v of VInt i \<Rightarrow> VInt (min i 100) | _ \<Rightarrow> v"
  let ?oc = "[''speed'' \<mapsto> ODescriptor (projr (properties_prop meta False (VStr ''_limit'') False speed_fn)),
              ''_limit'' \<mapsto> OFunction (reassigning ''speed'' ?g)]"
  have "fits ''speed'' (projr (properties_prop meta False (VStr ''_limit'') False speed_fn))"
    using fits_projr [of False "VStr ''_limit''" speed_fn meta False] by (simp add: speed_fn_def)
  then have steady: "steady_class ?oc"
    by (auto simp: steady_class_def split: if_splits)
  have "raised (class_setattr (unroll (Suc (Suc 0)) ?oc) \<lparr>dict = Map.empty\<rparr> ''speed'' (VInt 250))
      \<noteq> Some RecursionError"
    by (simp add: class_setattr_def descr_set_def properties_prop_cases example_defs
        setter_listener_def call_method_def methods_of_def reassigning_def backing_def py_ne_def
        mark_dirty_def setattr_def getattr_default_def)
  with steady show ?thesis by (rule deeper_keeps_result)
qed

end
