(* ===== verification/Py_Builtins.thy ===== *)
theory Py_Builtins
  imports Py_Object "HOL-Library.Char_ord" "HOL-Library.List_Lexorder"
begin

text \<open>
  The operations of the host language that the usage example of the source
  calls besides attribute access: the ordering \<^verbatim>\<open>>\<close> of values (numbers among
  themselves, strings, and tuples item by item), \<^verbatim>\<open>range\<close> (its elements in
  closed form, \<open>py_range\<close>, and its iteration, \<open>range_iter\<close>), the
  \<^verbatim>\<open>for\<close> loop over a list, and \<^verbatim>\<open>print\<close> of a formatted string.  Printing appends
  a line to the standard output, which the record \<open>world\<close> adds to the instance.
  A printed line is kept as the list of its fragments, literal text and
  formatted values, so that the model does not depend on how a value is
  rendered; \<open>render\<close> gives the text of a line whose values are \<^verbatim>\<open>None\<close>,
  Booleans, integers or strings.
\<close>

section \<open>Ordering of values\<close>

definition unorderable :: error where
  "unorderable = TypeError ''>''"

text \<open>Booleans, integers and floats are ordered as numbers; a NaN is neither above nor below anything.\<close>

fun as_float :: "val \<Rightarrow> pyfloat option" where
  "as_float (VBool b) = Some (Fin (of_bool b))"
| "as_float (VInt i) = Some (Fin (of_int i))"
| "as_float (VFloat x) = Some x"
| "as_float v = None"

fun float_gt :: "pyfloat \<Rightarrow> pyfloat \<Rightarrow> bool" where
  "float_gt (NaN k) y = False"
| "float_gt x (NaN k) = False"
| "float_gt (Fin p) (Fin q) = (q < p)"
| "float_gt PInf y = (y \<noteq> PInf)"
| "float_gt x NInf = (x \<noteq> NInf)"
| "float_gt x y = False"

fun py_gt :: "val \<Rightarrow> val \<Rightarrow> error + bool"
  and tuple_gt :: "val list \<Rightarrow> val list \<Rightarrow> error + bool" where
  "py_gt (VStr s) (VStr t) = Inr (t < s)"
| "py_gt (VTuple xs) (VTuple ys) = tuple_gt xs ys"
| "py_gt v w =
     (case (as_float v, as_float w) of
        (Some a, Some b) \<Rightarrow> Inr (float_gt a b)
      | _ \<Rightarrow> Inl unorderable)"
| "tuple_gt [] ys = Inr False"
| "tuple_gt (x # xs) [] = Inr True"
| "tuple_gt (x # xs) (y # ys) = (if item_eq x y then tuple_gt xs ys else py_gt x y)"

section \<open>Ranges and loops\<close>

definition py_range :: "int \<Rightarrow> int \<Rightarrow> int \<Rightarrow> error + int list" where
  "py_range start stop step =
     (if step = 0 then Inl (ValueError ''range() arg 3 must not be zero'')
      else if step > 0
      then Inr (map (\<lambda>k. start + int k * step) [0..<nat ((stop - start + step - 1) div step)])
      else Inr (map (\<lambda>k. start + int k * step) [0..<nat ((start - stop - step - 1) div (- step))]))"

text \<open>
  Iterating over a range: the iterator starts at \<^verbatim>\<open>start\<close> and adds \<^verbatim>\<open>step\<close> until it
  reaches \<^verbatim>\<open>stop\<close>.  \<open>py_range\<close> above is the range as a sequence, with its length
  computed in advance and its items by index.
\<close>

function range_up :: "int \<Rightarrow> int \<Rightarrow> int \<Rightarrow> int list" where
  "range_up cur stop step =
     (if 0 < step \<and> cur < stop then cur # range_up (cur + step) stop step else [])"
  by pat_completeness auto
termination
  by (relation "measure (\<lambda>(cur, stop, step). nat (stop - cur))") auto

function range_down :: "int \<Rightarrow> int \<Rightarrow> int \<Rightarrow> int list" where
  "range_down cur stop step =
     (if step < 0 \<and> stop < cur then cur # range_down (cur + step) stop step else [])"
  by pat_completeness auto
termination
  by (relation "measure (\<lambda>(cur, stop, step). nat (cur - stop))") auto

declare range_up.simps [simp del] range_down.simps [simp del]

definition range_iter :: "int \<Rightarrow> int \<Rightarrow> int \<Rightarrow> error + int list" where
  "range_iter start stop step =
     (if step = 0 then Inl (ValueError ''range() arg 3 must not be zero'')
      else if 0 < step then Inr (range_up start stop step)
      else Inr (range_down start stop step))"

fun for_each :: "'x list \<Rightarrow> ('x \<Rightarrow> 's \<Rightarrow> (val, 's) outcome) \<Rightarrow> 's \<Rightarrow> (val, 's) outcome" where
  "for_each [] body s = Return VNone s"
| "for_each (x # xs) body s = and_then (body x s) (\<lambda>r. for_each xs body)"

definition for_range ::
  "int \<Rightarrow> int \<Rightarrow> int \<Rightarrow> (int \<Rightarrow> 's \<Rightarrow> (val, 's) outcome) \<Rightarrow> 's \<Rightarrow> (val, 's) outcome" where
  "for_range start stop step body s =
     (case range_iter start stop step of
        Inl e \<Rightarrow> Raise e s
      | Inr xs \<Rightarrow> for_each xs body s)"

section \<open>Standard output\<close>

datatype fragment = Lit string | Fmt val

type_synonym line = "fragment list"

record world = inst +
  stdout :: "line list"

definition py_print :: "line \<Rightarrow> 'b world_scheme \<Rightarrow> 'b world_scheme" where
  "py_print l s = s\<lparr>stdout := stdout s @ [l]\<rparr>"

definition digit_char :: "nat \<Rightarrow> char" where
  "digit_char d = ''0123456789'' ! d"

fun digits :: "nat \<Rightarrow> string" where
  "digits n = (if n < 10 then [digit_char n] else digits (n div 10) @ [digit_char (n mod 10)])"

definition str_int :: "int \<Rightarrow> string" where
  "str_int i = (if i < 0 then CHR ''-'' # digits (nat (- i)) else digits (nat i))"

fun py_str :: "val \<Rightarrow> string option" where
  "py_str VNone = Some ''None''"
| "py_str (VBool b) = Some (if b then ''True'' else ''False'')"
| "py_str (VInt i) = Some (str_int i)"
| "py_str (VStr s) = Some s"
| "py_str v = None"

fun render :: "line \<Rightarrow> string option" where
  "render [] = Some []"
| "render (Lit t # fs) = map_option ((@) t) (render fs)"
| "render (Fmt v # fs) =
     (case py_str v of
        None \<Rightarrow> None
      | Some t \<Rightarrow> map_option ((@) t) (render fs))"

section \<open>Laws of the ordering\<close>

lemma float_gt_irrefl [simp]: "\<not> float_gt x x"
  by (cases x) simp_all

lemma float_gt_asym: "float_gt x y \<Longrightarrow> \<not> float_gt y x"
  by (cases x; cases y) auto

lemma tuple_gt_irrefl:
  "(\<And>x. x \<in> set xs \<Longrightarrow> py_gt x x \<noteq> Inr True) \<Longrightarrow> tuple_gt xs xs \<noteq> Inr True"
  by (induction xs) (simp_all add: item_eq_def)

lemma py_gt_irrefl: "py_gt v v \<noteq> Inr True"
  by (induction v) (simp_all add: tuple_gt_irrefl unorderable_def)

lemma py_gt_int [simp]:
  "py_gt (VInt i) (VInt j) = Inr (j < i)"
  by simp

lemma py_gt_numbers [simp]:
  "py_gt (VInt i) (VFloat y) = Inr (float_gt (Fin (of_int i)) y)"
  "py_gt (VFloat x) (VInt j) = Inr (float_gt x (Fin (of_int j)))"
  "py_gt (VFloat x) (VFloat y) = Inr (float_gt x y)"
  by simp_all

lemma py_gt_nan [simp]:
  "py_gt (VInt i) (VFloat (NaN k)) = Inr False"
  "py_gt (VFloat (NaN k)) (VInt j) = Inr False"
  by simp_all

section \<open>Laws of ranges and loops\<close>

lemma py_range_pos:
  "0 < step \<Longrightarrow>
   py_range start stop step =
     Inr (map (\<lambda>k. start + int k * step) [0..<nat ((stop - start + step - 1) div step)])"
  by (simp add: py_range_def)

lemma le_div_pos_iff:
  fixes step :: int
  assumes "0 < step"
  shows "m \<le> x div step \<longleftrightarrow> m * step \<le> x"
proof -
  have "(x + (- m) * step) div step = - m + x div step"
    using assms by (simp only: div_mult_self1 [of step x "- m"]) 
  then have "m \<le> x div step \<longleftrightarrow> 0 \<le> (x - m * step) div step" by simp
  also have "\<dots> \<longleftrightarrow> 0 \<le> x - m * step"
    using assms by (rule pos_imp_zdiv_nonneg_iff)
  finally show ?thesis by simp
qed

lemma range_len:
  fixes step :: int
  assumes "0 < step"
  shows "int k < (b - a + step - 1) div step \<longleftrightarrow> a + int k * step < b"
proof -
  have "int k < (b - a + step - 1) div step \<longleftrightarrow> int k + 1 \<le> (b - a + step - 1) div step" by linarith
  also have "\<dots> \<longleftrightarrow> (int k + 1) * step \<le> b - a + step - 1"
    using assms by (rule le_div_pos_iff)
  also have "\<dots> \<longleftrightarrow> a + int k * step < b"
    by (auto simp: algebra_simps)
  finally show ?thesis .
qed

lemma py_range_pos_iff:
  assumes "0 < step" and "py_range start stop step = Inr xs"
  shows "x \<in> set xs \<longleftrightarrow> start \<le> x \<and> x < stop \<and> step dvd (x - start)"
proof -
  let ?n = "nat ((stop - start + step - 1) div step)"
  from assms have xs: "xs = map (\<lambda>k. start + int k * step) [0..<?n]"
    by (simp add: py_range_def)
  have lt: "k < ?n \<longleftrightarrow> start + int k * step < stop" for k
    using range_len [OF assms(1), of k stop start] by linarith
  show ?thesis
  proof
    assume "x \<in> set xs"
    with xs obtain k where "k < ?n" and "x = start + int k * step" by auto
    with lt [of k] assms(1) show "start \<le> x \<and> x < stop \<and> step dvd (x - start)" by simp
  next
    assume r: "start \<le> x \<and> x < stop \<and> step dvd (x - start)"
    then obtain q where q: "x - start = step * q" by (auto simp: dvd_def)
    from r have "0 \<le> x - start" by simp
    with q assms(1) have "0 \<le> q" by (simp add: zero_le_mult_iff)
    with q have x: "x = start + int (nat q) * step" by (simp add: algebra_simps)
    with r lt [of "nat q"] have "nat q < ?n" by simp
    then have "nat q \<in> set [0..<?n]" by simp
    then have "start + int (nat q) * step \<in> set xs" unfolding xs set_map by (rule imageI)
    with x show "x \<in> set xs" by simp
  qed
qed

lemma py_range_pos_sorted:
  assumes "0 < step" and "py_range start stop step = Inr xs"
  shows "sorted_wrt (<) xs"
proof -
  from assms have xs: "xs = map (\<lambda>k. start + int k * step) [0..<nat ((stop - start + step - 1) div step)]"
    by (simp add: py_range_def)
  show ?thesis unfolding xs using assms(1)
    by (simp add: sorted_wrt_map sorted_wrt_iff_nth_less)
qed

text \<open>The iterator yields the items of the sequence.\<close>

lemma map_upt_Suc_shift:
  "map f [0..<Suc n] = f 0 # map (\<lambda>k. f (Suc k)) [0..<n]"
  by (simp add: upt_conv_Cons map_Suc_upt [symmetric] del: upt_Suc)

lemma range_len_pos:
  fixes step :: int
  assumes "0 < step" and "cur < stop"
  shows "nat ((stop - cur + step - 1) div step) = Suc (nat ((stop - (cur + step) + step - 1) div step))"
proof -
  have "(stop - cur + step - 1) div step = (stop - cur - 1) div step + 1"
    using assms(1) div_add_self2 [of step "stop - cur - 1"] by (simp add: algebra_simps)
  moreover have "0 \<le> (stop - cur - 1) div step"
    using assms by (simp add: pos_imp_zdiv_nonneg_iff)
  ultimately show ?thesis by (simp add: algebra_simps nat_add_distrib)
qed

lemma range_len_nonpos:
  fixes step :: int
  assumes "0 < step" and "\<not> cur < stop"
  shows "nat ((stop - cur + step - 1) div step) = 0"
proof -
  from assms have "(stop - cur + step - 1) div step \<le> (step - 1) div step"
    by (intro zdiv_mono1) simp_all
  also from assms(1) have "(step - 1) div step = 0"
    by (simp add: div_pos_pos_trivial)
  finally have "(stop - cur + step - 1) div step \<le> 0" .
  then show ?thesis by simp
qed

lemma range_up_closed:
  "0 < step \<Longrightarrow>
   range_up cur stop step =
     map (\<lambda>k. cur + int k * step) [0..<nat ((stop - cur + step - 1) div step)]"
proof (induction cur stop step rule: range_up.induct)
  case (1 cur stop step)
  show ?case
  proof (cases "cur < stop")
    case True
    let ?n = "nat ((stop - (cur + step) + step - 1) div step)"
    from True 1(2) have "range_up cur stop step = cur # range_up (cur + step) stop step"
      by (subst range_up.simps) simp
    also from True 1 have "range_up (cur + step) stop step =
        map (\<lambda>k. cur + step + int k * step) [0..<?n]"
      by simp
    also have "(\<lambda>k. cur + step + int k * step) = (\<lambda>k. cur + int (Suc k) * step)"
      by (simp add: algebra_simps)
    also have "cur # map (\<lambda>k. cur + int (Suc k) * step) [0..<?n] =
        map (\<lambda>k. cur + int k * step) [0..<Suc ?n]"
      by (simp add: map_upt_Suc_shift del: upt_Suc)
    also from True 1(2) have "Suc ?n = nat ((stop - cur + step - 1) div step)"
      by (simp only: range_len_pos)
    finally show ?thesis .
  next
    case False
    with 1(2) show ?thesis
      by (subst range_up.simps) (simp add: range_len_nonpos)
  qed
qed

lemma range_down_up:
  "step < 0 \<Longrightarrow> range_down cur stop step = map uminus (range_up (- cur) (- stop) (- step))"
proof (induction cur stop step rule: range_down.induct)
  case (1 cur stop step)
  show ?case
  proof (cases "stop < cur")
    case True
    with 1 show ?thesis
      by (subst range_down.simps, subst range_up.simps) simp
  next
    case False
    with 1(2) show ?thesis
      by (subst range_down.simps, subst range_up.simps) simp
  qed
qed

text \<open>
  Iterating a range ends, for every start, stop and step, and it
  yields what the closed form \<^verbatim>\<open>py_range\<close> says: the step's error when the step
  is 0, and otherwise the values \<open>start + k * step\<close> for \<open>k\<close> below the length
  the host computes for the range, in this order.
\<close>

lemma range_iter_eq: "range_iter start stop step = py_range start stop step"
proof -
  have "range_down start stop step =
      map (\<lambda>k. start + int k * step) [0..<nat ((start - stop - step - 1) div (- step))]"
    if "step < 0"
  proof -
    from that have "range_down start stop step =
        map uminus (map (\<lambda>k. - start + int k * (- step))
          [0..<nat ((- stop - (- start) + (- step) - 1) div (- step))])"
      by (simp add: range_down_up range_up_closed)
    also have "\<dots> = map (\<lambda>k. start + int k * step)
          [0..<nat ((- stop - (- start) + (- step) - 1) div (- step))]"
      by (simp add: comp_def)
    also have "- stop - (- start) + (- step) - 1 = start - stop - step - 1" by simp
    finally show ?thesis .
  qed
  then show ?thesis
    by (auto simp: range_iter_def py_range_def range_up_closed)
qed

lemma for_each_append:
  "for_each (xs @ ys) body s = and_then (for_each xs body s) (\<lambda>r. for_each ys body)"
proof (induction xs arbitrary: s)
  case Nil
  show ?case by simp
next
  case (Cons x xs)
  then show ?case by (cases "body x s") simp_all
qed

lemma for_each_Cons_fun:
  "for_each (x # xs) body = (\<lambda>s. and_then (body x s) (\<lambda>r. for_each xs body))"
  by (rule ext) simp

lemma for_each_Raise:
  "body x s = Raise e s' \<Longrightarrow> for_each (x # xs) body s = Raise e s'"
  by simp

section \<open>Laws of the output\<close>

lemma dict_py_print [simp]: "dict (py_print l s) = dict s"
  by (simp add: py_print_def)

lemma stdout_py_print [simp]: "stdout (py_print l s) = stdout s @ [l]"
  by (simp add: py_print_def)

lemma stdout_setattr [simp]: "stdout (setattr s n v) = stdout s"
  by (simp add: setattr_def)

lemma py_print_setattr: "py_print l (setattr s n v) = setattr (py_print l s) n v"
  by (simp add: py_print_def setattr_def)

declare digits.simps [simp del]

lemma digits_numeral [simp]:
  "digits (numeral k) =
     (if (numeral k :: nat) < 10 then [digit_char (numeral k)]
      else digits (numeral k div 10) @ [digit_char (numeral k mod 10)])"
  by (rule digits.simps)

lemma digits_0 [simp]: "digits 0 = ''0''"
  by (simp add: digits.simps digit_char_def)

lemma digits_1 [simp]: "digits (Suc 0) = ''1''"
  by (simp add: digits.simps digit_char_def)

lemma length_digits_pos: "digits n \<noteq> []"
  by (subst digits.simps) simp

lemma render_append:
  "render (xs @ ys) =
     (case render xs of None \<Rightarrow> None | Some t \<Rightarrow> map_option ((@) t) (render ys))"
proof (induction xs rule: render.induct)
  case 1
  show ?case by (cases "render ys") simp_all
next
  case (2 t fs)
  then show ?case by (cases "render fs"; cases "render ys") simp_all
next
  case (3 v fs)
  then show ?case by (cases "py_str v"; cases "render fs"; cases "render ys") simp_all
qed

end
