(* ===== verification/Write_Runs.thy ===== *)
theory Write_Runs
  imports Properties Py_Builtins
begin

text \<open>
  Sequences of assignments to one observable property.  \<open>assign_all\<close> assigns
  the values of a list in order and stops at the first exception.  \<open>changes\<close>
  is what an observer is promised to see: the pairs of old and new value of
  the assignments that do change the value, where the value that counts as
  old is the one stored, not the one last assigned.  The lemmas show that a
  listener that records its calls records exactly these pairs, that the
  stored value is the last one that differed from its predecessor, that
  the dirty flag is set as soon as one assignment changed the value, and that
  a run with no listener to call stops at the first change.
\<close>

section \<open>Runs and what they promise\<close>

definition assign_all ::
  "name \<Rightarrow> 'a property \<Rightarrow> 'a methods \<Rightarrow> val list \<Rightarrow> 'a inst_scheme
     \<Rightarrow> (val, 'a inst_scheme) outcome" where
  "assign_all attr p mt vs = for_each vs (\<lambda>v s. descr_set attr p mt s v)"

fun changes :: "val \<Rightarrow> val list \<Rightarrow> (val \<times> val) list" where
  "changes cur [] = []"
| "changes cur (v # vs) = (if py_ne cur v then (cur, v) # changes v vs else changes cur vs)"

fun stored :: "val \<Rightarrow> val list \<Rightarrow> val" where
  "stored cur [] = cur"
| "stored cur (v # vs) = stored (if py_ne cur v then v else cur) vs"

definition log_of :: "'a inst_scheme \<Rightarrow> val list" where
  "log_of inst = (case dict inst ''_log'' of Some (VTuple l) \<Rightarrow> l | _ \<Rightarrow> [])"

definition entry :: "name \<Rightarrow> val \<times> val \<Rightarrow> val" where
  "entry field c = VTuple [VStr field, fst c, snd c]"

section \<open>Laws of the specification\<close>

lemma changes_append:
  "changes cur (vs @ ws) = changes cur vs @ changes (stored cur vs) ws"
  by (induction vs arbitrary: cur) simp_all

lemma stored_append: "stored cur (vs @ ws) = stored (stored cur vs) ws"
  by (induction vs arbitrary: cur) simp_all

lemma length_changes: "length (changes cur vs) \<le> length vs"
  by (induction vs arbitrary: cur) (simp_all add: le_SucI)

lemma changes_Nil_iff: "changes cur vs = [] \<longleftrightarrow> (\<forall>v \<in> set vs. py_eq cur v)"
  by (induction vs arbitrary: cur) (auto simp: py_ne_def)

lemma stored_unchanged: "changes cur vs = [] \<Longrightarrow> stored cur vs = cur"
  by (induction vs arbitrary: cur) (auto split: if_splits)

lemma stored_last_change:
  "changes cur vs \<noteq> [] \<Longrightarrow> stored cur vs = snd (last (changes cur vs))"
proof (induction vs arbitrary: cur)
  case Nil
  then show ?case by simp
next
  case (Cons v vs)
  then show ?case
    by (cases "changes v vs = []") (auto simp: stored_unchanged split: if_splits)
qed

text \<open>The pairs chain: each old value is the new value of the pair before.\<close>

lemma changes_chain:
  "successively (\<lambda>c d. snd c = fst d) (changes cur vs)"
proof (induction vs arbitrary: cur)
  case Nil
  show ?case by simp
next
  case (Cons v vs)
  have "changes v vs = [] \<or> fst (hd (changes v vs)) = v"
    by (induction vs arbitrary: v) (auto simp: py_ne_def)
  with Cons [of v] Cons [of cur] show ?case
    by (cases "changes v vs") (auto simp: successively_Cons)
qed

section \<open>One assignment with the recording listener\<close>

text \<open>
  The conditions under which the listener named \<open>lname\<close> records the changes of
  the field: the class binds the name to the recording listener, the instance
  has no attribute of its own under that name, and the name, the field, the
  log and the dirty flag are four different attributes.
\<close>

definition recording :: "'a methods \<Rightarrow> name \<Rightarrow> name \<Rightarrow> 'a inst_scheme \<Rightarrow> bool" where
  "recording mt lname field inst \<longleftrightarrow>
     mt lname = Some log_listener \<and> dict inst lname = None \<and>
     lname \<notin> {field, ''_log'', ''_is_dirty''} \<and> field \<notin> {''_log'', ''_is_dirty''}"

lemma log_of_setattr_log [simp]: "log_of (setattr inst ''_log'' (VTuple l)) = l"
  by (simp add: log_of_def)

lemma log_of_setattr_other [simp]: "n \<noteq> ''_log'' \<Longrightarrow> log_of (setattr inst n v) = log_of inst"
  by (simp add: log_of_def)

lemma log_of_mark_dirty [simp]: "log_of (mark_dirty ad inst) = log_of inst"
  by (simp add: log_of_def)

lemma log_listener_eq:
  "log_listener field old new inst =
     Return VNone (setattr inst ''_log'' (VTuple (log_of inst @ [entry field (old, new)])))"
  by (simp add: log_listener_def log_of_def entry_def)

lemma setter_recording:
  assumes "recording mt lname field inst"
  shows "setter_listener field lname ad mt inst v =
     Return VNone
       (if py_ne (getattr_default inst field VNone) v
        then setattr (mark_dirty ad (setattr inst field v)) ''_log''
               (VTuple (log_of inst @ [entry field (getattr_default inst field VNone, v)]))
        else inst)"
  using assms
  by (simp add: recording_def setter_listener_def call_method_written log_listener_eq)

lemma recording_setter:
  assumes "recording mt lname field inst"
  shows "recording mt lname field (state_of (setter_listener field lname ad mt inst v))"
  using assms by (auto simp: setter_recording) (auto simp: recording_def mark_dirty_def)

lemma setter_recording_field:
  assumes "recording mt lname field inst"
  shows "getattr_default (state_of (setter_listener field lname ad mt inst v)) field VNone =
     (if py_ne (getattr_default inst field VNone) v then v else getattr_default inst field VNone)"
  using assms by (auto simp: setter_recording) (auto simp: recording_def mark_dirty_def)

section \<open>Runs with the recording listener\<close>

lemma dirty_setter_recording:
  assumes "recording mt lname field inst"
  shows "dict (state_of (setter_listener field lname ad mt inst v)) ''_is_dirty'' =
     (if ad \<and> py_ne (getattr_default inst field VNone) v then Some (VBool True)
      else dict inst ''_is_dirty'')"
  using assms by (auto simp: setter_recording) (auto simp: recording_def mark_dirty_def)

lemma run_recording:
  assumes "recording mt lname field inst"
  shows "\<exists>s'. for_each vs (\<lambda>v s. setter_listener field lname ad mt s v) inst = Return VNone s' \<and>
     recording mt lname field s' \<and>
     log_of s' = log_of inst @ map (entry field) (changes (getattr_default inst field VNone) vs) \<and>
     getattr_default s' field VNone = stored (getattr_default inst field VNone) vs \<and>
     dict s' ''_is_dirty'' =
       (if ad \<and> changes (getattr_default inst field VNone) vs \<noteq> [] then Some (VBool True)
        else dict inst ''_is_dirty'')"
  using assms
proof (induction vs arbitrary: inst)
  case Nil
  then show ?case by simp
next
  case (Cons v vs)
  let ?cur = "getattr_default inst field VNone"
  from Cons.prems obtain s1 where step: "setter_listener field lname ad mt inst v = Return VNone s1"
    by (simp add: setter_recording)
  then have s1: "state_of (setter_listener field lname ad mt inst v) = s1" by simp
  have r1: "recording mt lname field s1"
    using recording_setter [OF Cons.prems, of ad v] by (simp only: s1)
  have cur1: "getattr_default s1 field VNone = (if py_ne ?cur v then v else ?cur)"
    using setter_recording_field [OF Cons.prems, of ad v] by (simp only: s1)
  have dirty1: "dict s1 ''_is_dirty'' =
      (if ad \<and> py_ne ?cur v then Some (VBool True) else dict inst ''_is_dirty'')"
    using dirty_setter_recording [OF Cons.prems, of ad v] by (simp only: s1)
  from step have log1: "log_of s1 =
      (if py_ne ?cur v then log_of inst @ [entry field (?cur, v)] else log_of inst)"
    by (auto simp: setter_recording [OF Cons.prems])
  from Cons.IH [OF r1] obtain s' where
    run: "for_each vs (\<lambda>v s. setter_listener field lname ad mt s v) s1 = Return VNone s'"
    and rest: "recording mt lname field s'"
      "log_of s' = log_of s1 @ map (entry field) (changes (getattr_default s1 field VNone) vs)"
      "getattr_default s' field VNone = stored (getattr_default s1 field VNone) vs"
      "dict s' ''_is_dirty'' =
         (if ad \<and> changes (getattr_default s1 field VNone) vs \<noteq> [] then Some (VBool True)
          else dict s1 ''_is_dirty'')"
    by blast
  from step run have "for_each (v # vs) (\<lambda>v s. setter_listener field lname ad mt s v) inst =
      Return VNone s'"
    by simp
  with rest show ?case by (auto simp: cur1 log1 dirty1)
qed

lemma assign_all_prop:
  assumes "properties_prop self False (VStr lname) ad f = Inr p" and "lname \<noteq> []"
  shows "assign_all attr p mt vs =
     for_each vs (\<lambda>v s. setter_listener (backing (fn_name f)) lname (p_auto_dirty self \<or> ad) mt s v)"
  using assms by (simp add: assign_all_def descr_set_prop)

text \<open>
  A run whose listener is bound nowhere: the assignments that change nothing
  pass, the first one that changes the value is written and flagged and then
  fails, and no later assignment is made.
\<close>

lemma run_unbound:
  assumes "mt lname = None" and "dict inst lname = None" and "lname \<notin> {field, ''_is_dirty''}"
  shows "for_each vs (\<lambda>v s. setter_listener field lname ad mt s v) inst =
     (case changes (getattr_default inst field VNone) vs of
        [] \<Rightarrow> Return VNone inst
      | c # cs \<Rightarrow> Raise (AttributeError lname) (mark_dirty ad (setattr inst field (snd c))))"
proof (induction vs)
  case Nil
  show ?case by simp
next
  case (Cons v vs)
  show ?case
  proof (cases "py_ne (getattr_default inst field VNone) v")
    case True
    with assms have "setter_listener field lname ad mt inst v =
        Raise (AttributeError lname) (mark_dirty ad (setattr inst field v))"
      by (simp add: setter_listener_changed call_method_def mark_dirty_def)
    with True show ?thesis by (simp add: for_each_Raise)
  next
    case False
    then have "setter_listener field lname ad mt inst v = Return VNone inst"
      by (simp add: setter_listener_equal py_ne_def)
    with False Cons.IH show ?thesis by simp
  qed
qed

section \<open>Properties of runs\<close>

text \<open>
  Claim C21.  A sequence of assignments to an observable property, on an
  instance whose class records notifications, never fails, and the record
  grows by exactly the changes of the sequence, in order: one entry with the
  field, the stored old value and the new value for each assignment whose
  value differs from the stored one, and none for the others.
\<close>

theorem assignments_are_observed:
  assumes "properties_prop self False (VStr lname) ad f = Inr p" and "lname \<noteq> []"
    and "recording mt lname (backing (fn_name f)) inst"
  shows "raised (assign_all attr p mt vs inst) = None \<and>
         log_of (state_of (assign_all attr p mt vs inst)) =
           log_of inst @
           map (entry (backing (fn_name f)))
             (changes (getattr_default inst (backing (fn_name f)) VNone) vs)"
  using run_recording [OF assms(3), of vs "p_auto_dirty self \<or> ad"]
  by (auto simp: assign_all_prop [OF assms(1,2)])

theorem assignments_are_observed_witness:
  "log_of (state_of (assign_all ''speed''
      (projr (properties_prop meta False (VStr ''_on_change'') True speed_fn))
      [''_on_change'' \<mapsto> log_listener] [VInt 30, VInt 30, VInt 50, VBool True, VInt 1]
      \<lparr>dict = Map.empty\<rparr>)) =
   [VTuple [VStr ''_speed'', VNone, VInt 30], VTuple [VStr ''_speed'', VInt 30, VInt 50],
    VTuple [VStr ''_speed'', VInt 50, VBool True]]"
  using assignments_are_observed [of meta "''_on_change''" True speed_fn
      "projr (properties_prop meta False (VStr ''_on_change'') True speed_fn)"
      "[''_on_change'' \<mapsto> log_listener]" "\<lparr>dict = Map.empty\<rparr>" "''speed''"
      "[VInt 30, VInt 30, VInt 50, VBool True, VInt 1]"]
  by (simp add: properties_prop_cases speed_fn_def recording_def backing_def log_of_def entry_def
      py_ne_def)

text \<open>
  Claim C22.  After a sequence of assignments to a property whose listener
  records its calls, and so leaves the field and the flag alone, the field
  holds the value of the last assignment that changed it, or its old value if
  none did, and with \<^verbatim>\<open>auto_dirty\<close> the dirty flag is set exactly when some
  assignment changed the value or the flag was set before.
\<close>

theorem assignments_store_last_change:
  assumes "properties_prop self False (VStr lname) ad f = Inr p" and "lname \<noteq> []"
    and "recording mt lname (backing (fn_name f)) inst"
  shows "getattr_default (state_of (assign_all attr p mt vs inst)) (backing (fn_name f)) VNone =
           stored (getattr_default inst (backing (fn_name f)) VNone) vs \<and>
         dict (state_of (assign_all attr p mt vs inst)) ''_is_dirty'' =
           (if (p_auto_dirty self \<or> ad) \<and>
               changes (getattr_default inst (backing (fn_name f)) VNone) vs \<noteq> []
            then Some (VBool True) else dict inst ''_is_dirty'')"
  using run_recording [OF assms(3), of vs "p_auto_dirty self \<or> ad"]
  by (auto simp: assign_all_prop [OF assms(1,2)])

theorem assignments_store_last_change_witness:
  "getattr_default (state_of (assign_all ''speed''
      (projr (properties_prop meta False (VStr ''_on_change'') True speed_fn))
      [''_on_change'' \<mapsto> log_listener] [VInt 30, VInt 30, VInt 50, VBool True, VInt 1]
      \<lparr>dict = Map.empty\<rparr>)) ''_speed'' VNone = VBool True \<and>
   dict (state_of (assign_all ''speed''
      (projr (properties_prop meta False (VStr ''_on_change'') True speed_fn))
      [''_on_change'' \<mapsto> log_listener] [VInt 30, VInt 30, VInt 50, VBool True, VInt 1]
      \<lparr>dict = Map.empty\<rparr>)) ''_is_dirty'' = Some (VBool True)"
  using assignments_store_last_change [of meta "''_on_change''" True speed_fn
      "projr (properties_prop meta False (VStr ''_on_change'') True speed_fn)"
      "[''_on_change'' \<mapsto> log_listener]" "\<lparr>dict = Map.empty\<rparr>" "''speed''"
      "[VInt 30, VInt 30, VInt 50, VBool True, VInt 1]"]
  by (simp add: properties_prop_cases speed_fn_def recording_def backing_def py_ne_def)

text \<open>
  Claim C23.  When the listener is bound neither in the class nor on the
  instance, a sequence of assignments stops at the first one that changes the
  value: the run raises the attribute error for the listener's name, the
  instance holds that first changed value and the dirty flag, and none of the
  later values is written.
\<close>

theorem unbound_listener_stops_run:
  assumes "properties_prop self False (VStr lname) ad f = Inr p" and "lname \<noteq> []"
    and "mt lname = None" and "dict inst lname = None"
    and "lname \<noteq> backing (fn_name f)" and "lname \<noteq> ''_is_dirty''"
    and "changes (getattr_default inst (backing (fn_name f)) VNone) vs = c # cs"
  shows "assign_all attr p mt vs inst =
     Raise (AttributeError lname)
       (mark_dirty (p_auto_dirty self \<or> ad) (setattr inst (backing (fn_name f)) (snd c)))"
  using assms(3-7) by (simp add: assign_all_prop [OF assms(1,2)] run_unbound)

theorem unbound_listener_stops_run_witness:
  "assign_all ''speed'' (projr (properties_prop meta False (VStr ''_on_change'') True speed_fn))
     Map.empty [VNone, VInt 30, VInt 50] \<lparr>dict = Map.empty\<rparr> =
   Raise (AttributeError ''_on_change'')
     \<lparr>dict = [''_speed'' \<mapsto> VInt 30, ''_is_dirty'' \<mapsto> VBool True]\<rparr>"
  using unbound_listener_stops_run [of meta "''_on_change''" True speed_fn
      "projr (properties_prop meta False (VStr ''_on_change'') True speed_fn)"
      Map.empty "\<lparr>dict = Map.empty\<rparr>" "[VNone, VInt 30, VInt 50]" "(VNone, VInt 30)"
      "[(VInt 30, VInt 50)]" "''speed''"]
  by (simp add: properties_prop_cases example_defs backing_def py_ne_def mark_dirty_def setattr_def)

end
