(* ===== verification/Setter_Threads.thy ===== *)
theory Setter_Threads
  imports Write_Runs "HOL-Library.Multiset"
begin

text \<open>
  Calls of one setter from several threads on one instance, with no
  synchronisation.  A call is at one of the statements of the setter (lines 74
  to 79 of the source); a step executes one statement, which reads or writes
  the instance at most once.  A configuration is the list of the calls in
  progress and the shared instance; \<open>sys_step\<close> lets any unfinished call take
  its next step, and \<open>run_schedule\<close> does so for a given list of thread
  numbers.  The call of the listener is one step: the body of a listener is
  taken to run without interruption and to return or raise, as one that
  appends to a list or holds a lock of its own does; that the calls end is
  therefore a property of this model (\<open>interleavings_terminate\<close>) and no claim
  about listeners.  The lemmas show that a call that runs without interruption
  is the setter as the theory \<open>Properties\<close> has it, what holds of the
  notifications in every interleaving, that under every fair schedule a
  change of the value the field had at the start is notified, that two calls
  that both read before either writes notify an old value that the field no
  longer held, and what holds of the field and the dirty flag when the setter
  has no listener.
\<close>

section \<open>Calls in progress\<close>

datatype pc = Read | Compare | Write | Dirty | Notify | Done | Failed error

record thread =
  t_pc :: pc
  t_new :: val
  t_old :: val

text \<open>
  The variables that the closure \<^verbatim>\<open>setter\<close> captures, and the methods of the
  instance's class.  Without a listener the closure is the one of lines 81 to
  85, whose test of line 82 is the steps \<open>Read\<close> and \<open>Compare\<close>.
\<close>

record 'a setter =
  s_field :: name
  s_listener :: "name option"
  s_auto_dirty :: bool
  s_methods :: "'a methods"

definition call :: "val \<Rightarrow> thread" where
  "call new = \<lparr>t_pc = Read, t_new = new, t_old = VNone\<rparr>"

fun finished :: "pc \<Rightarrow> bool" where
  "finished Done = True"
| "finished (Failed e) = True"
| "finished p = False"

definition thread_step ::
  "'a setter \<Rightarrow> thread \<Rightarrow> 'a inst_scheme \<Rightarrow> thread \<times> 'a inst_scheme" where
  "thread_step c t inst =
     (case t_pc t of
        Read \<Rightarrow> (t\<lparr>t_pc := Compare, t_old := getattr_default inst (s_field c) VNone\<rparr>, inst)
      | Compare \<Rightarrow> (t\<lparr>t_pc := (if py_ne (t_old t) (t_new t) then Write else Done)\<rparr>, inst)
      | Write \<Rightarrow> (t\<lparr>t_pc := Dirty\<rparr>, setattr inst (s_field c) (t_new t))
      | Dirty \<Rightarrow>
          (t\<lparr>t_pc := (if s_listener c = None then Done else Notify)\<rparr>,
           mark_dirty (s_auto_dirty c) inst)
      | Notify \<Rightarrow>
          (case s_listener c of
             None \<Rightarrow> (t\<lparr>t_pc := Done\<rparr>, inst)
           | Some lname \<Rightarrow>
               (case call_method (s_methods c) inst lname (s_field c) (t_old t) (t_new t) of
                  Return r inst' \<Rightarrow> (t\<lparr>t_pc := Done\<rparr>, inst')
                | Raise e inst' \<Rightarrow> (t\<lparr>t_pc := Failed e\<rparr>, inst')))
      | Done \<Rightarrow> (t, inst)
      | Failed e \<Rightarrow> (t, inst))"

section \<open>Configurations and schedules\<close>

type_synonym 'a config = "thread list \<times> 'a inst_scheme"

inductive sys_step :: "'a setter \<Rightarrow> 'a config \<Rightarrow> 'a config \<Rightarrow> bool" for c where
  pick: "i < length ts \<Longrightarrow> \<not> finished (t_pc (ts ! i)) \<Longrightarrow>
         thread_step c (ts ! i) inst = (t', inst') \<Longrightarrow>
         sys_step c (ts, inst) (ts[i := t'], inst')"

inductive_cases sys_stepE: "sys_step c (ts, inst) cfg'"

definition sched_step :: "'a setter \<Rightarrow> 'a config \<Rightarrow> nat \<Rightarrow> 'a config" where
  "sched_step c cfg i =
     (case cfg of
        (ts, inst) \<Rightarrow>
          if i < length ts \<and> \<not> finished (t_pc (ts ! i))
          then (case thread_step c (ts ! i) inst of (t', inst') \<Rightarrow> (ts[i := t'], inst'))
          else cfg)"

definition run_schedule :: "'a setter \<Rightarrow> nat list \<Rightarrow> 'a config \<Rightarrow> 'a config" where
  "run_schedule c sched cfg = foldl (sched_step c) cfg sched"

text \<open>The statements a call has still to execute, at most.\<close>

fun remaining :: "pc \<Rightarrow> nat" where
  "remaining Read = 5"
| "remaining Compare = 4"
| "remaining Write = 3"
| "remaining Dirty = 2"
| "remaining Notify = 1"
| "remaining Done = 0"
| "remaining (Failed e) = 0"

definition work :: "'a config \<Rightarrow> nat" where
  "work cfg = sum_list (map (\<lambda>t. remaining (t_pc t)) (fst cfg))"

text \<open>The setter as one call: the closure that the decorator would build.\<close>

definition setter_call :: "'a setter \<Rightarrow> 'a inst_scheme \<Rightarrow> val \<Rightarrow> (val, 'a inst_scheme) outcome" where
  "setter_call c inst new =
     (case s_listener c of
        None \<Rightarrow> setter_plain (s_field c) (s_auto_dirty c) inst new
      | Some lname \<Rightarrow> setter_listener (s_field c) lname (s_auto_dirty c) (s_methods c) inst new)"

text \<open>The variables that the setter of a declaration captures (lines 58 to 71).\<close>

definition closure :: "'sc properties \<Rightarrow> val \<Rightarrow> bool \<Rightarrow> 'a pyfun \<Rightarrow> 'a methods \<Rightarrow> 'a setter" where
  "closure self listener auto_dirty f mt =
     \<lparr>s_field = backing (fn_name f),
      s_listener = (if truthy listener then Some (listener_name_of listener) else None),
      s_auto_dirty = (p_auto_dirty self \<or> auto_dirty),
      s_methods = mt\<rparr>"

section \<open>Laws of a step\<close>

lemma remaining_0_iff [simp]: "remaining p = 0 \<longleftrightarrow> finished p"
  by (cases p) simp_all

lemma remaining_finished [simp]: "finished p \<Longrightarrow> remaining p = 0"
  by simp

lemma thread_step_remaining:
  assumes "\<not> finished (t_pc t)"
  shows "remaining (t_pc (fst (thread_step c t inst))) < remaining (t_pc t)"
  using assms
  by (cases "t_pc t") (auto simp: thread_step_def split: option.splits outcome.splits)

lemma thread_step_new [simp]: "t_new (fst (thread_step c t inst)) = t_new t"
  by (cases "t_pc t") (auto simp: thread_step_def split: option.splits outcome.splits)

lemma map_new_step:
  assumes "i < length ts" and "thread_step c (ts ! i) inst = (t', inst')"
  shows "map t_new (ts[i := t']) = map t_new ts"
proof -
  from assms(2) have "t_new t' = t_new (ts ! i)"
    using thread_step_new [of c "ts ! i" inst] by simp
  with assms(1) show ?thesis by (simp add: map_update list_update_same_conv)
qed

lemma sched_step_simps:
  "i < length ts \<Longrightarrow> \<not> finished (t_pc (ts ! i)) \<Longrightarrow>
   sched_step c (ts, inst) i =
     (ts[i := fst (thread_step c (ts ! i) inst)], snd (thread_step c (ts ! i) inst))"
  "\<not> i < length ts \<or> finished (t_pc (ts ! i)) \<Longrightarrow> sched_step c (ts, inst) i = (ts, inst)"
  by (auto simp: sched_step_def split: prod.splits)

lemma run_schedule_simps [simp]:
  "run_schedule c [] cfg = cfg"
  "run_schedule c (i # sched) cfg = run_schedule c sched (sched_step c cfg i)"
  "run_schedule c (xs @ ys) cfg = run_schedule c ys (run_schedule c xs cfg)"
  by (simp_all add: run_schedule_def)

lemma length_sched_step [simp]: "length (fst (sched_step c cfg i)) = length (fst cfg)"
  by (cases cfg) (auto simp: sched_step_def split: prod.splits)

lemma length_run_schedule [simp]: "length (fst (run_schedule c sched cfg)) = length (fst cfg)"
  by (induction sched arbitrary: cfg) simp_all

section \<open>A call without interruption\<close>

definition steps :: "'a setter \<Rightarrow> nat \<Rightarrow> thread \<times> 'a inst_scheme \<Rightarrow> thread \<times> 'a inst_scheme" where
  "steps c n = (\<lambda>(t, inst). thread_step c t inst) ^^ n"

definition returned :: "thread \<Rightarrow> val \<Rightarrow> (val, 'a inst_scheme) outcome \<Rightarrow> thread" where
  "returned t old r =
     \<lparr>t_pc = (case raised r of None \<Rightarrow> Done | Some e \<Rightarrow> Failed e), t_new = t_new t, t_old = old\<rparr>"

lemma steps_simps [simp]:
  "steps c 0 x = x"
  "steps c (Suc n) (t, inst) = steps c n (thread_step c t inst)"
  by (simp_all add: steps_def funpow_swap1 split: prod.splits)

lemma thread_step_finished [simp]: "finished (t_pc t) \<Longrightarrow> thread_step c t inst = (t, inst)"
  by (cases "t_pc t") (simp_all add: thread_step_def)

lemma steps_finished [simp]: "finished (t_pc t) \<Longrightarrow> steps c n (t, inst) = (t, inst)"
  by (induction n) simp_all

lemma steps_add: "steps c (m + n) x = steps c n (steps c m x)"
  by (simp add: steps_def funpow_add add.commute [of m n])

lemma thread_step_pc:
  "t_pc t = Read \<Longrightarrow>
   thread_step c t inst = (t\<lparr>t_pc := Compare, t_old := getattr_default inst (s_field c) VNone\<rparr>, inst)"
  "t_pc t = Compare \<Longrightarrow>
   thread_step c t inst = (t\<lparr>t_pc := (if py_ne (t_old t) (t_new t) then Write else Done)\<rparr>, inst)"
  "t_pc t = Write \<Longrightarrow> thread_step c t inst = (t\<lparr>t_pc := Dirty\<rparr>, setattr inst (s_field c) (t_new t))"
  "t_pc t = Dirty \<Longrightarrow>
   thread_step c t inst =
     (t\<lparr>t_pc := (if s_listener c = None then Done else Notify)\<rparr>, mark_dirty (s_auto_dirty c) inst)"
  "t_pc t = Notify \<Longrightarrow> s_listener c = Some lname \<Longrightarrow>
   thread_step c t inst =
     (case call_method (s_methods c) inst lname (s_field c) (t_old t) (t_new t) of
        Return r inst' \<Rightarrow> (t\<lparr>t_pc := Done\<rparr>, inst')
      | Raise e inst' \<Rightarrow> (t\<lparr>t_pc := Failed e\<rparr>, inst'))"
  by (simp_all add: thread_step_def)

lemma call_alone:
  assumes "t_pc t = Read"
  shows "steps c 5 (t, inst) =
     (returned t (getattr_default inst (s_field c) VNone) (setter_call c inst (t_new t)),
      state_of (setter_call c inst (t_new t)))"
proof (cases "s_listener c")
  case None
  with assms show ?thesis
    by (simp add: eval_nat_numeral thread_step_pc setter_call_def setter_plain_def returned_def)
next
  case (Some lname)
  with assms show ?thesis
    by (cases "call_method (s_methods c) (mark_dirty (s_auto_dirty c)
          (setattr inst (s_field c) (t_new t))) lname (s_field c)
          (getattr_default inst (s_field c) VNone) (t_new t)")
       (simp_all add: eval_nat_numeral thread_step_pc setter_call_def setter_listener_def
          returned_def)
qed

lemma sched_step_update:
  "i < length ts \<Longrightarrow>
   sched_step c (ts, inst) i =
     (ts[i := fst (thread_step c (ts ! i) inst)], snd (thread_step c (ts ! i) inst))"
  by (cases "finished (t_pc (ts ! i))") (simp_all add: sched_step_simps)

lemma run_schedule_replicate:
  assumes "i < length ts"
  shows "run_schedule c (replicate n i) (ts, inst) =
     (ts[i := fst (steps c n (ts ! i, inst))], snd (steps c n (ts ! i, inst)))"
  using assms
proof (induction n arbitrary: ts inst)
  case 0
  then show ?case by simp
next
  case (Suc n)
  then show ?case
    by (cases "thread_step c (ts ! i) inst") (simp add: sched_step_update)
qed

section \<open>Every interleaving ends\<close>

lemma sum_list_update_less:
  fixes f :: "'b \<Rightarrow> nat"
  assumes "i < length xs" and "f y < f (xs ! i)"
  shows "sum_list (map f (xs[i := y])) < sum_list (map f xs)"
  using assms
proof (induction xs arbitrary: i)
  case Nil
  then show ?case by simp
next
  case (Cons x xs)
  then show ?case by (cases i) auto
qed

lemma sys_step_work: "sys_step c cfg cfg' \<Longrightarrow> work cfg' < work cfg"
proof (induction rule: sys_step.induct)
  case (pick i ts inst t' inst')
  from pick(2) have "remaining (t_pc (fst (thread_step c (ts ! i) inst))) < remaining (t_pc (ts ! i))"
    by (rule thread_step_remaining)
  with pick(1,3) show ?case
    by (simp add: work_def sum_list_update_less)
qed

lemma sys_steps_work: "(sys_step c ^^ n) cfg cfg' \<Longrightarrow> n + work cfg' \<le> work cfg"
proof (induction n arbitrary: cfg')
  case 0
  then show ?case by simp
next
  case (Suc n)
  then obtain mid where "(sys_step c ^^ n) cfg mid" and "sys_step c mid cfg'" by auto
  with Suc.IH [of mid] sys_step_work [of c mid cfg'] show ?case by simp
qed

text \<open>
  The step relation has no infinite run: every step leaves its call with fewer
  statements to execute.  This is so by the construction of the machine, in
  which the call of a listener is one step that returns or raises.
\<close>

lemma interleavings_terminate: "wf {(cfg', cfg). sys_step c cfg cfg'}"
proof (rule wf_subset)
  show "wf (measure work)" by (rule wf_measure)
  show "{(cfg', cfg). sys_step c cfg cfg'} \<subseteq> measure work"
    by (auto simp: sys_step_work)
qed

lemma work_le: "work (ts, inst) \<le> 5 * length ts"
proof (induction ts)
  case Nil
  show ?case by (simp add: work_def)
next
  case (Cons t ts)
  have "remaining (t_pc t) \<le> 5" by (cases "t_pc t") simp_all
  with Cons show ?case by (simp add: work_def)
qed

lemma work_0_iff: "work (ts, inst) = 0 \<longleftrightarrow> (\<forall>t \<in> set ts. finished (t_pc t))"
  by (induction ts) (simp_all add: work_def)

text \<open>A step is possible exactly while some call is unfinished.\<close>

lemma sys_step_enabled_iff:
  "(\<exists>cfg'. sys_step c (ts, inst) cfg') \<longleftrightarrow> (\<exists>t \<in> set ts. \<not> finished (t_pc t))"
proof
  assume "\<exists>cfg'. sys_step c (ts, inst) cfg'"
  then show "\<exists>t \<in> set ts. \<not> finished (t_pc t)"
    by (auto elim!: sys_stepE)
next
  assume "\<exists>t \<in> set ts. \<not> finished (t_pc t)"
  then obtain i where "i < length ts" and "\<not> finished (t_pc (ts ! i))"
    by (auto simp: in_set_conv_nth)
  then have "sys_step c (ts, inst)
      (ts[i := fst (thread_step c (ts ! i) inst)], snd (thread_step c (ts ! i) inst))"
    by (intro sys_step.pick) simp_all
  then show "\<exists>cfg'. sys_step c (ts, inst) cfg'" ..
qed

text \<open>A schedule is a run of the step relation, and every run is a schedule.\<close>

lemma sched_step_sys_step:
  "sched_step c cfg i = cfg \<or> sys_step c cfg (sched_step c cfg i)"
proof (cases cfg)
  case (Pair ts inst)
  show ?thesis
  proof (cases "i < length ts \<and> \<not> finished (t_pc (ts ! i))")
    case True
    then have "sys_step c (ts, inst)
        (ts[i := fst (thread_step c (ts ! i) inst)], snd (thread_step c (ts ! i) inst))"
      by (intro sys_step.pick) simp_all
    with True Pair show ?thesis by (simp add: sched_step_simps)
  next
    case False
    with Pair show ?thesis by (auto simp: sched_step_simps)
  qed
qed

lemma run_schedule_reaches: "(sys_step c)\<^sup>*\<^sup>* cfg (run_schedule c sched cfg)"
proof (induction sched arbitrary: cfg)
  case Nil
  show ?case by simp
next
  case (Cons i sched)
  from sched_step_sys_step [of c cfg i] have "(sys_step c)\<^sup>*\<^sup>* cfg (sched_step c cfg i)" by auto
  with Cons [of "sched_step c cfg i"] show ?case by simp
qed

lemma sys_step_sched_step: "sys_step c cfg cfg' \<Longrightarrow> \<exists>i. cfg' = sched_step c cfg i"
proof (induction rule: sys_step.induct)
  case (pick i ts inst t' inst')
  then have "(ts[i := t'], inst') = sched_step c (ts, inst) i" by (simp add: sched_step_simps)
  then show ?case ..
qed

lemma reaches_run_schedule:
  "(sys_step c)\<^sup>*\<^sup>* cfg cfg' \<Longrightarrow> \<exists>sched. cfg' = run_schedule c sched cfg"
proof (induction rule: rtranclp_induct)
  case base
  have "cfg = run_schedule c [] cfg" by simp
  then show ?case ..
next
  case (step mid cfg')
  then obtain sched i where "mid = run_schedule c sched cfg" and "cfg' = sched_step c mid i"
    using sys_step_sched_step by blast
  then have "cfg' = run_schedule c (sched @ [i]) cfg" by simp
  then show ?case ..
qed

section \<open>What holds in every interleaving\<close>

text \<open>
  A call has notified when it is done and its comparison found a difference.
  The invariant of the calls of a setter whose listener records: the listener
  stays in place, the calls are those that were started, a call that has
  passed its comparison found a difference, no call has failed, the values
  read and stored are the initial value or arguments of the calls, and the
  record holds, besides what it held at the start, one entry for each call
  that has notified.
\<close>

definition notified :: "thread \<Rightarrow> bool" where
  "notified t \<longleftrightarrow> t_pc t = Done \<and> py_ne (t_old t) (t_new t)"

definition notice :: "name \<Rightarrow> thread \<Rightarrow> val" where
  "notice field t = entry field (t_old t, t_new t)"

definition notices :: "name \<Rightarrow> thread list \<Rightarrow> val multiset" where
  "notices field ts = image_mset (notice field) (filter_mset notified (mset ts))"

definition thread_ok :: "val set \<Rightarrow> thread \<Rightarrow> bool" where
  "thread_ok vals t \<longleftrightarrow>
     (t_pc t \<in> {Write, Dirty, Notify} \<longrightarrow> py_ne (t_old t) (t_new t)) \<and>
     (\<forall>e. t_pc t \<noteq> Failed e) \<and>
     (t_pc t \<noteq> Read \<longrightarrow> t_old t \<in> vals)"

definition calls_inv ::
  "'a setter \<Rightarrow> name \<Rightarrow> val \<Rightarrow> val list \<Rightarrow> val list \<Rightarrow> 'a config \<Rightarrow> bool" where
  "calls_inv c lname cur vs log0 cfg \<longleftrightarrow>
     recording (s_methods c) lname (s_field c) (snd cfg) \<and>
     map t_new (fst cfg) = vs \<and>
     (\<forall>t \<in> set (fst cfg). thread_ok (insert cur (set vs)) t) \<and>
     getattr_default (snd cfg) (s_field c) VNone \<in> insert cur (set vs) \<and>
     mset (log_of (snd cfg)) = mset log0 + notices (s_field c) (fst cfg)"

lemma notices_update:
  assumes "i < length ts" and "\<not> notified (ts ! i)"
  shows "notices field (ts[i := t]) =
     notices field ts + (if notified t then {#notice field t#} else {#})"
proof -
  from assms(2) have "filter_mset notified (mset ts - {#ts ! i#}) = filter_mset notified (mset ts)"
    by (simp add: filter_diff_mset)
  with assms(1) show ?thesis by (simp add: notices_def mset_update)
qed

lemma notices_call [simp]: "notices field (map call vs) = {#}"
  by (induction vs) (simp_all add: notices_def notified_def call_def)

lemma calls_inv_start:
  assumes "recording (s_methods c) lname (s_field c) inst"
  shows "calls_inv c lname (getattr_default inst (s_field c) VNone) vs (log_of inst) (map call vs, inst)"
  using assms by (auto simp: calls_inv_def thread_ok_def call_def comp_def)

lemma recording_written:
  "recording mt lname field inst \<Longrightarrow> recording mt lname field (setattr inst field v)"
  "recording mt lname field inst \<Longrightarrow> recording mt lname field (mark_dirty ad inst)"
  "recording mt lname field inst \<Longrightarrow> recording mt lname field (setattr inst ''_log'' l)"
  "recording mt lname field inst \<Longrightarrow> recording mt lname field (setattr inst ''_is_dirty'' b)"
  by (auto simp: recording_def mark_dirty_def)

lemma recording_call:
  "recording mt lname field inst \<Longrightarrow>
   call_method mt inst lname fld old new =
     Return VNone (setattr inst ''_log'' (VTuple (log_of inst @ [entry fld (old, new)])))"
  by (simp add: recording_def call_method_def log_listener_eq)

lemma step_effect:
  assumes "s_listener c = Some lname" and "recording (s_methods c) lname (s_field c) inst"
    and "thread_ok vals t" and "\<not> finished (t_pc t)"
    and "getattr_default inst (s_field c) VNone \<in> vals" and "t_new t \<in> vals"
    and "thread_step c t inst = (t', inst')"
  shows "recording (s_methods c) lname (s_field c) inst'"
    and "thread_ok vals t'"
    and "getattr_default inst' (s_field c) VNone \<in> vals"
    and "\<not> notified t"
    and "log_of inst' = log_of inst @ (if notified t' then [notice (s_field c) t'] else [])"
proof -
  from assms(2) have names: "s_field c \<noteq> ''_log''" "s_field c \<noteq> ''_is_dirty''"
    by (auto simp: recording_def)
  from assms(4) show "\<not> notified t" by (auto simp: notified_def)
  from assms(4) consider "t_pc t = Read" | "t_pc t = Compare" | "t_pc t = Write"
    | "t_pc t = Dirty" | "t_pc t = Notify"
    by (cases "t_pc t") simp_all
  then have "recording (s_methods c) lname (s_field c) inst' \<and> thread_ok vals t' \<and>
      getattr_default inst' (s_field c) VNone \<in> vals \<and>
      log_of inst' = log_of inst @ (if notified t' then [notice (s_field c) t'] else [])"
  proof cases
    case 1
    with assms show ?thesis by (auto simp: thread_step_pc thread_ok_def notified_def)
  next
    case 2
    with assms show ?thesis
      by (auto simp: thread_step_pc thread_ok_def notified_def split: if_splits)
  next
    case 3
    with assms names show ?thesis
      by (auto simp: thread_step_pc thread_ok_def notified_def recording_written)
  next
    case 4
    with assms names show ?thesis
      by (auto simp: thread_step_pc thread_ok_def notified_def recording_written
          getattr_default_def mark_dirty_def)
  next
    case 5
    with assms names show ?thesis
      by (auto simp: thread_step_pc thread_ok_def notified_def recording_written recording_call
          notice_def getattr_default_def)
  qed
  then show "recording (s_methods c) lname (s_field c) inst'" and "thread_ok vals t'"
    and "getattr_default inst' (s_field c) VNone \<in> vals"
    and "log_of inst' = log_of inst @ (if notified t' then [notice (s_field c) t'] else [])"
    by simp_all
qed

lemma calls_inv_step:
  assumes "s_listener c = Some lname" and "calls_inv c lname cur vs log0 cfg" and "sys_step c cfg cfg'"
  shows "calls_inv c lname cur vs log0 cfg'"
  using assms(3)
proof cases
  case (pick i ts inst t' inst')
  let ?vals = "insert cur (set vs)"
  from assms(2) pick(1) have inv: "recording (s_methods c) lname (s_field c) inst"
    "map t_new ts = vs" "\<forall>t \<in> set ts. thread_ok ?vals t"
    "getattr_default inst (s_field c) VNone \<in> ?vals"
    "mset (log_of inst) = mset log0 + notices (s_field c) ts"
    by (simp_all add: calls_inv_def)
  from inv(2) pick(3) have new: "t_new (ts ! i) \<in> ?vals"
    by (metis insertCI nth_map nth_mem length_map)
  from inv(3) pick(3) have ok: "thread_ok ?vals (ts ! i)" by simp
  note eff = step_effect [OF assms(1) inv(1) ok pick(4) inv(4) new pick(5)]
  from inv(2) have "map t_new (ts[i := t']) = vs"
    by (simp add: map_new_step [OF pick(3,5)])
  moreover from inv(3) eff(2) have "\<forall>t \<in> set (ts[i := t']). thread_ok ?vals t"
    using set_update_subset_insert [of ts i t'] by auto
  moreover from inv(5) eff(4,5) pick(3)
  have "mset (log_of inst') = mset log0 + notices (s_field c) (ts[i := t'])"
    by (simp add: notices_update)
  ultimately show ?thesis
    using eff(1,3) pick(2) by (simp add: calls_inv_def)
qed

lemma calls_inv_reaches:
  assumes "s_listener c = Some lname" and "calls_inv c lname cur vs log0 cfg"
    and "(sys_step c)\<^sup>*\<^sup>* cfg cfg'"
  shows "calls_inv c lname cur vs log0 cfg'"
  using assms(3,2)
  by (induction rule: rtranclp_induct) (auto intro: calls_inv_step [OF assms(1)])

lemma size_notices: "size (notices field ts) \<le> length ts"
proof -
  have "size (filter_mset notified (mset ts)) \<le> size (mset ts)"
    by (rule size_filter_mset_lesseq)
  then show ?thesis by (simp add: notices_def)
qed

section \<open>The call that writes first and the call that writes last\<close>

text \<open>
  A call has written when it has executed line 76.  While no call has written,
  the field holds the value it had at the start and every call that has read
  has read that value; once a call has written, some call that has written
  had read the value of the start, and the field holds the argument of a call
  that has written.
\<close>

definition wrote :: "thread \<Rightarrow> bool" where
  "wrote t \<longleftrightarrow> t_pc t = Dirty \<or> t_pc t = Notify \<or> notified t"

definition first_inv :: "'a setter \<Rightarrow> val \<Rightarrow> 'a config \<Rightarrow> bool" where
  "first_inv c cur cfg \<longleftrightarrow>
     (if list_ex wrote (fst cfg)
      then list_ex (\<lambda>t. wrote t \<and> t_old t = cur) (fst cfg) \<and>
           list_ex (\<lambda>t. wrote t \<and> t_new t = getattr_default (snd cfg) (s_field c) VNone) (fst cfg)
      else getattr_default (snd cfg) (s_field c) VNone = cur \<and>
           list_all (\<lambda>t. t_pc t = Read \<or> t_old t = cur) (fst cfg))"

lemma first_inv_start:
  "first_inv c (getattr_default inst (s_field c) VNone) (map call vs, inst)"
  by (simp add: first_inv_def list_ex_iff list_all_iff wrote_def notified_def call_def)

text \<open>
  The effect of a step on the call that takes it: a call that has written
  stays so and leaves the field alone, the step that makes a call one that
  has written stores its argument, and any other step leaves the field alone.
\<close>

lemma wrote_step:
  assumes "s_listener c = Some lname" and "recording (s_methods c) lname (s_field c) inst"
    and "thread_ok vals t" and "\<not> finished (t_pc t)" and "thread_step c t inst = (t', inst')"
  shows "wrote t \<Longrightarrow> wrote t' \<and> t_old t' = t_old t \<and>
           getattr_default inst' (s_field c) VNone = getattr_default inst (s_field c) VNone"
    and "\<not> wrote t \<Longrightarrow> wrote t' \<Longrightarrow>
           t_pc t \<noteq> Read \<and> t_old t' = t_old t \<and> getattr_default inst' (s_field c) VNone = t_new t'"
    and "\<not> wrote t' \<Longrightarrow>
         getattr_default inst' (s_field c) VNone = getattr_default inst (s_field c) VNone \<and>
         t_old t' = (if t_pc t = Read then getattr_default inst (s_field c) VNone else t_old t)"
  using assms
  by (cases "t_pc t";
      auto simp: thread_step_pc wrote_def notified_def thread_ok_def recording_call recording_def
        mark_dirty_def getattr_default_def split: if_splits)+

lemma written_step:
  assumes "s_listener c = Some lname" and "recording (s_methods c) lname (s_field c) inst"
    and "thread_ok vals (ts ! i)" and "\<not> finished (t_pc (ts ! i))"
    and "thread_step c (ts ! i) inst = (t', inst')" and "i < length ts"
    and u: "u \<in> set ts" "wrote u \<and> t_old u = cur"
    and v: "v \<in> set ts" "wrote v \<and> t_new v = getattr_default inst (s_field c) VNone"
  shows "(\<exists>u \<in> set (ts[i := t']). wrote u \<and> t_old u = cur) \<and>
         (\<exists>u \<in> set (ts[i := t']). wrote u \<and> t_new u = getattr_default inst' (s_field c) VNone)"
proof
  note eff = wrote_step [OF assms(1-5)]
  from u eff(1) show "\<exists>u \<in> set (ts[i := t']). wrote u \<and> t_old u = cur"
    by (intro list_update_keeps_witness [OF u(1) _ assms(6)]) auto
  show "\<exists>u \<in> set (ts[i := t']). wrote u \<and> t_new u = getattr_default inst' (s_field c) VNone"
  proof (cases "wrote t' \<and> \<not> wrote (ts ! i)")
    case True
    with eff(2) set_update_memI [OF assms(6), of t'] show ?thesis by auto
  next
    case False
    with eff(1,3)
    have "getattr_default inst' (s_field c) VNone = getattr_default inst (s_field c) VNone"
      by auto
    with v eff(1) thread_step_new [of c "ts ! i" inst] assms(5) show ?thesis
      by (intro list_update_keeps_witness [OF v(1) _ assms(6)]) auto
  qed
qed

lemma unwritten_step:
  assumes "s_listener c = Some lname" and "recording (s_methods c) lname (s_field c) inst"
    and "thread_ok vals (ts ! i)" and "\<not> finished (t_pc (ts ! i))"
    and "thread_step c (ts ! i) inst = (t', inst')" and "i < length ts"
    and none: "\<forall>u \<in> set ts. \<not> wrote u"
    and cur: "getattr_default inst (s_field c) VNone = cur"
    and old: "\<forall>u \<in> set ts. t_pc u = Read \<or> t_old u = cur"
  shows "first_inv c cur (ts[i := t'], inst')"
proof -
  note eff = wrote_step [OF assms(1-5)]
  from none old assms(6) have t: "t_pc (ts ! i) = Read \<or> t_old (ts ! i) = cur" "\<not> wrote (ts ! i)"
    by auto
  show ?thesis
  proof (cases "wrote t'")
    case True
    with eff(2) t set_update_memI [OF assms(6), of t'] show ?thesis
      by (auto simp: first_inv_def list_ex_iff)
  next
    case False
    with none have "\<not> (\<exists>u \<in> set (ts[i := t']). wrote u)"
      by (auto dest: in_set_update_cases)
    moreover from eff(3) False cur t
    have "getattr_default inst' (s_field c) VNone = cur" "t_pc t' = Read \<or> t_old t' = cur"
      by (auto split: if_splits)
    moreover from this(2) old have "\<forall>u \<in> set (ts[i := t']). t_pc u = Read \<or> t_old u = cur"
      by (auto dest: in_set_update_cases)
    ultimately show ?thesis by (simp add: first_inv_def list_ex_iff list_all_iff)
  qed
qed

lemma first_inv_step:
  assumes "s_listener c = Some lname" and "calls_inv c lname cur vs log0 cfg"
    and "first_inv c cur cfg" and "sys_step c cfg cfg'"
  shows "first_inv c cur cfg'"
  using assms(4)
proof cases
  case (pick i ts inst t' inst')
  from assms(2) pick(1,3) have "recording (s_methods c) lname (s_field c) inst"
    and "thread_ok (insert cur (set vs)) (ts ! i)"
    by (simp_all add: calls_inv_def)
  note step = this pick(4,5,3)
  show ?thesis
  proof (cases "\<exists>u \<in> set ts. wrote u")
    case True
    with assms(3) pick(1) obtain u v where "u \<in> set ts" "wrote u \<and> t_old u = cur"
      and "v \<in> set ts" "wrote v \<and> t_new v = getattr_default inst (s_field c) VNone"
      by (auto simp: first_inv_def list_ex_iff)
    from written_step [OF assms(1) step this] pick(2) show ?thesis
      by (auto simp: first_inv_def list_ex_iff)
  next
    case False
    with assms(3) pick(1) have "\<forall>u \<in> set ts. \<not> wrote u"
      and "getattr_default inst (s_field c) VNone = cur"
      and "\<forall>u \<in> set ts. t_pc u = Read \<or> t_old u = cur"
      by (auto simp: first_inv_def list_ex_iff list_all_iff)
    from unwritten_step [OF assms(1) step this] pick(2) show ?thesis by simp
  qed
qed

lemma first_inv_reaches:
  assumes "s_listener c = Some lname" and "calls_inv c lname cur vs log0 cfg"
    and "first_inv c cur cfg" and "(sys_step c)\<^sup>*\<^sup>* cfg cfg'"
  shows "first_inv c cur cfg'"
  using assms(4,2,3)
proof (induction rule: rtranclp_induct)
  case base
  then show ?case by simp
next
  case (step mid cfg')
  from step.prems(1) step.hyps(1) have "calls_inv c lname cur vs log0 mid"
    by (rule calls_inv_reaches [OF assms(1)])
  with step show ?case by (blast intro: first_inv_step [OF assms(1)])
qed

text \<open>What the invariants give once every call has ended.\<close>

lemma calls_all_done:
  assumes "calls_inv c lname cur vs log0 (ts, inst)" and "list_all (\<lambda>t. finished (t_pc t)) ts"
  shows "\<forall>u \<in> set ts. t_pc u = Done"
proof
  fix u assume "u \<in> set ts"
  with assms have "finished (t_pc u)" and "\<forall>e. t_pc u \<noteq> Failed e"
    by (auto simp: calls_inv_def thread_ok_def list_all_iff)
  then show "t_pc u = Done" by (cases "t_pc u") simp_all
qed

lemma written_is_recorded:
  assumes "calls_inv c lname cur vs log0 (ts, inst)" and "list_all (\<lambda>t. finished (t_pc t)) ts"
    and "u \<in> set ts" and "wrote u"
  shows "py_ne (t_old u) (t_new u) \<and> t_new u \<in> set vs \<and>
     0 < count_list (log_of inst) (entry (s_field c) (t_old u, t_new u)) -
         count_list log0 (entry (s_field c) (t_old u, t_new u))"
proof -
  from calls_all_done [OF assms(1,2)] assms(3,4) have n: "notified u" by (auto simp: wrote_def)
  with assms(3) have "notice (s_field c) u \<in># notices (s_field c) ts"
    by (auto simp: notices_def)
  moreover from assms(1) have "mset (log_of inst) = mset log0 + notices (s_field c) ts"
    and "map t_new ts = vs"
    by (simp_all add: calls_inv_def)
  ultimately show ?thesis using n assms(3)
    by (auto simp: count_mset [symmetric] notice_def notified_def)
qed

section \<open>Races of a setter without listener\<close>

text \<open>
  The invariant of the calls of the setter of lines 81 to 85, for a field
  other than the dirty flag: the calls are those that were started, none has
  failed or waits to notify, the field holds its first value or the argument
  of a call, and with \<^verbatim>\<open>auto_dirty\<close> the flag is set as soon as one call is done
  that found a difference.
\<close>

definition plain_inv :: "'a setter \<Rightarrow> val \<Rightarrow> val list \<Rightarrow> 'a config \<Rightarrow> bool" where
  "plain_inv c cur vs cfg \<longleftrightarrow>
     map t_new (fst cfg) = vs \<and>
     (\<forall>t \<in> set (fst cfg). thread_ok (insert cur (set vs)) t \<and> t_pc t \<noteq> Notify) \<and>
     getattr_default (snd cfg) (s_field c) VNone \<in> insert cur (set vs) \<and>
     (s_auto_dirty c \<and> (\<exists>t \<in> set (fst cfg). notified t) \<longrightarrow>
        dict (snd cfg) ''_is_dirty'' = Some (VBool True))"

lemma plain_inv_start:
  "plain_inv c (getattr_default inst (s_field c) VNone) vs (map call vs, inst)"
  by (auto simp: plain_inv_def thread_ok_def call_def comp_def notified_def)

lemma plain_step_effect:
  assumes "s_listener c = None" and "s_field c \<noteq> ''_is_dirty''"
    and "thread_ok vals t" and "\<not> finished (t_pc t)" and "t_pc t \<noteq> Notify"
    and "getattr_default inst (s_field c) VNone \<in> vals" and "t_new t \<in> vals"
    and "thread_step c t inst = (t', inst')"
  shows "thread_ok vals t' \<and> t_pc t' \<noteq> Notify \<and>
     getattr_default inst' (s_field c) VNone \<in> vals \<and>
     (if s_auto_dirty c \<and> notified t' then dict inst' ''_is_dirty'' = Some (VBool True)
      else dict inst' ''_is_dirty'' = dict inst ''_is_dirty'')"
proof -
  from assms(4,5) consider "t_pc t = Read" | "t_pc t = Compare" | "t_pc t = Write" | "t_pc t = Dirty"
    by (cases "t_pc t") simp_all
  then show ?thesis
  proof cases
    case 1
    with assms show ?thesis by (auto simp: thread_step_pc thread_ok_def notified_def)
  next
    case 2
    with assms show ?thesis
      by (auto simp: thread_step_pc thread_ok_def notified_def split: if_splits)
  next
    case 3
    with assms show ?thesis by (auto simp: thread_step_pc thread_ok_def notified_def)
  next
    case 4
    with assms show ?thesis
      by (auto simp: thread_step_pc thread_ok_def notified_def getattr_default_def mark_dirty_def)
  qed
qed

lemma plain_inv_step:
  assumes "s_listener c = None" and "s_field c \<noteq> ''_is_dirty''"
    and "plain_inv c cur vs cfg" and "sys_step c cfg cfg'"
  shows "plain_inv c cur vs cfg'"
  using assms(4)
proof cases
  case (pick i ts inst t' inst')
  let ?vals = "insert cur (set vs)"
  from assms(3) pick(1) have inv: "map t_new ts = vs"
    "\<forall>t \<in> set ts. thread_ok ?vals t \<and> t_pc t \<noteq> Notify"
    "getattr_default inst (s_field c) VNone \<in> ?vals"
    "s_auto_dirty c \<and> (\<exists>t \<in> set ts. notified t) \<longrightarrow> dict inst ''_is_dirty'' = Some (VBool True)"
    by (simp_all add: plain_inv_def)
  from inv(1) pick(3) have new: "t_new (ts ! i) \<in> ?vals"
    by (metis insertCI nth_map nth_mem length_map)
  from inv(2) pick(3) have ok: "thread_ok ?vals (ts ! i)" "t_pc (ts ! i) \<noteq> Notify" by simp_all
  note eff = plain_step_effect [OF assms(1,2) ok(1) pick(4) ok(2) inv(3) new pick(5)]
  from inv(1) have "map t_new (ts[i := t']) = vs"
    by (simp add: map_new_step [OF pick(3,5)])
  moreover from inv(2) eff have "\<forall>t \<in> set (ts[i := t']). thread_ok ?vals t \<and> t_pc t \<noteq> Notify"
    using set_update_subset_insert [of ts i t'] by auto
  moreover have "dict inst' ''_is_dirty'' = Some (VBool True)"
    if "s_auto_dirty c" and "u \<in> set (ts[i := t'])" and "notified u" for u
  proof (cases "notified t'")
    case True
    with eff that(1) show ?thesis by simp
  next
    case False
    with that(2,3) have "u \<in> set ts"
      using set_update_subset_insert [of ts i t'] by auto
    with inv(4) that(1,3) False eff show ?thesis by auto
  qed
  ultimately show ?thesis
    using eff pick(2) by (auto simp: plain_inv_def)
qed

lemma plain_inv_reaches:
  assumes "s_listener c = None" and "s_field c \<noteq> ''_is_dirty''"
    and "plain_inv c cur vs cfg" and "(sys_step c)\<^sup>*\<^sup>* cfg cfg'"
  shows "plain_inv c cur vs cfg'"
  using assms(4,3)
  by (induction rule: rtranclp_induct) (auto intro: plain_inv_step [OF assms(1,2)])

section \<open>Calls one after the other\<close>

text \<open>
  The schedule of \<open>n\<close> calls under a lock that each call holds from its first
  statement to its last: call 0 runs to its end, then call 1, and so on.
\<close>

definition serial :: "nat \<Rightarrow> nat list" where
  "serial n = concat (map (replicate 5) [0..<n])"

lemma serial_simps [simp]:
  "serial 0 = []"
  "serial (Suc n) = serial n @ replicate 5 n"
  by (simp_all add: serial_def)

lemma set_serial: "set (serial n) \<subseteq> {..<n}"
  by (induction n) (auto simp: less_Suc_eq)

lemma sched_step_append:
  assumes "i < length ts"
  shows "sched_step c (ts @ us, inst) i =
     (fst (sched_step c (ts, inst) i) @ us, snd (sched_step c (ts, inst) i))"
  using assms by (simp add: sched_step_update nth_append list_update_append)

lemma run_schedule_append_threads:
  assumes "set sched \<subseteq> {..<length ts}"
  shows "run_schedule c sched (ts @ us, inst) =
     (fst (run_schedule c sched (ts, inst)) @ us, snd (run_schedule c sched (ts, inst)))"
  using assms
proof (induction sched arbitrary: ts inst)
  case Nil
  show ?case by simp
next
  case (Cons i sched)
  obtain ts' inst' where step: "sched_step c (ts, inst) i = (ts', inst')"
    by (cases "sched_step c (ts, inst) i")
  then have "length ts' = length ts"
    using length_sched_step [of c "(ts, inst)" i] by simp
  with Cons.prems have "set sched \<subseteq> {..<length ts'}" by simp
  from Cons.IH [OF this] Cons.prems step show ?case
    by (simp add: sched_step_append)
qed

definition after_calls :: "'a setter \<Rightarrow> 'a inst_scheme \<Rightarrow> val list \<Rightarrow> 'a inst_scheme" where
  "after_calls c inst vs = foldl (\<lambda>s v. state_of (setter_call c s v)) inst vs"

lemma after_calls_simps [simp]:
  "after_calls c inst [] = inst"
  "after_calls c inst (v # vs) = after_calls c (state_of (setter_call c inst v)) vs"
  "after_calls c inst (vs @ ws) = after_calls c (after_calls c inst vs) ws"
  by (simp_all add: after_calls_def)

lemma serial_run:
  "snd (run_schedule c (serial (length vs)) (map call vs, inst)) = after_calls c inst vs \<and>
   (\<forall>t \<in> set (fst (run_schedule c (serial (length vs)) (map call vs, inst))). finished (t_pc t))"
proof (induction vs rule: rev_induct)
  case Nil
  show ?case by simp
next
  case (snoc v vs)
  let ?n = "length vs"
  let ?R = "run_schedule c (serial ?n) (map call vs, inst)"
  have len: "length (fst ?R) = ?n" by simp
  have "set (serial ?n) \<subseteq> {..<length (map call vs)}" using set_serial [of ?n] by simp
  then have first: "run_schedule c (serial ?n) (map call vs @ [call v], inst) = (fst ?R @ [call v], snd ?R)"
    by (rule run_schedule_append_threads)
  have "t_pc (call v) = Read" by (simp add: call_def)
  then have alone: "steps c 5 (call v, snd ?R) =
      (returned (call v) (getattr_default (snd ?R) (s_field c) VNone) (setter_call c (snd ?R) v),
       state_of (setter_call c (snd ?R) v))"
    using call_alone [of "call v" c "snd ?R"] by (simp add: call_def)
  have "run_schedule c (replicate 5 ?n) (fst ?R @ [call v], snd ?R) =
      (fst ?R @ [returned (call v) (getattr_default (snd ?R) (s_field c) VNone)
                   (setter_call c (snd ?R) v)],
       state_of (setter_call c (snd ?R) v))"
    using run_schedule_replicate [of ?n "fst ?R @ [call v]" c 5 "snd ?R"] len
    by (simp add: alone nth_append list_update_append)
  with first snoc show ?case
    by (auto simp: returned_def split: option.splits)
qed

section \<open>Fair schedules\<close>

lemma sched_step_remaining:
  assumes "i < length ts"
  shows "remaining (t_pc (fst (sched_step c (ts, inst) j) ! i)) \<le>
     remaining (t_pc (ts ! i)) - (if j = i then 1 else 0)"
proof (cases "j = i \<and> \<not> finished (t_pc (ts ! i))")
  case True
  with assms thread_step_remaining [of "ts ! i" c inst] show ?thesis
    by (simp add: sched_step_simps)
next
  case False
  with assms show ?thesis
    by (cases "j < length ts \<and> \<not> finished (t_pc (ts ! j))") (auto simp: sched_step_simps)
qed

lemma run_schedule_remaining:
  assumes "i < length ts"
  shows "remaining (t_pc (fst (run_schedule c sched (ts, inst)) ! i)) \<le>
     remaining (t_pc (ts ! i)) - count_list sched i"
  using assms
proof (induction sched arbitrary: ts inst)
  case Nil
  show ?case by simp
next
  case (Cons j sched)
  obtain ts' inst' where step: "sched_step c (ts, inst) j = (ts', inst')"
    by (cases "sched_step c (ts, inst) j")
  then have "length ts' = length ts"
    using length_sched_step [of c "(ts, inst)" j] by simp
  with Cons.prems have "i < length ts'" by simp
  from Cons.IH [OF this, of inst'] sched_step_remaining [OF Cons.prems, of c inst j] step
  show ?case by auto
qed

lemma remaining_le_5: "remaining p \<le> 5"
  by (cases p) simp_all

text \<open>
  Once a schedule has given a call five turns the call has finished, so a
  schedule that gives five turns to each call ends with all calls finished.
\<close>

lemma fair_schedule_completes:
  assumes "\<forall>i < length ts. 5 \<le> count_list sched i"
  shows "list_all (\<lambda>t. finished (t_pc t)) (fst (run_schedule c sched (ts, inst)))"
proof -
  have "finished (t_pc (fst (run_schedule c sched (ts, inst)) ! i))" if "i < length ts" for i
  proof -
    from that assms have "5 \<le> count_list sched i" by simp
    then have "remaining (t_pc (ts ! i)) - count_list sched i = 0"
      using remaining_le_5 [of "t_pc (ts ! i)"] by simp
    with run_schedule_remaining [OF that, of c sched inst] show ?thesis by simp
  qed
  then show ?thesis by (simp add: list_all_length)
qed

lemma descr_set_closure:
  assumes "properties_prop self False listener ad f = Inr p"
  shows "descr_set attr p mt inst new = setter_call (closure self listener ad f mt) inst new"
  using assms by (simp add: descr_set_prop setter_call_def closure_def)

lemma closure_simps [simp]:
  "s_field (closure self listener ad f mt) = backing (fn_name f)"
  "s_listener (closure self listener ad f mt) =
     (if truthy listener then Some (listener_name_of listener) else None)"
  "s_auto_dirty (closure self listener ad f mt) = (p_auto_dirty self \<or> ad)"
  "s_methods (closure self listener ad f mt) = mt"
  by (simp_all add: closure_def)

text \<open>
  The setter of the scenarios: the property \<^verbatim>\<open>speed\<close> declared with the listener
  \<^verbatim>\<open>_on_change\<close>, in a class whose \<^verbatim>\<open>_on_change\<close> records its calls.
\<close>

definition speed_setter :: "'a setter" where
  "speed_setter =
     closure meta (VStr ''_on_change'') False speed_fn [''_on_change'' \<mapsto> log_listener]"

lemma speed_setter_simps [simp]:
  "s_field speed_setter = ''_speed''"
  "s_listener speed_setter = Some ''_on_change''"
  "s_auto_dirty speed_setter = False"
  "s_methods speed_setter = [''_on_change'' \<mapsto> log_listener]"
  by (simp_all add: speed_setter_def example_defs backing_def)

lemma recording_speed_setter [simp]:
  "recording [''_on_change'' \<mapsto> log_listener] ''_on_change'' ''_speed'' \<lparr>dict = Map.empty\<rparr>"
  by (simp add: recording_def)

lemma log_of_empty [simp]: "log_of \<lparr>dict = Map.empty, \<dots> = m\<rparr> = []"
  by (simp add: log_of_def)

text \<open>The facts that evaluate a schedule on given calls.\<close>

lemmas schedule_defs =
  sched_step_def thread_step_def call_def call_method_def log_listener_eq log_of_def entry_def
  py_ne_def getattr_default_def setattr_def backing_def

section \<open>Two calls that both read before either writes\<close>

text \<open>
  The record after assignments made one after the other holds the changes of
  the sequence.  In the schedule below both calls read and compare, the second
  writes, the first writes and notifies, the second notifies.
\<close>

lemma entry_inject: "entry f c = entry f d \<longleftrightarrow> c = d"
  by (cases c; cases d) (simp add: entry_def)

lemma log_after_call:
  assumes "s_listener c = Some lname" and "recording (s_methods c) lname (s_field c) inst"
  shows "log_of (state_of (setter_call c inst v)) =
     log_of inst @ map (entry (s_field c)) (changes (getattr_default inst (s_field c) VNone) [v])"
    and "recording (s_methods c) lname (s_field c) (state_of (setter_call c inst v))"
    and "getattr_default (state_of (setter_call c inst v)) (s_field c) VNone =
           stored (getattr_default inst (s_field c) VNone) [v]"
  using assms recording_setter [OF assms(2), of "s_auto_dirty c" v]
    setter_recording_field [OF assms(2), of "s_auto_dirty c" v]
  by (simp_all add: setter_call_def setter_recording)

lemma log_after_calls:
  assumes "s_listener c = Some lname" and "recording (s_methods c) lname (s_field c) inst"
  shows "log_of (after_calls c inst vs) =
     log_of inst @ map (entry (s_field c)) (changes (getattr_default inst (s_field c) VNone) vs)"
  using assms(2)
proof (induction vs arbitrary: inst)
  case Nil
  show ?case by simp
next
  case (Cons v vs)
  note one = log_after_call [OF assms(1) Cons.prems, of v]
  from Cons.IH [OF one(2)] one(1,3) show ?case by auto
qed

lemma race_run:
  assumes "s_listener c = Some lname" and "recording (s_methods c) lname (s_field c) inst"
    and "py_ne (getattr_default inst (s_field c) VNone) v"
    and "py_ne (getattr_default inst (s_field c) VNone) w"
  shows "log_of (snd (run_schedule c [0, 0, 1, 1, 1, 0, 0, 0, 1, 1] ([call v, call w], inst))) =
           log_of inst @ [entry (s_field c) (getattr_default inst (s_field c) VNone, v),
                          entry (s_field c) (getattr_default inst (s_field c) VNone, w)]"
    and "getattr_default (snd (run_schedule c [0, 0, 1, 1, 1, 0, 0, 0, 1, 1] ([call v, call w], inst)))
           (s_field c) VNone = v"
    and "map t_pc (fst (run_schedule c [0, 0, 1, 1, 1, 0, 0, 0, 1, 1] ([call v, call w], inst))) =
           [Done, Done]"
  using assms
  by (simp_all add: sched_step_def thread_step_def call_def recording_def call_method_def
      log_listener_eq mark_dirty_def)

section \<open>Properties of concurrent calls\<close>

text \<open>
  Claim C24.  A call of the setter that no other call interrupts is the setter
  of the declaration: its five steps leave the instance as the assignment
  through the descriptor does, the call has returned or failed as the
  assignment returns or raises, and the other calls are where they were.
\<close>

theorem uninterrupted_call_is_setter:
  assumes "properties_prop self False listener ad f = Inr p"
    and "i < length ts" and "t_pc (ts ! i) = Read"
  shows "run_schedule (closure self listener ad f mt) (replicate 5 i) (ts, inst) =
     (ts[i := returned (ts ! i) (getattr_default inst (backing (fn_name f)) VNone)
                (descr_set attr p mt inst (t_new (ts ! i)))],
      state_of (descr_set attr p mt inst (t_new (ts ! i))))"
  using assms(2,3)
  by (simp add: run_schedule_replicate call_alone descr_set_closure [OF assms(1)])

theorem uninterrupted_call_is_setter_witness:
  "run_schedule (closure meta (VStr ''_on_change'') True speed_fn [''_on_change'' \<mapsto> log_listener])
     (replicate 5 0) ([call (VInt 50)], \<lparr>dict = Map.empty\<rparr>) =
   ([\<lparr>t_pc = Done, t_new = VInt 50, t_old = VNone\<rparr>],
    state_of (descr_set ''speed''
      (projr (properties_prop meta False (VStr ''_on_change'') True speed_fn))
      [''_on_change'' \<mapsto> log_listener] \<lparr>dict = Map.empty\<rparr> (VInt 50)))"
  using uninterrupted_call_is_setter [of meta "VStr ''_on_change''" True speed_fn
      "projr (properties_prop meta False (VStr ''_on_change'') True speed_fn)" 0 "[call (VInt 50)]"
      "[''_on_change'' \<mapsto> log_listener]" "\<lparr>dict = Map.empty\<rparr>" "''speed''"]
  by (simp add: properties_prop_cases returned_def descr_set_def setter_listener_def speed_fn_def
      schedule_defs)

text \<open>
  Claim C27.  Calls that hold a lock from their first statement to their last
  behave as assignments made one after the other: the serial schedule leaves
  the instance that the assignments leave in turn, and every call has
  finished.
\<close>

theorem serial_schedule_is_sequential:
  "snd (run_schedule c (serial (length vs)) (map call vs, inst)) = after_calls c inst vs \<and>
   list_all (\<lambda>t. finished (t_pc t))
     (fst (run_schedule c (serial (length vs)) (map call vs, inst)))"
  using serial_run [of c vs inst] by (simp add: list_all_iff)

text \<open>
  Claim C25.  In every interleaving of calls of a setter whose listener
  records, the record holds, besides what it held before, exactly one entry
  for each call that is done and whose comparison found a difference, with
  the old value that this call read; the calls are the ones started, and the
  field holds its first value or the argument of a call.
\<close>

theorem notifications_match_calls:
  assumes "s_listener c = Some lname" and "recording (s_methods c) lname (s_field c) inst"
    and "(sys_step c)\<^sup>*\<^sup>* (map call vs, inst) (ts, inst')"
  shows "mset (log_of inst') = mset (log_of inst) + notices (s_field c) ts \<and>
         map t_new ts = vs \<and>
         getattr_default inst' (s_field c) VNone \<in>
           insert (getattr_default inst (s_field c) VNone) (set vs)"
  using calls_inv_reaches [OF assms(1) calls_inv_start [OF assms(2)] assms(3)]
  by (simp add: calls_inv_def)

theorem notifications_match_calls_witness:
  "mset (log_of (snd (run_schedule speed_setter [0, 0, 1, 1, 1, 0, 0, 0, 1, 1]
      ([call (VInt 1), call (VInt 2)], \<lparr>dict = Map.empty\<rparr>)))) =
   {#entry ''_speed'' (VNone, VInt 1), entry ''_speed'' (VNone, VInt 2)#}"
  using notifications_match_calls [of speed_setter "''_on_change''" "\<lparr>dict = Map.empty\<rparr>"
      "[VInt 1, VInt 2]"
      "fst (run_schedule speed_setter [0, 0, 1, 1, 1, 0, 0, 0, 1, 1]
         ([call (VInt 1), call (VInt 2)], \<lparr>dict = Map.empty\<rparr>))"
      "snd (run_schedule speed_setter [0, 0, 1, 1, 1, 0, 0, 0, 1, 1]
         ([call (VInt 1), call (VInt 2)], \<lparr>dict = Map.empty\<rparr>))"]
    run_schedule_reaches [of speed_setter "([call (VInt 1), call (VInt 2)], \<lparr>dict = Map.empty\<rparr>)"
      "[0, 0, 1, 1, 1, 0, 0, 0, 1, 1]"]
  by (simp add: schedule_defs notices_def notified_def notice_def)

text \<open>
  Claim C28.  In every interleaving the listener is called at most once for
  each call of the setter: the record grows by no more entries than there are
  calls.
\<close>

theorem notifications_bounded:
  assumes "s_listener c = Some lname" and "recording (s_methods c) lname (s_field c) inst"
    and "(sys_step c)\<^sup>*\<^sup>* (map call vs, inst) (ts, inst')"
  shows "length (log_of inst') \<le> length (log_of inst) + length vs"
proof -
  from calls_inv_reaches [OF assms(1) calls_inv_start [OF assms(2)] assms(3)]
  have "mset (log_of inst') = mset (log_of inst) + notices (s_field c) ts"
    and "length ts = length vs"
    by (auto simp: calls_inv_def)
  then have "length (log_of inst') = length (log_of inst) + size (notices (s_field c) ts)"
    by (metis size_mset size_union)
  with size_notices [of "s_field c" ts] \<open>length ts = length vs\<close> show ?thesis by simp
qed

theorem notifications_bounded_witness:
  "length (log_of (snd (run_schedule speed_setter [0, 1, 0, 1, 0, 1, 0, 1, 0, 1]
      ([call (VInt 1), call (VInt 1)], \<lparr>dict = Map.empty\<rparr>)))) \<le> 2"
  using notifications_bounded [of speed_setter "''_on_change''" "\<lparr>dict = Map.empty\<rparr>"
      "[VInt 1, VInt 1]"
      "fst (run_schedule speed_setter [0, 1, 0, 1, 0, 1, 0, 1, 0, 1]
         ([call (VInt 1), call (VInt 1)], \<lparr>dict = Map.empty\<rparr>))"
      "snd (run_schedule speed_setter [0, 1, 0, 1, 0, 1, 0, 1, 0, 1]
         ([call (VInt 1), call (VInt 1)], \<lparr>dict = Map.empty\<rparr>))"]
    run_schedule_reaches [of speed_setter "([call (VInt 1), call (VInt 1)], \<lparr>dict = Map.empty\<rparr>)"
      "[0, 1, 0, 1, 0, 1, 0, 1, 0, 1]"]
  by (simp add: log_of_def)

text \<open>
  Claim C29.  Without a lock a notification can be stale.  Two calls assign
  \<open>v\<close> and \<open>w\<close>, both different from the value \<open>cur\<close> of the field; both read the
  field before either writes, the second writes first.  Both calls return,
  both have notified a change from \<open>cur\<close>, the last notification announces \<open>w\<close>
  and the field holds \<open>v\<close>: the listener was never told that \<open>w\<close> was replaced.
  Neither order of the two assignments one after the other gives this record.
  The last hypothesis excludes only a \<open>v\<close> that is the very NaN the field
  holds, which compares different from itself.
\<close>

theorem race_notifies_stale_value:
  assumes "s_listener c = Some lname" and "recording (s_methods c) lname (s_field c) inst"
    and "py_ne (getattr_default inst (s_field c) VNone) v"
    and "py_ne (getattr_default inst (s_field c) VNone) w"
    and "getattr_default inst (s_field c) VNone \<noteq> v"
  shows
    "(let final = run_schedule c [0, 0, 1, 1, 1, 0, 0, 0, 1, 1] ([call v, call w], inst) in
      map t_pc (fst final) = [Done, Done] \<and>
      log_of (snd final) =
        log_of inst @ [entry (s_field c) (getattr_default inst (s_field c) VNone, v),
                       entry (s_field c) (getattr_default inst (s_field c) VNone, w)] \<and>
      getattr_default (snd final) (s_field c) VNone = v \<and>
      log_of (snd final) \<noteq> log_of (after_calls c inst [v, w]) \<and>
      log_of (snd final) \<noteq> log_of (after_calls c inst [w, v]))"
  unfolding Let_def race_run [OF assms(1-4)] log_after_calls [OF assms(1,2)]
  using assms(3-5) by (auto simp: entry_inject)

theorem race_notifies_stale_value_witness:
  "log_of (snd (run_schedule speed_setter [0, 0, 1, 1, 1, 0, 0, 0, 1, 1]
      ([call (VInt 1), call (VInt 2)], \<lparr>dict = Map.empty\<rparr>))) =
     [entry ''_speed'' (VNone, VInt 1), entry ''_speed'' (VNone, VInt 2)] \<and>
   getattr_default (snd (run_schedule speed_setter [0, 0, 1, 1, 1, 0, 0, 0, 1, 1]
      ([call (VInt 1), call (VInt 2)], \<lparr>dict = Map.empty\<rparr>))) ''_speed'' VNone = VInt 1 \<and>
   log_of (snd (run_schedule speed_setter [0, 0, 1, 1, 1, 0, 0, 0, 1, 1]
      ([call (VInt 1), call (VInt 2)], \<lparr>dict = Map.empty\<rparr>))) \<noteq>
     log_of (after_calls speed_setter \<lparr>dict = Map.empty\<rparr> [VInt 1, VInt 2]) \<and>
   log_of (snd (run_schedule speed_setter [0, 0, 1, 1, 1, 0, 0, 0, 1, 1]
      ([call (VInt 1), call (VInt 2)], \<lparr>dict = Map.empty\<rparr>))) \<noteq>
     log_of (after_calls speed_setter \<lparr>dict = Map.empty\<rparr> [VInt 2, VInt 1])"
  using race_notifies_stale_value [of speed_setter "''_on_change''" "\<lparr>dict = Map.empty\<rparr>"
      "VInt 1" "VInt 2"]
  by (auto simp add: Let_def py_ne_def simp del: run_schedule_simps)

text \<open>
  Claim C26.  A change is notified under every fair schedule.  When the calls
  of a setter whose listener records race on one instance and some call
  assigns a value different from the one the field holds at the start, then
  after any schedule that gives each call five turns the record has a new
  entry that announces a change from that value to the argument of a call,
  and a new entry that announces the value the field holds at the end: the
  call that writes first has read the field before any write, and the call
  that writes last notifies what it wrote.  What the record says in between
  may be stale.
\<close>

theorem change_is_eventually_notified:
  assumes "s_listener c = Some lname" and "recording (s_methods c) lname (s_field c) inst"
    and "\<forall>i < length vs. 5 \<le> count_list sched i"
    and "v \<in> set vs" and "py_ne (getattr_default inst (s_field c) VNone) v"
  shows
    "(let cur = getattr_default inst (s_field c) VNone;
          final = snd (run_schedule c sched (map call vs, inst));
          new_entries = (\<lambda>e. count_list (log_of final) e - count_list (log_of inst) e)
      in \<exists>w old. w \<in> set vs \<and> py_ne cur w \<and>
           0 < new_entries (entry (s_field c) (cur, w)) \<and>
           0 < new_entries (entry (s_field c) (old, getattr_default final (s_field c) VNone)))"
proof -
  let ?cur = "getattr_default inst (s_field c) VNone"
  obtain ts inst' where run: "run_schedule c sched (map call vs, inst) = (ts, inst')"
    by (cases "run_schedule c sched (map call vs, inst)")
  then have reach: "(sys_step c)\<^sup>*\<^sup>* (map call vs, inst) (ts, inst')"
    using run_schedule_reaches [of c "(map call vs, inst)" sched] by simp
  note inv = calls_inv_reaches [OF assms(1) calls_inv_start [OF assms(2)] reach]
  note first = first_inv_reaches [OF assms(1) calls_inv_start [OF assms(2)] first_inv_start reach]
  from fair_schedule_completes [of "map call vs" sched c inst] assms(3) run
  have fin: "list_all (\<lambda>t. finished (t_pc t)) ts" by simp
  show ?thesis
  proof (cases "\<exists>u \<in> set ts. wrote u")
    case True
    with first obtain u u' where u: "u \<in> set ts" "wrote u" "t_old u = ?cur"
      and u': "u' \<in> set ts" "wrote u'" "t_new u' = getattr_default inst' (s_field c) VNone"
      by (auto simp: first_inv_def list_ex_iff)
    from written_is_recorded [OF inv fin u(1,2)] written_is_recorded [OF inv fin u'(1,2)] u(3) u'(3)
    show ?thesis by (auto simp: run Let_def)
  next
    case False
    with first have old: "\<forall>u \<in> set ts. t_pc u = Read \<or> t_old u = ?cur"
      by (auto simp: first_inv_def list_ex_iff list_all_iff)
    from assms(4) inv obtain u where u: "u \<in> set ts" "t_new u = v"
      by (auto simp: calls_inv_def)
    with calls_all_done [OF inv fin] old False have "t_old u = ?cur" "\<not> notified u" "t_pc u = Done"
      by (auto simp: wrote_def)
    with u(2) assms(5) show ?thesis by (simp add: notified_def)
  qed
qed

theorem change_is_eventually_notified_witness:
  "\<exists>w old. w \<in> set [VInt 1, VInt 2] \<and> py_ne VNone w \<and>
     0 < count_list (log_of (snd (run_schedule speed_setter [0, 1, 1, 0, 0, 1, 0, 1, 1, 0]
           ([call (VInt 1), call (VInt 2)], \<lparr>dict = Map.empty\<rparr>))))
         (entry ''_speed'' (VNone, w)) \<and>
     0 < count_list (log_of (snd (run_schedule speed_setter [0, 1, 1, 0, 0, 1, 0, 1, 1, 0]
           ([call (VInt 1), call (VInt 2)], \<lparr>dict = Map.empty\<rparr>))))
         (entry ''_speed'' (old, getattr_default (snd (run_schedule speed_setter
            [0, 1, 1, 0, 0, 1, 0, 1, 1, 0]
            ([call (VInt 1), call (VInt 2)], \<lparr>dict = Map.empty\<rparr>))) ''_speed'' VNone))"
  using change_is_eventually_notified [of speed_setter "''_on_change''" "\<lparr>dict = Map.empty\<rparr>"
      "[VInt 1, VInt 2]" "[0, 1, 1, 0, 0, 1, 0, 1, 1, 0]" "VInt 1"]
  by (simp add: less_Suc_eq py_ne_def Let_def del: run_schedule_simps)

text \<open>
  Claim C30.  In every interleaving of calls of a setter without listener, on
  a field other than the dirty flag, the calls are the ones started, every
  call that has ended has returned, the field holds its first value or the
  argument of a call, and with auto-dirty the flag is set as soon as a call
  that found a difference is done: racing writers can overwrite one another
  but cannot lose the flag.
\<close>

theorem racing_plain_writes:
  assumes "s_listener c = None" and "s_field c \<noteq> ''_is_dirty''"
    and "(sys_step c)\<^sup>*\<^sup>* (map call vs, inst) (ts, inst')"
  shows "map t_new ts = vs \<and>
     list_all (\<lambda>t. finished (t_pc t) \<longrightarrow> t_pc t = Done) ts \<and>
     getattr_default inst' (s_field c) VNone \<in>
       insert (getattr_default inst (s_field c) VNone) (set vs) \<and>
     (s_auto_dirty c \<and> list_ex notified ts \<longrightarrow> dict inst' ''_is_dirty'' = Some (VBool True))"
  using plain_inv_reaches [OF assms(1,2) plain_inv_start assms(3)]
  by (auto simp: plain_inv_def thread_ok_def list_all_iff list_ex_iff elim: finished.elims)

theorem racing_plain_writes_witness:
  "dict (snd (run_schedule (closure meta VNone True speed_fn Map.empty) [0, 1, 0, 1, 1, 0, 0, 1]
      ([call (VInt 1), call (VInt 2)], \<lparr>dict = Map.empty\<rparr>))) ''_is_dirty'' = Some (VBool True)"
  using racing_plain_writes [of "closure meta VNone True speed_fn Map.empty"
      "[VInt 1, VInt 2]" "\<lparr>dict = Map.empty\<rparr>"
      "fst (run_schedule (closure meta VNone True speed_fn Map.empty) [0, 1, 0, 1, 1, 0, 0, 1]
         ([call (VInt 1), call (VInt 2)], \<lparr>dict = Map.empty\<rparr>))"
      "snd (run_schedule (closure meta VNone True speed_fn Map.empty) [0, 1, 0, 1, 1, 0, 0, 1]
         ([call (VInt 1), call (VInt 2)], \<lparr>dict = Map.empty\<rparr>))"]
    run_schedule_reaches [of "closure meta VNone True speed_fn Map.empty"
      "([call (VInt 1), call (VInt 2)], \<lparr>dict = Map.empty\<rparr>)" "[0, 1, 0, 1, 1, 0, 0, 1]"]
  by (simp add: schedule_defs notified_def mark_dirty_def example_defs)

end
