(* ===== verification/Car_Example.thy ===== *)
theory Car_Example
  imports Self_Properties Class_Body Py_Builtins
begin

text \<open>
  The class \<^verbatim>\<open>Car\<close> of the usage example at the end of the source, and the
  program that drives it.  The class declares four properties in a \<^verbatim>\<open>with\<close>
  block and defines a constructor and two listeners.  A listener reads and
  assigns attributes of the instance through the class, so its model takes the
  class as a parameter; the class is then built in stages, each listener
  receiving the part of the class defined before it, and \<open>car_class\<close> is the
  namespace that the class body leaves.  The state is an instance together
  with the standard output.
\<close>

section \<open>The class\<close>

type_synonym car = "unit world_ext"

definition car_block :: "car stmt list" where
  "car_block =
     [Open ''meta'' False,
      Declare True VNone False brand_fn,
      Declare True VNone False max_speed_fn,
      Declare False (VStr ''_on_acceleration'') False speed_fn,
      Declare False (VStr ''_on_off_listener'') False on_fn,
      Close]"

definition car_init :: "world \<Rightarrow> val \<Rightarrow> val \<Rightarrow> world" where
  "car_init self brand max_speed =
     self_properties self
       [(''self'', VRef 0), (''brand'', brand), (''max_speed'', max_speed)] [] False"

definition on_off_listener :: "car namespace \<Rightarrow> car pymethod" where
  "on_off_listener cls prop old on self =
     (if truthy on
      then and_then (class_getattr cls self ''brand'')
             (\<lambda>brand s. Return VNone (py_print [Fmt brand, Lit '' Turned on, Runnnnnn''] s))
      else and_then (class_setattr cls self ''_speed'' (VInt 0))
             (\<lambda>r s. and_then (class_getattr cls s ''brand'')
                (\<lambda>brand s'. Return VNone (py_print [Fmt brand, Lit '' Turned off.''] s'))))"

definition on_acceleration :: "car namespace \<Rightarrow> car pymethod" where
  "on_acceleration cls prop old speed self =
     and_then (class_getattr cls self ''on'')
       (\<lambda>on s.
          if truthy on
          then and_then (class_getattr cls s ''max_speed'')
                 (\<lambda>max_speed s.
                    case py_gt speed max_speed of
                      Inl e \<Rightarrow> Raise e s
                    | Inr exceeded \<Rightarrow>
                        if exceeded
                        then and_then (class_getattr cls s ''brand'')
                               (\<lambda>brand s.
                                  class_setattr cls
                                    (py_print [Fmt brand, Lit '' '', Fmt speed,
                                               Lit ''km/h Bang! Engine exploded!''] s)
                                    ''on'' (VBool False))
                        else and_then (class_getattr cls s ''brand'')
                               (\<lambda>brand s.
                                  Return VNone
                                    (py_print [Fmt brand, Lit '' New speed: '', Fmt speed,
                                               Lit ''km/h''] s)))
          else and_then (class_getattr cls s ''brand'')
                 (\<lambda>brand s.
                    Return VNone (py_print [Fmt brand, Lit '' Car is off, no speed change''] s)))"

definition car_decls :: "car namespace" where
  "car_decls = namespace (state_of (exec_body empty_body car_block))"

definition car_switch :: "car namespace" where
  "car_switch = car_decls(''_on_off_listener'' \<mapsto> Function (on_off_listener car_decls))"

definition car_body :: "car stmt list" where
  "car_body =
     car_block @
     [Def ''_on_off_listener'' (on_off_listener car_decls),
      Def ''_on_acceleration'' (on_acceleration car_switch)]"

definition car_class :: "car namespace" where
  "car_class = namespace (state_of (exec_body empty_body car_body))"

definition car_new :: "val \<Rightarrow> val \<Rightarrow> world" where
  "car_new brand max_speed = car_init \<lparr>dict = Map.empty, stdout = []\<rparr> brand max_speed"

section \<open>The program\<close>

definition drive :: "(val, world) outcome" where
  "drive =
     (let mycar = car_new (VStr ''Ford'') (VInt 200) in
      and_then (for_range 0 300 50 (\<lambda>speed s. class_setattr car_class s ''speed'' (VInt speed)) mycar)
        (\<lambda>r s. and_then (class_setattr car_class s ''on'' (VBool True))
           (\<lambda>r. for_range 0 350 50 (\<lambda>speed s. class_setattr car_class s ''speed'' (VInt speed)))))"

section \<open>The class that the body builds\<close>

lemma car_decls_eq:
  "car_decls =
     [''brand'' \<mapsto> Descriptor (projr (properties_prop meta True VNone False brand_fn)),
      ''max_speed'' \<mapsto> Descriptor (projr (properties_prop meta True VNone False max_speed_fn)),
      ''speed'' \<mapsto> Descriptor (projr (properties_prop meta False (VStr ''_on_acceleration'') False speed_fn)),
      ''on'' \<mapsto> Descriptor (projr (properties_prop meta False (VStr ''_on_off_listener'') False on_fn))]"
  by (simp add: car_decls_def car_block_def empty_body_def properties_prop_def
      properties_enter_def example_defs)

lemma car_class_eq:
  "car_class =
     car_decls(''_on_off_listener'' \<mapsto> Function (on_off_listener car_decls),
               ''_on_acceleration'' \<mapsto> Function (on_acceleration car_switch))"
  by (simp add: car_class_def car_body_def car_decls_def car_block_def empty_body_def)

lemma car_class_lookup:
  "car_class ''brand'' = Some (Descriptor (projr (properties_prop meta True VNone False brand_fn)))"
  "car_class ''max_speed'' =
     Some (Descriptor (projr (properties_prop meta True VNone False max_speed_fn)))"
  "car_class ''speed'' =
     Some (Descriptor (projr (properties_prop meta False (VStr ''_on_acceleration'') False speed_fn)))"
  "car_class ''on'' =
     Some (Descriptor (projr (properties_prop meta False (VStr ''_on_off_listener'') False on_fn)))"
  "car_class ''_on_off_listener'' = Some (Function (on_off_listener car_decls))"
  "car_class ''_on_acceleration'' = Some (Function (on_acceleration car_switch))"
  by (simp_all add: car_class_eq car_decls_eq)

lemma dom_car_class:
  "dom car_class = {''brand'', ''max_speed'', ''speed'', ''on'', ''_on_off_listener'', ''_on_acceleration''}"
  by (auto simp: car_class_eq car_decls_eq)

text \<open>The class binds nothing to the backing fields of its properties.\<close>

lemma unshadowed_car_class: "unshadowed car_class"
  by (auto simp: unshadowed_def car_class_eq car_decls_eq backing_def split: if_splits)

section \<open>Attribute access through the class\<close>

text \<open>
  The listeners use the class only through its four properties and the plain
  attribute \<^verbatim>\<open>_speed\<close>; \<open>car_like\<close> holds of every stage of the class.
\<close>

definition car_like :: "car namespace \<Rightarrow> bool" where
  "car_like cls \<longleftrightarrow>
     cls ''brand'' = car_decls ''brand'' \<and> cls ''max_speed'' = car_decls ''max_speed'' \<and>
     cls ''speed'' = car_decls ''speed'' \<and> cls ''on'' = car_decls ''on'' \<and>
     cls ''_speed'' = None"

lemma car_like_stages [simp]: "car_like car_decls" "car_like car_switch" "car_like car_class"
  by (simp_all add: car_like_def car_class_eq car_switch_def car_decls_eq)

lemma car_getattr:
  assumes "car_like cls"
  shows "class_getattr cls s ''brand'' = Return (getattr_default s ''_brand'' VNone) s"
    and "class_getattr cls s ''max_speed'' = Return (getattr_default s ''_max_speed'' VNone) s"
    and "class_getattr cls s ''speed'' = Return (getattr_default s ''_speed'' (VInt 0)) s"
    and "class_getattr cls s ''on'' = Return (getattr_default s ''_on'' (VBool False)) s"
  using assms
  by (simp_all add: car_like_def car_decls_eq class_getattr_def descr_get_def properties_prop_cases
      getter_def example_defs backing_def)

lemma car_setattr:
  assumes "car_like cls"
  shows "class_setattr cls s ''_speed'' v = Return VNone (setattr s ''_speed'' v)"
    and "class_setattr cls s ''on'' v =
           setter_listener ''_on'' ''_on_off_listener'' False (methods_of cls) s v"
    and "class_setattr cls s ''speed'' v =
           setter_listener ''_speed'' ''_on_acceleration'' False (methods_of cls) s v"
    and "class_setattr cls s ''brand'' v = Raise (AttributeError ''brand'') s"
    and "class_setattr cls s ''max_speed'' v = Raise (AttributeError ''max_speed'') s"
  using assms
  by (simp_all add: car_like_def car_decls_eq class_setattr_def descr_set_def properties_prop_cases
      example_defs backing_def)

lemma methods_of_car [simp]:
  "methods_of car_switch ''_on_off_listener'' = Some (on_off_listener car_decls)"
  "methods_of car_class ''_on_off_listener'' = Some (on_off_listener car_decls)"
  "methods_of car_class ''_on_acceleration'' = Some (on_acceleration car_switch)"
  by (simp_all add: methods_of_def car_class_eq car_switch_def)

section \<open>The listeners\<close>

lemma on_off_listener_eq:
  assumes "car_like cls"
  shows "on_off_listener cls prop old on s =
     Return VNone
       (if truthy on
        then py_print [Fmt (getattr_default s ''_brand'' VNone), Lit '' Turned on, Runnnnnn''] s
        else py_print [Fmt (getattr_default s ''_brand'' VNone), Lit '' Turned off.'']
               (setattr s ''_speed'' (VInt 0)))"
  using assms by (simp add: on_off_listener_def car_getattr car_setattr getattr_default_def)

lemma car_set_on:
  assumes "car_like cls"
    and "methods_of cls ''_on_off_listener'' = Some (on_off_listener car_decls)"
    and "dict s ''_on_off_listener'' = None"
  shows "class_setattr cls s ''on'' v =
     Return VNone
       (if py_ne (getattr_default s ''_on'' VNone) v
        then (if truthy v
              then py_print [Fmt (getattr_default s ''_brand'' VNone), Lit '' Turned on, Runnnnnn'']
                     (setattr s ''_on'' v)
              else py_print [Fmt (getattr_default s ''_brand'' VNone), Lit '' Turned off.'']
                     (setattr (setattr s ''_on'' v) ''_speed'' (VInt 0)))
        else s)"
  using assms
  by (simp add: car_setattr setter_listener_def call_method_def on_off_listener_eq py_ne_def)

lemma on_acceleration_eq:
  assumes "car_like cls"
  shows "on_acceleration cls prop old speed s =
     (if truthy (getattr_default s ''_on'' (VBool False))
      then (case py_gt speed (getattr_default s ''_max_speed'' VNone) of
              Inl e \<Rightarrow> Raise e s
            | Inr exceeded \<Rightarrow>
                if exceeded
                then class_setattr cls
                       (py_print [Fmt (getattr_default s ''_brand'' VNone), Lit '' '', Fmt speed,
                                  Lit ''km/h Bang! Engine exploded!''] s)
                       ''on'' (VBool False)
                else Return VNone
                       (py_print [Fmt (getattr_default s ''_brand'' VNone), Lit '' New speed: '',
                                  Fmt speed, Lit ''km/h''] s))
      else Return VNone
             (py_print [Fmt (getattr_default s ''_brand'' VNone),
                        Lit '' Car is off, no speed change''] s))"
  using assms by (simp add: on_acceleration_def car_getattr split: sum.splits)

lemma car_set_speed:
  assumes "dict s ''_on_acceleration'' = None"
  shows "class_setattr car_class s ''speed'' v =
     (if py_ne (getattr_default s ''_speed'' VNone) v
      then and_then
             (on_acceleration car_switch ''_speed'' (getattr_default s ''_speed'' VNone) v
                (setattr s ''_speed'' v))
             (\<lambda>r. Return VNone)
      else Return VNone s)"
  using assms by (simp add: car_setattr setter_listener_def call_method_def py_ne_def)

section \<open>The car as a state machine\<close>

text \<open>
  What the class promises to a driver, as a machine over the brand, the
  maximum speed, the speed and the engine state, the last two unset until
  their first assignment.  \<open>acar_step\<close> gives the effect of one assignment to
  \<^verbatim>\<open>speed\<close> or to \<^verbatim>\<open>on\<close>, the printed lines included.
\<close>

datatype car_op = SetSpeed int | SetOn bool

record acar =
  a_brand :: val
  a_max :: int
  a_speed :: "int option"
  a_on :: "bool option"
  a_out :: "line list"

definition say :: "line \<Rightarrow> acar \<Rightarrow> acar" where
  "say l c = c\<lparr>a_out := a_out c @ [l]\<rparr>"

definition turn :: "bool \<Rightarrow> acar \<Rightarrow> acar" where
  "turn b c =
     (if b then say [Fmt (a_brand c), Lit '' Turned on, Runnnnnn''] (c\<lparr>a_on := Some True\<rparr>)
      else say [Fmt (a_brand c), Lit '' Turned off.''] (c\<lparr>a_on := Some False, a_speed := Some 0\<rparr>))"

fun acar_step :: "acar \<Rightarrow> car_op \<Rightarrow> acar" where
  "acar_step c (SetOn b) = (if a_on c = Some b then c else turn b c)"
| "acar_step c (SetSpeed v) =
     (if a_speed c = Some v then c
      else if a_on c = Some True
      then (if v > a_max c
            then turn False
                   (say [Fmt (a_brand c), Lit '' '', Fmt (VInt v), Lit ''km/h Bang! Engine exploded!'']
                      (c\<lparr>a_speed := Some v\<rparr>))
            else say [Fmt (a_brand c), Lit '' New speed: '', Fmt (VInt v), Lit ''km/h'']
                   (c\<lparr>a_speed := Some v\<rparr>))
      else say [Fmt (a_brand c), Lit '' Car is off, no speed change''] (c\<lparr>a_speed := Some v\<rparr>))"

text \<open>One assignment of the driver, on the instance.\<close>

fun car_step :: "car_op \<Rightarrow> world \<Rightarrow> (val, world) outcome" where
  "car_step (SetSpeed v) s = class_setattr car_class s ''speed'' (VInt v)"
| "car_step (SetOn b) s = class_setattr car_class s ''on'' (VBool b)"

text \<open>
  The instances that the machine describes: the maximum speed is an integer,
  the speed is unset or an integer, the engine state is unset or a Boolean,
  and the instance has no attribute of its own under the name of a listener.
\<close>

fun is_int :: "val \<Rightarrow> bool" where
  "is_int (VInt i) = True"
| "is_int v = False"

fun is_bool :: "val \<Rightarrow> bool" where
  "is_bool (VBool b) = True"
| "is_bool v = False"

fun the_int :: "val \<Rightarrow> int" where
  "the_int (VInt i) = i"
| "the_int v = 0"

fun the_bool :: "val \<Rightarrow> bool" where
  "the_bool (VBool b) = b"
| "the_bool v = False"

definition car_ok :: "world \<Rightarrow> bool" where
  "car_ok s \<longleftrightarrow>
     dict s ''_on_off_listener'' = None \<and> dict s ''_on_acceleration'' = None \<and>
     (case dict s ''_max_speed'' of None \<Rightarrow> False | Some v \<Rightarrow> is_int v) \<and>
     (case dict s ''_speed'' of None \<Rightarrow> True | Some v \<Rightarrow> is_int v) \<and>
     (case dict s ''_on'' of None \<Rightarrow> True | Some v \<Rightarrow> is_bool v)"

definition abs_car :: "world \<Rightarrow> acar" where
  "abs_car s =
     \<lparr>a_brand = getattr_default s ''_brand'' VNone,
      a_max = the_int (getattr_default s ''_max_speed'' VNone),
      a_speed = map_option the_int (dict s ''_speed''),
      a_on = map_option the_bool (dict s ''_on''),
      a_out = stdout s\<rparr>"

lemma is_int_iff: "is_int v \<longleftrightarrow> (\<exists>i. v = VInt i)"
  by (cases v) simp_all

lemma is_bool_iff: "is_bool v \<longleftrightarrow> (\<exists>b. v = VBool b)"
  by (cases v) simp_all

lemma car_okE:
  assumes "car_ok s"
  obtains m where "dict s ''_on_off_listener'' = None" and "dict s ''_on_acceleration'' = None"
    and "dict s ''_max_speed'' = Some (VInt m)"
    and "dict s ''_speed'' = None \<or> (\<exists>i. dict s ''_speed'' = Some (VInt i))"
    and "dict s ''_on'' = None \<or> (\<exists>b. dict s ''_on'' = Some (VBool b))"
  using assms by (auto simp: car_ok_def is_int_iff is_bool_iff split: option.splits)

lemma car_step_SetOn:
  assumes "car_ok s"
  shows "\<exists>s'. car_step (SetOn b) s = Return VNone s' \<and> car_ok s' \<and>
               abs_car s' = acar_step (abs_car s) (SetOn b)"
  using assms
  by (elim car_okE)
     (auto simp: car_set_on car_ok_def abs_car_def turn_def say_def py_ne_def getattr_default_def
        dict_setattr)

lemma car_step_SetSpeed:
  assumes "car_ok s"
  shows "\<exists>s'. car_step (SetSpeed v) s = Return VNone s' \<and> car_ok s' \<and>
               abs_car s' = acar_step (abs_car s) (SetSpeed v)"
  using assms
  by (elim car_okE)
     (auto simp: car_set_speed on_acceleration_eq car_set_on car_ok_def abs_car_def turn_def
        say_def py_ne_def getattr_default_def dict_setattr)

lemma car_step_refines:
  assumes "car_ok s"
  shows "\<exists>s'. car_step op s = Return VNone s' \<and> car_ok s' \<and> abs_car s' = acar_step (abs_car s) op"
  using assms by (cases op) (simp_all only: car_step_SetSpeed car_step_SetOn)

lemma car_run_sim:
  assumes "car_ok s"
  shows "\<exists>s'. for_each ops car_step s = Return VNone s' \<and> car_ok s' \<and>
               abs_car s' = foldl acar_step (abs_car s) ops"
  using assms
proof (induction ops arbitrary: s)
  case Nil
  then show ?case by simp
next
  case (Cons op ops)
  from car_step_refines [OF Cons.prems, of op] obtain s1
    where "car_step op s = Return VNone s1" and "car_ok s1"
      and "abs_car s1 = acar_step (abs_car s) op"
    by blast
  with Cons.IH [of s1] show ?case by auto
qed

section \<open>Construction and the driving program\<close>

lemma dict_car_new:
  "dict (car_new brand max_speed) = [''_brand'' \<mapsto> brand, ''_max_speed'' \<mapsto> max_speed]"
  by (simp add: car_new_def car_init_def self_properties_def setattr_def backing_def)

lemma stdout_car_new [simp]: "stdout (car_new brand max_speed) = []"
  by (simp add: car_new_def car_init_def self_properties_def setattr_def)

lemma car_ok_car_new [simp]: "car_ok (car_new brand (VInt m))"
  by (simp add: car_ok_def dict_car_new)

lemma abs_car_car_new:
  "abs_car (car_new brand (VInt m)) =
     \<lparr>a_brand = brand, a_max = m, a_speed = None, a_on = None, a_out = []\<rparr>"
  by (simp add: abs_car_def dict_car_new getattr_default_def)

lemma for_each_map: "for_each (map f xs) body s = for_each xs (\<lambda>x. body (f x)) s"
proof (induction xs arbitrary: s)
  case Nil
  show ?case by simp
next
  case (Cons x xs)
  then show ?case by (cases "body (f x) s") simp_all
qed

definition drive_ops :: "car_op list" where
  "drive_ops =
     map SetSpeed [0, 50, 100, 150, 200, 250] @ [SetOn True] @
     map SetSpeed [0, 50, 100, 150, 200, 250, 300]"

lemma drive_ranges:
  "py_range 0 300 50 = Inr [0, 50, 100, 150, 200, 250]"
  "py_range 0 350 50 = Inr [0, 50, 100, 150, 200, 250, 300]"
  by (simp_all add: py_range_def eval_nat_numeral)

lemma car_step_fun:
  "car_step (SetSpeed v) = (\<lambda>s. class_setattr car_class s ''speed'' (VInt v))"
  "car_step (SetOn b) = (\<lambda>s. class_setattr car_class s ''on'' (VBool b))"
  by (rule ext, simp)+

lemma for_range_speed:
  "py_range start stop step = Inr xs \<Longrightarrow>
   for_range start stop step (\<lambda>speed s. class_setattr car_class s ''speed'' (VInt speed)) =
     for_each (map SetSpeed xs) car_step"
  by (rule ext) (simp add: for_range_def range_iter_eq for_each_map car_step_fun)

lemma drive_eq: "drive = for_each drive_ops car_step (car_new (VStr ''Ford'') (VInt 200))"
  by (simp add: drive_def drive_ops_def for_each_append for_range_speed [OF drive_ranges(1)]
      for_range_speed [OF drive_ranges(2)] for_each_Cons_fun del: for_each.simps list.map)

lemma dict_of_abs_car:
  assumes "car_ok s"
  shows "a_speed (abs_car s) = Some v \<longleftrightarrow> dict s ''_speed'' = Some (VInt v)"
    and "a_on (abs_car s) = Some b \<longleftrightarrow> dict s ''_on'' = Some (VBool b)"
    and "dict s ''_max_speed'' = Some (VInt (a_max (abs_car s)))"
  using assms by (elim car_okE; auto simp: abs_car_def)+

lemma drive_machine:
  "foldl acar_step \<lparr>a_brand = VStr ''Ford'', a_max = 200, a_speed = None, a_on = None, a_out = []\<rparr>
     drive_ops =
   \<lparr>a_brand = VStr ''Ford'', a_max = 200, a_speed = Some 300, a_on = Some False,
    a_out =
      [[Fmt (VStr ''Ford''), Lit '' Car is off, no speed change''],
       [Fmt (VStr ''Ford''), Lit '' Car is off, no speed change''],
       [Fmt (VStr ''Ford''), Lit '' Car is off, no speed change''],
       [Fmt (VStr ''Ford''), Lit '' Car is off, no speed change''],
       [Fmt (VStr ''Ford''), Lit '' Car is off, no speed change''],
       [Fmt (VStr ''Ford''), Lit '' Car is off, no speed change''],
       [Fmt (VStr ''Ford''), Lit '' Turned on, Runnnnnn''],
       [Fmt (VStr ''Ford''), Lit '' New speed: '', Fmt (VInt 0), Lit ''km/h''],
       [Fmt (VStr ''Ford''), Lit '' New speed: '', Fmt (VInt 50), Lit ''km/h''],
       [Fmt (VStr ''Ford''), Lit '' New speed: '', Fmt (VInt 100), Lit ''km/h''],
       [Fmt (VStr ''Ford''), Lit '' New speed: '', Fmt (VInt 150), Lit ''km/h''],
       [Fmt (VStr ''Ford''), Lit '' New speed: '', Fmt (VInt 200), Lit ''km/h''],
       [Fmt (VStr ''Ford''), Lit '' '', Fmt (VInt 250), Lit ''km/h Bang! Engine exploded!''],
       [Fmt (VStr ''Ford''), Lit '' Turned off.''],
       [Fmt (VStr ''Ford''), Lit '' Car is off, no speed change'']]\<rparr>"
  by (simp add: drive_ops_def turn_def say_def)

section \<open>Properties of the example\<close>

text \<open>
  Claim C31.  The class refines the machine: on an instance that the machine
  describes, every sequence of assignments to \<^verbatim>\<open>speed\<close> and \<^verbatim>\<open>on\<close> runs without an
  exception, leaves such an instance, and has the effect of the machine's
  steps, the printed lines included.
\<close>

theorem car_run_refines:
  assumes "car_ok s"
  shows "raised (for_each ops car_step s) = None \<and>
         car_ok (state_of (for_each ops car_step s)) \<and>
         abs_car (state_of (for_each ops car_step s)) = foldl acar_step (abs_car s) ops"
  using car_run_sim [OF assms, of ops] by auto

theorem car_run_refines_witness:
  "raised (for_each [SetOn True, SetSpeed 250] car_step (car_new (VStr ''Ford'') (VInt 200))) = None \<and>
   abs_car (state_of (for_each [SetOn True, SetSpeed 250] car_step
      (car_new (VStr ''Ford'') (VInt 200)))) =
     \<lparr>a_brand = VStr ''Ford'', a_max = 200, a_speed = Some 0, a_on = Some False,
      a_out = [[Fmt (VStr ''Ford''), Lit '' Turned on, Runnnnnn''],
               [Fmt (VStr ''Ford''), Lit '' '', Fmt (VInt 250), Lit ''km/h Bang! Engine exploded!''],
               [Fmt (VStr ''Ford''), Lit '' Turned off.'']]\<rparr>"
  using car_run_refines [of "car_new (VStr ''Ford'') (VInt 200)" "[SetOn True, SetSpeed 250]"]
  by (simp add: abs_car_car_new turn_def say_def)

text \<open>
  The driving program of the usage example ends without an exception.  It
  prints fifteen lines: six refusals while the engine is off, the start of the
  engine, five accepted speeds, the explosion at 250 km/h with the engine
  turned off by the listener, and a last refusal.  At the end the engine is
  off and the stored speed is 300.
\<close>

lemma drive_output:
  "raised drive = None \<and>
   map render (stdout (state_of drive)) =
     map Some
       [''Ford Car is off, no speed change'', ''Ford Car is off, no speed change'',
        ''Ford Car is off, no speed change'', ''Ford Car is off, no speed change'',
        ''Ford Car is off, no speed change'', ''Ford Car is off, no speed change'',
        ''Ford Turned on, Runnnnnn'',
        ''Ford New speed: 0km/h'', ''Ford New speed: 50km/h'', ''Ford New speed: 100km/h'',
        ''Ford New speed: 150km/h'', ''Ford New speed: 200km/h'',
        ''Ford 250km/h Bang! Engine exploded!'', ''Ford Turned off.'',
        ''Ford Car is off, no speed change''] \<and>
   dict (state_of drive) ''_speed'' = Some (VInt 300) \<and>
   dict (state_of drive) ''_on'' = Some (VBool False)"
proof -
  let ?s = "state_of drive"
  from car_run_sim [OF car_ok_car_new, of drive_ops "VStr ''Ford''" 200]
  have ret: "raised drive = None" and ok: "car_ok ?s"
    and abs: "abs_car ?s = foldl acar_step (abs_car (car_new (VStr ''Ford'') (VInt 200))) drive_ops"
    by (auto simp: drive_eq)
  from abs have m: "abs_car ?s = foldl acar_step
      \<lparr>a_brand = VStr ''Ford'', a_max = 200, a_speed = None, a_on = None, a_out = []\<rparr> drive_ops"
    by (simp only: abs_car_car_new)
  have "a_out (abs_car ?s) = stdout ?s" by (simp add: abs_car_def)
  with m have "map render (stdout ?s) = map render (a_out (foldl acar_step
      \<lparr>a_brand = VStr ''Ford'', a_max = 200, a_speed = None, a_on = None, a_out = []\<rparr> drive_ops))"
    by simp
  moreover from m have "a_speed (abs_car ?s) = Some 300" "a_on (abs_car ?s) = Some False"
    by (simp_all only: drive_machine acar.simps)
  ultimately show ?thesis using ret ok
    by (simp add: drive_machine dict_of_abs_car str_int_def digit_char_def)
qed

text \<open>
  Building the class in stages loses nothing: on an instance with
  no attribute of its own named \<^verbatim>\<open>_on_off_listener\<close>, each listener behaves with
  the part of the class defined before it as it does with the finished class.
\<close>

lemma car_class_closed:
  assumes "dict s ''_on_off_listener'' = None"
  shows "on_off_listener car_decls prop old v s = on_off_listener car_class prop old v s \<and>
         on_acceleration car_switch prop old v s = on_acceleration car_class prop old v s"
  using assms by (simp add: on_off_listener_eq on_acceleration_eq car_set_on split: sum.splits)

lemma car_class_closed_witness:
  "on_acceleration car_switch ''_speed'' VNone (VInt 250)
     (setattr (car_new (VStr ''Ford'') (VInt 200)) ''_on'' (VBool True)) =
   on_acceleration car_class ''_speed'' VNone (VInt 250)
     (setattr (car_new (VStr ''Ford'') (VInt 200)) ''_on'' (VBool True))"
  using car_class_closed [of "setattr (car_new (VStr ''Ford'') (VInt 200)) ''_on'' (VBool True)"
      "''_speed''" VNone "VInt 250"]
  by (simp add: dict_car_new)

text \<open>
  Claim C34.  While the engine is on, assigning a speed above the maximum
  stores it, prints the explosion, and then turns the engine off through the
  property \<^verbatim>\<open>on\<close>, whose listener resets the speed to 0 and prints that the
  car is turned off: the two setters and the two listeners run nested, each
  setter storing before it notifies, so that the speed written last is the 0
  of the inner listener and not the speed assigned.
\<close>

theorem car_overspeed_turns_off:
  assumes "car_ok s" and "dict s ''_on'' = Some (VBool True)"
    and "dict s ''_max_speed'' = Some (VInt m)" and "m < v"
    and "dict s ''_speed'' \<noteq> Some (VInt v)"
  shows "class_setattr car_class s ''speed'' (VInt v) =
     Return VNone
       (py_print [Fmt (getattr_default s ''_brand'' VNone), Lit '' Turned off.'']
          (setattr
             (setattr
                (py_print [Fmt (getattr_default s ''_brand'' VNone), Lit '' '', Fmt (VInt v),
                           Lit ''km/h Bang! Engine exploded!'']
                   (setattr s ''_speed'' (VInt v)))
                ''_on'' (VBool False))
             ''_speed'' (VInt 0)))"
  using assms
  by (elim car_okE)
     (auto simp: car_set_speed on_acceleration_eq car_set_on py_ne_def getattr_default_def)

theorem car_overspeed_turns_off_witness:
  "class_setattr car_class (setattr (car_new (VStr ''Ford'') (VInt 200)) ''_on'' (VBool True))
     ''speed'' (VInt 250) =
   Return VNone
     (py_print [Fmt (VStr ''Ford''), Lit '' Turned off.'']
        (setattr
           (setattr
              (py_print [Fmt (VStr ''Ford''), Lit '' '', Fmt (VInt 250),
                         Lit ''km/h Bang! Engine exploded!'']
                 (setattr (setattr (car_new (VStr ''Ford'') (VInt 200)) ''_on'' (VBool True))
                    ''_speed'' (VInt 250)))
              ''_on'' (VBool False))
           ''_speed'' (VInt 0)))"
  using car_overspeed_turns_off
      [of "setattr (car_new (VStr ''Ford'') (VInt 200)) ''_on'' (VBool True)" 200 250]
  by (simp add: car_ok_def dict_car_new getattr_default_def)


text \<open>
  A listener cannot refuse a value: with the engine on, assigning a speed
  that cannot be compared with the maximum, a string, fails in the listener
  with the type error of the comparison, and the string has been stored.
\<close>

lemma car_rejected_speed_is_stored:
  assumes "car_ok s" and "dict s ''_on'' = Some (VBool True)"
  shows "class_setattr car_class s ''speed'' (VStr x) =
     Raise unorderable (setattr s ''_speed'' (VStr x))"
  using assms
  by (elim car_okE)
     (auto simp: car_set_speed on_acceleration_eq py_ne_def getattr_default_def)

text \<open>
  Claim C39.  While the engine is off, assigning a new speed prints that there
  is no speed change, and yet the speed is stored: the listener runs after the
  write and cannot refuse it.
\<close>

theorem car_off_speed_is_written:
  assumes "car_ok s" and "dict s ''_on'' \<noteq> Some (VBool True)"
    and "dict s ''_speed'' \<noteq> Some (VInt v)"
  shows "class_setattr car_class s ''speed'' (VInt v) =
     Return VNone
       (py_print [Fmt (getattr_default s ''_brand'' VNone), Lit '' Car is off, no speed change'']
          (setattr s ''_speed'' (VInt v)))"
  using assms
  by (elim car_okE)
     (auto simp: car_set_speed on_acceleration_eq py_ne_def getattr_default_def)

theorem car_off_speed_is_written_witness:
  "class_setattr car_class (car_new (VStr ''Ford'') (VInt 200)) ''speed'' (VInt 50) =
   Return VNone
     (py_print [Fmt (VStr ''Ford''), Lit '' Car is off, no speed change'']
        (setattr (car_new (VStr ''Ford'') (VInt 200)) ''_speed'' (VInt 50)))"
  using car_off_speed_is_written [of "car_new (VStr ''Ford'') (VInt 200)" 50]
  by (simp add: dict_car_new getattr_default_def)

text \<open>
  The maximum speed is not an invariant of a running car: a speed
  above the maximum assigned while the engine is off stays when the engine is
  turned on.
\<close>

lemma car_runs_above_max_speed:
  "raised (for_each [SetSpeed 300, SetOn True] car_step (car_new (VStr ''Ford'') (VInt 200))) = None \<and>
   abs_car (state_of (for_each [SetSpeed 300, SetOn True] car_step
      (car_new (VStr ''Ford'') (VInt 200)))) =
     \<lparr>a_brand = VStr ''Ford'', a_max = 200, a_speed = Some 300, a_on = Some True,
      a_out = [[Fmt (VStr ''Ford''), Lit '' Car is off, no speed change''],
               [Fmt (VStr ''Ford''), Lit '' Turned on, Runnnnnn'']]\<rparr>"
  using car_run_sim [OF car_ok_car_new, of "[SetSpeed 300, SetOn True]" "VStr ''Ford''" 200]
  by (auto simp: abs_car_car_new turn_def say_def)

end
