(* ===== verification/Car_Open.thy ===== *)
theory Car_Open
  imports Car_Example Open_Class
begin

text \<open>
  The class \<^verbatim>\<open>Car\<close> with its listeners bound to the class of the instance they
  are called on.  \<open>car_open\<close> is the class as the source writes it: two methods
  that use \<^verbatim>\<open>self\<close>.  The lemmas show that closing it to a depth of two nested
  listener calls or more gives the class that \<open>Car_Example\<close> builds in stages,
  that a depth of one is too little for an assignment that makes the engine
  explode, that the listeners are steady, and that a class extending \<^verbatim>\<open>Car\<close> with a listener of its own has it
  called by the assignment that the inherited listener makes.
\<close>

section \<open>The open class\<close>

definition car_open :: "car oclass" where
  "car_open =
     (opened car_decls)
       (''_on_off_listener'' \<mapsto> OFunction on_off_listener,
        ''_on_acceleration'' \<mapsto> OFunction on_acceleration)"

lemma car_open_lookup:
  "car_open ''brand'' = Some (ODescriptor (projr (properties_prop meta True VNone False brand_fn)))"
  "car_open ''max_speed'' =
     Some (ODescriptor (projr (properties_prop meta True VNone False max_speed_fn)))"
  "car_open ''speed'' =
     Some (ODescriptor (projr (properties_prop meta False (VStr ''_on_acceleration'') False speed_fn)))"
  "car_open ''on'' =
     Some (ODescriptor (projr (properties_prop meta False (VStr ''_on_off_listener'') False on_fn)))"
  "car_open ''_on_off_listener'' = Some (OFunction on_off_listener)"
  "car_open ''_on_acceleration'' = Some (OFunction on_acceleration)"
  "car_open ''_speed'' = None"
  by (simp_all add: car_open_def opened_def car_decls_eq)

text \<open>Every extension that leaves the four properties alone is like the car's class.\<close>

definition keeps_properties :: "car oclass \<Rightarrow> bool" where
  "keeps_properties own \<longleftrightarrow>
     own ''brand'' = None \<and> own ''max_speed'' = None \<and> own ''speed'' = None \<and>
     own ''on'' = None \<and> own ''_speed'' = None"

lemma car_like_unroll:
  assumes "keeps_properties own"
  shows "car_like (unroll k (derived car_open own))"
  using assms
  by (simp add: car_like_def keeps_properties_def derived_def map_add_def car_open_lookup
      car_decls_eq)

lemma keeps_properties_empty [simp]: "keeps_properties Map.empty"
  by (simp add: keeps_properties_def)

lemma derived_empty [simp]: "derived oc Map.empty = oc"
  by (simp add: derived_def)

lemma car_like_unroll_car [simp]: "car_like (unroll k car_open)"
  using car_like_unroll [of Map.empty k] by simp

section \<open>The listeners in the closed class\<close>

lemma on_off_listener_car_like:
  "car_like cls \<Longrightarrow> on_off_listener cls = on_off_listener car_decls"
  by (intro ext) (simp add: on_off_listener_eq)

lemma methods_of_unroll_car [simp]:
  "methods_of (unroll (Suc k) car_open) ''_on_off_listener'' = Some (on_off_listener car_decls)"
  "methods_of (unroll (Suc k) car_open) ''_on_acceleration'' =
     Some (on_acceleration (unroll k car_open))"
  using on_off_listener_car_like [of "unroll k car_open"]
  by (simp_all add: methods_of_unroll car_open_lookup)

lemma car_set_on_unroll:
  assumes "dict s ''_on_off_listener'' = None"
  shows "class_setattr (unroll (Suc k) car_open) s ''on'' v = class_setattr car_switch s ''on'' v"
  using assms by (simp add: car_set_on)

lemma on_acceleration_unroll:
  assumes "dict s ''_on_off_listener'' = None"
  shows "on_acceleration (unroll (Suc k) car_open) prop old v s =
         on_acceleration car_switch prop old v s"
  using assms by (simp add: on_acceleration_eq car_set_on_unroll split: sum.splits)

lemma car_set_speed_unroll:
  assumes "dict s ''_on_off_listener'' = None" and "dict s ''_on_acceleration'' = None"
  shows "class_setattr (unroll (Suc (Suc k)) car_open) s ''speed'' v =
         class_setattr car_class s ''speed'' v"
  using assms
  by (simp add: car_setattr setter_listener_def call_method_def on_acceleration_unroll Let_def
      mark_dirty_def)

text \<open>Names other than the two observable properties need no listener.\<close>

lemma car_not_descriptor:
  assumes "n \<notin> {''brand'', ''max_speed'', ''speed'', ''on''}"
  shows "car_open n \<noteq> Some (ODescriptor p)" and "car_class n \<noteq> Some (Descriptor q)"
proof -
  from assms have "car_decls n = None" by (simp add: car_decls_eq)
  then show "car_open n \<noteq> Some (ODescriptor p)" and "car_class n \<noteq> Some (Descriptor q)"
    by (simp_all add: car_open_def opened_def car_class_eq)
qed

lemma car_set_other_unroll:
  assumes "n \<noteq> ''speed''" and "n \<noteq> ''on''"
  shows "class_setattr (unroll k car_open) s n v = class_setattr car_class s n v"
proof (cases "n = ''brand'' \<or> n = ''max_speed''")
  case True
  then show ?thesis by (auto simp: car_setattr)
next
  case False
  with assms have n: "n \<notin> {''brand'', ''max_speed'', ''speed'', ''on''}" by simp
  from car_not_descriptor(2) [OF n] have "class_setattr car_class s n v = Return VNone (setattr s n v)"
    by (auto simp: class_setattr_def split: option.splits member.splits)
  with car_not_descriptor(1) [OF n] show ?thesis by (simp add: class_setattr_unroll_plain)
qed

section \<open>Runs of the driver\<close>

text \<open>One assignment of the driver on an instance of a given class.\<close>

fun car_step_in :: "car namespace \<Rightarrow> car_op \<Rightarrow> world \<Rightarrow> (val, world) outcome" where
  "car_step_in cls (SetSpeed v) s = class_setattr cls s ''speed'' (VInt v)"
| "car_step_in cls (SetOn b) s = class_setattr cls s ''on'' (VBool b)"

lemma car_step_in_unroll:
  assumes "car_ok s"
  shows "car_step_in (unroll (Suc (Suc k)) car_open) op s = car_step op s"
  using assms
  by (cases op) (auto elim!: car_okE simp: car_set_speed_unroll car_set_on)

lemma car_run_in_unroll:
  assumes "car_ok s"
  shows "for_each ops (car_step_in (unroll (Suc (Suc k)) car_open)) s = for_each ops car_step s"
  using assms
proof (induction ops arbitrary: s)
  case Nil
  show ?case by simp
next
  case (Cons op ops)
  from car_step_refines [OF Cons.prems, of op] obtain s1
    where "car_step op s = Return VNone s1" and "car_ok s1"
    by blast
  with Cons.IH [of s1] Cons.prems show ?case by (simp add: car_step_in_unroll)
qed

text \<open>The driving program runs on the class of the source as on the staged class.\<close>

lemma drive_in_source_class:
  "for_each drive_ops (car_step_in (unroll (Suc (Suc k)) car_open))
     (car_new (VStr ''Ford'') (VInt 200)) = drive"
  by (simp add: drive_eq car_run_in_unroll)

section \<open>The listeners are steady\<close>

lemma steady_on_off_listener: "steady on_off_listener"
proof (rule steadyI)
  fix cls cls' :: "car namespace" and field old new s
  assume "wf_namespace cls" and below: "class_below cls cls'"
  then show "below (on_off_listener cls field old new s) (on_off_listener cls' field old new s)"
    by (auto simp: on_off_listener_def class_getattr_below [OF below]
        intro!: below_and_then below_class_setattr)
qed

lemma steady_on_acceleration: "steady on_acceleration"
proof (rule steadyI)
  fix cls cls' :: "car namespace" and field old new s
  assume "wf_namespace cls" and below: "class_below cls cls'"
  then show "below (on_acceleration cls field old new s) (on_acceleration cls' field old new s)"
    by (auto simp: on_acceleration_def class_getattr_below [OF below]
        intro!: below_and_then below_class_setattr split: sum.splits)
qed

lemma wf_car_decls: "wf_namespace car_decls"
  using fits_projr [of True VNone brand_fn meta False]
    fits_projr [of True VNone max_speed_fn meta False]
    fits_projr [of False "VStr ''_on_acceleration''" speed_fn meta False]
    fits_projr [of False "VStr ''_on_off_listener''" on_fn meta False]
  by (auto simp: wf_namespace_def car_decls_eq example_defs split: if_splits)

lemma steady_class_car_open: "steady_class car_open"
proof -
  have "fits n p" if "car_open n = Some (ODescriptor p)" for n p
  proof -
    from that have "car_decls n = Some (Descriptor p)"
      by (auto simp: car_open_def split: if_splits)
    with wf_car_decls show ?thesis by (simp add: wf_namespace_def)
  qed
  moreover have "steady m" if "car_open n = Some (OFunction m)" for n m
    using that steady_on_off_listener steady_on_acceleration
    by (auto simp: car_open_def opened_def car_decls_eq split: if_splits)
  ultimately show ?thesis by (simp add: steady_class_def)
qed

section \<open>Classes that extend the car\<close>

text \<open>
  In the class built in stages the listener of the speed has the listener of
  the engine state of its own stage built in, so that a class derived from
  the finished class cannot replace it: the staged class is the class of the
  source for instances of \<^verbatim>\<open>Car\<close> itself, not for instances of its subclasses.
\<close>

lemma staged_class_ignores_override:
  assumes "dict s ''_on_acceleration'' = None"
  shows "class_setattr (derived car_class [''_on_off_listener'' \<mapsto> Function m']) s ''speed'' v =
         class_setattr car_class s ''speed'' v"
proof -
  have "car_like (derived car_class [''_on_off_listener'' \<mapsto> Function m'])"
    using car_like_stages(3) by (simp add: car_like_def)
  moreover have "methods_of (derived car_class [''_on_off_listener'' \<mapsto> Function m'])
      ''_on_acceleration'' = Some (on_acceleration car_switch)"
    by (simp add: methods_of_derived)
  ultimately show ?thesis
    using assms by (simp add: car_setattr setter_listener_def call_method_def Let_def)
qed

section \<open>Properties of the closed class\<close>

text \<open>
  Claim C32.  The class built in stages is the class of the source: on an
  instance that does not shadow the listeners, an assignment to any attribute
  through the class \<^verbatim>\<open>Car\<close> closed to a depth of two nested listener calls or
  more does what it does through the staged class.
\<close>

theorem car_unrolled_agrees:
  assumes "dict s ''_on_off_listener'' = None" and "dict s ''_on_acceleration'' = None"
  shows "class_setattr (unroll (Suc (Suc k)) car_open) s n v = class_setattr car_class s n v"
proof -
  consider "n = ''speed''" | "n = ''on''" | "n \<noteq> ''speed''" "n \<noteq> ''on''" by blast
  then show ?thesis
  proof cases
    case 1
    with assms show ?thesis by (simp add: car_set_speed_unroll)
  next
    case 2
    with assms(1) show ?thesis by (simp add: car_set_on)
  next
    case 3
    then show ?thesis by (rule car_set_other_unroll)
  qed
qed

theorem car_unrolled_agrees_witness:
  "class_setattr (unroll (Suc (Suc 0)) car_open)
     (setattr (car_new (VStr ''Ford'') (VInt 200)) ''_on'' (VBool True)) ''speed'' (VInt 250) =
   class_setattr car_class
     (setattr (car_new (VStr ''Ford'') (VInt 200)) ''_on'' (VBool True)) ''speed'' (VInt 250)"
  using car_unrolled_agrees [of "setattr (car_new (VStr ''Ford'') (VInt 200)) ''_on'' (VBool True)"
      0 "''speed''" "VInt 250"]
  by (simp add: dict_car_new)

text \<open>
  One level of nesting is too little for the car: with the engine
  on, an assignment of a speed above the maximum stores the speed, prints the
  explosion and switches the engine state to off, and then fails with the
  host's recursion error where the listener of the engine state should run:
  the speed is not reset and the last line is not printed.
\<close>

lemma car_depth_one_is_too_little:
  assumes "car_ok s" and "dict s ''_on'' = Some (VBool True)"
    and "dict s ''_max_speed'' = Some (VInt m)" and "m < v"
    and "dict s ''_speed'' \<noteq> Some (VInt v)"
  shows "class_setattr (unroll (Suc 0) car_open) s ''speed'' (VInt v) =
     Raise RecursionError
       (setattr
          (py_print [Fmt (getattr_default s ''_brand'' VNone), Lit '' '', Fmt (VInt v),
                     Lit ''km/h Bang! Engine exploded!'']
             (setattr s ''_speed'' (VInt v)))
          ''_on'' (VBool False))"
  using assms
  by (elim car_okE)
     (auto simp: car_setattr setter_listener_def call_method_def on_acceleration_eq
        methods_of_unroll car_open_lookup too_deep_def py_ne_def getattr_default_def
        mark_dirty_def Let_def)

lemma car_depth_one_is_too_little_witness:
  "raised (class_setattr (unroll (Suc 0) car_open)
     (setattr (car_new (VStr ''Ford'') (VInt 200)) ''_on'' (VBool True)) ''speed'' (VInt 250)) =
   Some RecursionError"
  using car_depth_one_is_too_little
      [of "setattr (car_new (VStr ''Ford'') (VInt 200)) ''_on'' (VBool True)" 200 250]
  by (simp add: car_ok_def dict_car_new)

text \<open>
  Claim C33.  A listener is found in the class of the instance also when a
  listener calls it: in a class that extends \<^verbatim>\<open>Car\<close> and defines
  \<^verbatim>\<open>_on_off_listener\<close> anew, the assignment \<^verbatim>\<open>self.on = False\<close> that the inherited
  listener of the speed makes when the engine explodes calls the new method,
  with the engine state already written, and not the one of \<^verbatim>\<open>Car\<close>.
\<close>

theorem override_is_called_by_inherited_listener:
  assumes "keeps_properties own" and "own ''_on_off_listener'' = Some (OFunction m')"
    and "own ''_on_acceleration'' = None"
    and "car_ok s" and "dict s ''_on'' = Some (VBool True)"
    and "dict s ''_max_speed'' = Some (VInt m)" and "m < v"
    and "dict s ''_speed'' \<noteq> Some (VInt v)"
  shows "class_setattr (unroll (Suc (Suc k)) (derived car_open own)) s ''speed'' (VInt v) =
     and_then
       (m' (unroll k (derived car_open own)) ''_on'' (VBool True) (VBool False)
          (setattr
             (py_print [Fmt (getattr_default s ''_brand'' VNone), Lit '' '', Fmt (VInt v),
                        Lit ''km/h Bang! Engine exploded!'']
                (setattr s ''_speed'' (VInt v)))
             ''_on'' (VBool False)))
       (\<lambda>r. Return VNone)"
  using assms(2-)
  by (elim car_okE)
     (auto simp: car_setattr [OF car_like_unroll [OF assms(1)]]
        on_acceleration_eq [OF car_like_unroll [OF assms(1)]]
        setter_listener_def call_method_def methods_of_unroll car_open_lookup py_ne_def
        getattr_default_def mark_dirty_def Let_def and_then_assoc)

theorem override_is_called_by_inherited_listener_witness:
  "class_setattr
     (unroll (Suc (Suc 0))
        (derived car_open [''_on_off_listener'' \<mapsto> OFunction (\<lambda>cls prop old new. Return VNone)]))
     (setattr (car_new (VStr ''Ford'') (VInt 200)) ''_on'' (VBool True)) ''speed'' (VInt 250) =
   Return VNone
     (setattr
        (py_print [Fmt (VStr ''Ford''), Lit '' '', Fmt (VInt 250), Lit ''km/h Bang! Engine exploded!'']
           (setattr (setattr (car_new (VStr ''Ford'') (VInt 200)) ''_on'' (VBool True))
              ''_speed'' (VInt 250)))
        ''_on'' (VBool False))"
  using override_is_called_by_inherited_listener
      [of "[''_on_off_listener'' \<mapsto> OFunction (\<lambda>cls prop old new. Return VNone)]"
          "\<lambda>cls prop old new. Return VNone"
          "setattr (car_new (VStr ''Ford'') (VInt 200)) ''_on'' (VBool True)" 200 250 0]
  by (simp add: keeps_properties_def car_ok_def dict_car_new getattr_default_def)

end
