(* ===== verification/Spec2Isabelle.thy ===== *)
theory Spec2Isabelle
  imports MP_Prelude Py_Values Py_Object Self_Properties Properties Class_Body Open_Class
    Py_Builtins Write_Runs Setter_Threads Car_Example Car_Open
begin

text \<open>
  \<^bold>\<open>The program.\<close>  \<^verbatim>\<open>src/metaproperties_no_slots.py\<close> is a small library for
  declaring attributes of classes.  It has two facilities and a usage example:
  \<^item> \<^verbatim>\<open>self_properties(self, scope, exclude, save_args)\<close> copies the entries of a
    mapping (a constructor's local variables) onto an instance, each under its
    key prefixed with an underscore, skipping the key \<^verbatim>\<open>self\<close> and the excluded
    keys, and optionally stores the copied values as the tuple \<^verbatim>\<open>_args\<close>;
  \<^item> the class \<^verbatim>\<open>properties\<close> is a scoped builder whose method \<^verbatim>\<open>prop\<close> turns a
    function into a property descriptor: a getter that reads the backing field
    \<^verbatim>\<open>_name\<close> and falls back to the function, and, unless the property is read
    only, a setter that writes the backing field when the value changes, sets
    \<^verbatim>\<open>_is_dirty\<close> if asked to, and calls a listener method of the instance;
  \<^item> the usage example at the end of the file, which the source keeps as a
    comment (lines 96 to 151), declares a class \<^verbatim>\<open>Car\<close> with four properties
    and two listeners, one of which assigns another property, and drives an
    instance through two loops.  It is the only code in the repository that
    uses the two facilities, and it is modelled from the text of the comment.

  \<^bold>\<open>The theories\<close>, in the order of their imports.
  \<^item> \<open>MP_Prelude\<close>: the exceptions (\<open>error\<close>), the result of a call (\<open>outcome\<close>: a
    value or an exception, each with the state the call left, because an
    exception does not undo the writes before it), sequencing (\<open>and_then\<close>) with
    its monad laws, and the facts on maps and association lists that the
    components share.
  \<^item> \<open>Py_Values\<close>: the values held in attributes (\<open>val\<close>, with the floats
    \<open>pyfloat\<close>), the comparison \<open>py_eq\<close> and its negation \<open>py_ne\<close> that the setters
    use (\<^verbatim>\<open>old != new\<close>), truth values (\<open>truthy\<close>).  The lemmas show that \<open>py_eq\<close>
    is equality of canonical forms except on a NaN, hence symmetric and
    transitive and reflexive on all values but a NaN, and that it is coarser
    than identity (\<^verbatim>\<open>True == 1 == 1.0\<close>).
  \<^item> \<open>Py_Object\<close>: the instance as an extensible record with its attribute
    dictionary, \<^verbatim>\<open>getattr\<close> with a default, \<^verbatim>\<open>setattr\<close>, \<^verbatim>\<open>delattr\<close>, the backing field name
    (\<open>backing\<close>, \<^verbatim>\<open>'_' + f.__name__\<close>), and \<open>call_method\<close>, the resolution and call
    of a listener by name at the time of the write, in a table of methods with
    the instance dictionary shadowing it.  The lemmas are the laws of reading
    after writing and the cases of the call.
  \<^item> \<open>Self_Properties\<close>: \<open>copy_items\<close> and \<open>copy_items_args\<close> are the two loops of
    \<^verbatim>\<open>self_properties\<close>, \<open>self_properties\<close> the function.  Its contract
    \<open>self_properties_spec\<close> gives the attribute dictionary afterwards as a map
    override; the lemmas show that the function refines the contract, what
    each field holds afterwards, what is left alone, that \<^verbatim>\<open>_args\<close> is the tuple
    of the copied values in order, and idempotence.
  \<^item> \<open>Properties\<close>: the builder record with \<open>properties_init\<close>, \<open>properties_enter\<close>,
    \<open>properties_exit\<close>; \<open>properties_prop\<close> and \<open>decorator\<close> for \<^verbatim>\<open>prop\<close> and the
    decorator it returns; \<open>getter\<close>, \<open>setter_listener\<close>, \<open>setter_plain\<close> and
    \<open>mark_dirty\<close> for the closures the decorator builds; \<open>descr_get\<close>,
    \<open>descr_set\<close> and \<open>descr_del\<close> for reading, assigning and deleting through a
    descriptor, which the decorator builds without a deleter.  The lemmas
    give the behaviour of each accessor on every branch, the error of a
    read-only property with a listener, the order of write, dirty flag and
    notification, and what an assignment leaves alone.
  \<^item> \<open>Class_Body\<close>: a class body as a list of statements (\<open>stmt\<close>) executed by
    \<open>body_step\<close> and \<open>exec_body\<close>, the states it can reach (\<open>reachable\<close>), and
    attribute access on instances of the finished class (\<open>class_getattr\<close>,
    \<open>class_setattr\<close>, \<open>class_delattr\<close>, \<open>class_call\<close>), and the namespace of a
    class that extends another (\<open>derived\<close>).  The lemmas show that a body fails exactly
    on a conflicting declaration, that the block is exited on the error path
    too, that every descriptor of a reachable namespace works on the backing
    field of its own name, that the class protocol agrees with the plain
    operations of \<open>Py_Object\<close> on names that are not properties, that a
    property cannot be deleted while its backing field can, and that a
    listener defined anew in an extending class is the one an inherited
    property calls.
  \<^item> \<open>Open_Class\<close>: methods that use the instance they are called on.  An open
    class (\<open>omember\<close>) binds a method name to a function of the class that the
    instance will have; \<open>unroll k\<close> closes it for listener calls nested at most
    \<open>k\<close> deep, a deeper call raising \<^verbatim>\<open>RecursionError\<close> (\<open>too_deep\<close>).  \<open>reassigning\<close>
    is a listener that assigns the property it observes; the source has no
    such listener (the one of the example assigns another property), it is
    the case of re-entry that the setter does not guard against.  The lemmas give the
    members of the closed class, show that reading and deleting do not depend
    on the depth, that a larger depth keeps every result a smaller one gives
    (\<open>below\<close>, \<open>steady\<close>), that a normalising listener settles at depth two
    because the setter stores before it notifies, and that a listener that
    never settles fails at every depth.
  \<^item> \<open>Py_Builtins\<close>: what the example calls besides attribute access: the
    ordering \<open>py_gt\<close>, the range as the list \<open>py_range\<close> in closed form and as
    the iteration \<open>range_iter\<close> that adds the step until the stop is reached,
    the loop \<open>for_each\<close>, and \<open>py_print\<close> on the record \<open>world\<close>, which adds the
    standard output to the instance.  The lemmas characterise the elements of
    a range, show that the iteration ends with the closed form, and give the
    laws of the loop.
  \<^item> \<open>Write_Runs\<close>: sequences of assignments to one observable property
    (\<open>assign_all\<close>) and what an observer is promised to see of them (\<open>changes\<close>,
    \<open>stored\<close>).  The lemmas show that a listener that records its calls records
    exactly the changes, in order, what the field and the dirty flag hold
    at the end, and that a run whose listener is bound nowhere stops at its
    first change, which it has written.
  \<^item> \<open>Setter_Threads\<close>: calls of one setter from several threads on one
    instance.  A call is at one of the statements of lines 74 to 79
    (\<open>pc\<close>, \<open>thread\<close>), \<open>thread_step\<close> executes one statement, \<open>sys_step\<close> lets any
    unfinished call step and \<open>run_schedule\<close> follows a given schedule.  The
    lemmas show that an uninterrupted call is the setter of \<open>Properties\<close>, that
    calls under a lock are assignments in sequence, that in every
    interleaving the listener is called once for each call that saw a
    difference, that under every fair schedule a change of the value the
    field had at the start is notified (\<open>wrote\<close>, \<open>first_inv\<close>: the call that
    writes first has read before any write), that two calls that both read
    before either writes leave a record that no sequence of the two
    assignments gives, whatever the values, and that racing calls of a setter
    without listener never fail, store a value that some call was given and
    do not miss the dirty flag.
  \<^item> \<open>Car_Example\<close>: the class \<^verbatim>\<open>Car\<close> (\<open>car_block\<close>, \<open>car_init\<close>, \<open>on_off_listener\<close>,
    \<open>on_acceleration\<close>, \<open>car_class\<close>), the driving program \<open>drive\<close>, and the state
    machine \<open>acar_step\<close> that says what the class promises.  The lemmas show
    that the class refines the machine along every run, what the nested
    assignment of an excessive speed does step by step, what the program
    prints, and two defects of the example that the machine makes plain.
  \<^item> \<open>Car_Open\<close>: the class \<^verbatim>\<open>Car\<close> as an open class (\<open>car_open\<close>).  The lemmas show
    that closed to depth two or more it is the class that \<open>Car_Example\<close> builds
    in stages, on every instance that does not shadow a listener and along
    the driving program; that depth one is too little for the assignment
    that makes the engine explode; that its listeners are steady; and that a
    subclass which defines
    \<^verbatim>\<open>_on_off_listener\<close> anew has it called by the assignment that the inherited
    \<^verbatim>\<open>_on_acceleration\<close> makes, which the staged class cannot express.
  \<^item> This theory holds the properties that span the initialiser and the
    properties: a constructor argument stored by \<open>self_properties\<close> is what the
    property of the same name reads, and assigning it again is silent.

  \<^bold>\<open>Correspondence with the code.\<close>  A closure is a function of the variables
  it captures: \<open>setter_listener field listener_name auto_dirty\<close> is the closure
  \<^verbatim>\<open>setter\<close> of lines 73 to 79 for the values of \<^verbatim>\<open>field\<close>, \<^verbatim>\<open>listener_name\<close> and
  \<^verbatim>\<open>auto_dirty\<close> in its environment.  A method of the instance's class is a
  function from the arguments and the instance to an outcome; the class is a
  table of such methods that the setter receives as a parameter, since a
  listener is looked up when the setter runs, not when the property is
  declared.  An assignment statement is a function from the instance to the
  updated instance, and a sequence of statements is a composition through
  \<open>and_then\<close>, which stops at the first exception.  The arguments \<^verbatim>\<open>read_only\<close>
  and \<^verbatim>\<open>auto_dirty\<close> are Booleans in the model: the code only tests their truth
  value; \<^verbatim>\<open>listener\<close> is a value, because the code also tests whether it is a
  string.  The mapping given to \<^verbatim>\<open>self_properties\<close> is the list of its items
  in iteration order, and \<^verbatim>\<open>exclude\<close> a list of names; the lemmas that need the
  keys of a dictionary to differ assume \<open>distinct\<close>.

  \<^bold>\<open>Termination.\<close>  The code has no unbounded loop: the loops of
  \<^verbatim>\<open>self_properties\<close> and of the example run over finite lists and are structural
  recursions, so the loops need no fuel and every definition is total.  The
  recursions that are not structural are \<open>digits\<close>, which divides by ten, and
  the iteration of a range (\<open>range_up\<close>, \<open>range_down\<close>), whose distance to the
  stop decreases with every element; the step 0, for which it would not, is
  refused before the iteration starts, as the host does.  In \<open>Setter_Threads\<close>
  a call of the setter takes at most five steps (\<open>remaining\<close>), the call of the
  listener being one step that returns or raises, so the schedules of \<open>n\<close>
  concurrent calls need at most \<open>5 * n\<close> steps and \<open>serial\<close> and the fair
  schedules give each call its five turns.  That the concurrent calls end is
  thus built into that model; what is proved of them is what they have done
  when they have ended.  Calls of listeners nest: a listener may
  assign a property, whose setter calls a listener again.  The host bounds the
  nesting by its recursion limit and raises \<^verbatim>\<open>RecursionError\<close> beyond it; the
  model does the same with the depth \<open>k\<close> of \<open>unroll k\<close>, which counts the listener
  calls in progress; the host counts every call, those of the setters and
  getters too, so that its error can also come from entering a setter, which
  moves the depth at which a runaway recursion stops but not that it stops.
  The car needs depth two (the listener of the speed
  assigns the engine state, whose listener assigns no property), every depth
  from two on gives the same result, and the depth the host allows is far
  above two.

  \<^bold>\<open>Assumptions of the model.\<close>  Values are \<^verbatim>\<open>None\<close>, Booleans, integers, floats,
  strings, tuples, object references and bound methods; there are no values
  with a comparison of their own.  A float is a rational number, an infinity
  or a NaN: every float of the machine is one of these, and the code only
  compares and stores floats, so no rounding is modelled.  A NaN carries the
  identity of its object, which the comparison of tuples consults.  An instance keeps its
  attributes in its dictionary (no \<^verbatim>\<open>__slots__\<close>).  The accessors that the
  decorator builds reach the backing field in the instance dictionary, which
  is what the code does when the class binds nothing to the name of the
  backing field (\<open>unshadowed\<close>, with the lemma \<open>backing_access\<close>; the class of the
  example is unshadowed).  A listener is found in the dictionary of the
  instance or among the methods of its class (\<open>call_method\<close>); a listener name
  that the class binds to a property or to a plain value, which the host would
  read and then call, is not covered, and a bound method kept in the
  instance dictionary is looked up in the class by its name when it is
  called.  One instance is considered at a time.  Calls are sequential
  except in \<open>Setter_Threads\<close>, where a statement of the setter is one atomic
  step, which is as fine as the interleaving of its reads and writes of the
  instance can be, and where the body of a listener is one step.

  \<^bold>\<open>Not modelled.\<close>  What remains outside is behaviour of the host language
  that the source does not use, so that there is no code to translate it
  from:
  \<^item> values of a class that defines its own comparison: the test \<^verbatim>\<open>old != new\<close>
    would call it, and it could raise or assign; the source and its example
    store strings, numbers and Booleans only;
  \<^item> instances with \<^verbatim>\<open>__slots__\<close> (the module is the variant without) and classes
    that bind the name of a backing field (excluded by \<open>unshadowed\<close>);
  \<^item> methods that catch the recursion error of a call they make (excluded by
    \<open>steady\<close> where the depth matters);
  \<^item> listeners whose own statements interleave with other threads;
  \<^item> the text of floats, tuples and objects in printed lines (\<open>render\<close> is
    defined on lines whose values are \<^verbatim>\<open>None\<close>, Booleans, integers and strings,
    which are the values the example prints);
  \<^item> the scope that the builder is given, which no method of the builder
    reads, and the module's export list.
\<close>

section \<open>The initialiser and the properties together\<close>

text \<open>
  Claim C35.  The two facilities fit together: a constructor argument copied
  by \<^verbatim>\<open>self_properties\<close> is what the property of the same name reads afterwards,
  whatever the default of the decorated function.
\<close>

theorem constructed_value_is_read:
  assumes "properties_prop self read_only listener ad f = Inr p"
    and "distinct (map fst scope)" and "(fn_name f, v) \<in> set scope"
    and "fn_name f \<noteq> ''self''" and "fn_name f \<notin> set exclude"
    and "\<not> (save_args \<and> fn_name f = ''args'')"
    and "fn_body f (self_properties inst scope exclude save_args) =
           Return d (self_properties inst scope exclude save_args)"
  shows "descr_get p (self_properties inst scope exclude save_args) =
           Return v (self_properties inst scope exclude save_args)"
proof -
  have "dict (self_properties inst scope exclude save_args) (backing (fn_name f)) = Some v"
    using assms(2-6) by (simp add: dict_self_properties_backing)
  with assms(1,7) show ?thesis
    by (simp add: descr_get_prop getter_Return)
qed

theorem constructed_value_is_read_witness:
  "descr_get (projr (properties_prop meta True VNone False brand_fn))
     (self_properties \<lparr>dict = Map.empty\<rparr>
        [(''self'', VRef 0), (''brand'', VStr ''Ford''), (''max_speed'', VInt 200)] [] False)
   = Return (VStr ''Ford'')
       (self_properties \<lparr>dict = Map.empty\<rparr>
          [(''self'', VRef 0), (''brand'', VStr ''Ford''), (''max_speed'', VInt 200)] [] False)"
  using constructed_value_is_read [of meta True VNone False brand_fn
      "projr (properties_prop meta True VNone False brand_fn)"
      "[(''self'', VRef 0), (''brand'', VStr ''Ford''), (''max_speed'', VInt 200)]"
      "VStr ''Ford''" "[]" False "\<lparr>dict = Map.empty\<rparr>" VNone]
  by (simp add: properties_prop_cases brand_fn_def)

text \<open>
  Assigning to a property the value the constructor stored for it
  changes nothing and notifies no listener, unless the value is a NaN.
\<close>

lemma rewriting_constructed_value_is_silent:
  assumes "properties_prop self False listener ad f = Inr p"
    and "distinct (map fst scope)" and "(fn_name f, v) \<in> set scope"
    and "fn_name f \<noteq> ''self''" and "fn_name f \<notin> set exclude"
    and "\<not> (save_args \<and> fn_name f = ''args'')" and "\<not> is_nan v"
  shows "descr_set attr p mt (self_properties inst scope exclude save_args) v =
           Return VNone (self_properties inst scope exclude save_args)"
proof -
  have "dict (self_properties inst scope exclude save_args) (backing (fn_name f)) = Some v"
    using assms(2-6) by (simp add: dict_self_properties_backing)
  with assms(1,7) show ?thesis
    by (simp add: descr_set_prop setter_cases)
qed

lemma rewriting_constructed_value_is_silent_witness:
  "descr_set ''speed'' (projr (properties_prop meta False (VStr ''_on_change'') True speed_fn))
     Map.empty
     (self_properties \<lparr>dict = Map.empty\<rparr> [(''self'', VRef 0), (''speed'', VInt 30)] [] True)
     (VInt 30)
   = Return VNone
       (self_properties \<lparr>dict = Map.empty\<rparr> [(''self'', VRef 0), (''speed'', VInt 30)] [] True)"
  using rewriting_constructed_value_is_silent [of meta "VStr ''_on_change''" True speed_fn
      "projr (properties_prop meta False (VStr ''_on_change'') True speed_fn)"
      "[(''self'', VRef 0), (''speed'', VInt 30)]" "VInt 30" "[]" True "''speed''" Map.empty
      "\<lparr>dict = Map.empty\<rparr>"]
  by (simp add: properties_prop_cases speed_fn_def)

end
